(* ===== verification/Prelude.thy ===== *)
theory Prelude
  imports Main "HOL-Library.Word"
begin

text \<open>
  Shared vocabulary of the development: the machine integers and byte strings of the
  crate, the \<open>Result\<close> plumbing (\<open>?\<close>, \<open>map_err\<close>, \<open>ok_or\<close>), the primitives of
  \<open>std::sync\<close> the code is built from (atomics, \<open>Mutex\<close>), the outcome of a closure that
  may unwind, and the summation over resource tables that every counter invariant is
  stated with.
\<close>

section \<open>Types\<close>

text \<open>
  All supported targets are 64-bit, so \<open>usize\<close> is 64 bits wide. A Rust \<open>String\<close> is a
  sequence of UTF-8 bytes and its \<open>len\<close> counts bytes: it is an Isabelle \<open>string\<close> whose
  characters are bytes.
\<close>

type_synonym u8 = "8 word"
type_synonym u64 = "64 word"
type_synonym usize = "64 word"
type_synonym bytes = "u8 list"
type_synonym pid = nat
type_synonym reference = nat

definition usize_of :: "nat \<Rightarrow> usize" where
  "usize_of n = of_nat n"

text \<open>A Rust allocation never exceeds \<open>isize::MAX\<close> bytes.\<close>

definition isize_max :: nat where
  "isize_max = 2 ^ 63 - 1"

text \<open>\<open>str::as_bytes\<close> and \<open>String::into_bytes\<close>.\<close>

definition as_bytes :: "string \<Rightarrow> bytes" where
  "as_bytes s = map of_char s"

lemma of_char_word_inject: "(of_char c :: u8) = of_char d \<longleftrightarrow> c = d"
proof
  assume "(of_char c :: u8) = of_char d"
  then have "(of_nat (of_char c) :: u8) = of_nat (of_char d)"
    by (simp only: of_nat_of_char)
  then have "(of_char c :: nat) mod 256 = of_char d mod 256"
    by (simp add: word_of_nat_eq_iff take_bit_nat_def)
  then show "c = d" by simp
qed simp

lemma as_bytes_inject [simp]: "as_bytes s = as_bytes t \<longleftrightarrow> s = t"
  by (simp add: as_bytes_def inj_map_eq_map inj_def of_char_word_inject)
lemma of_char_word_0 [simp]: "(of_char c :: u8) = 0 \<longleftrightarrow> c = CHR 0x00"
  using of_char_word_inject [of c "CHR 0x00"] by simp

text \<open>\<open>iter().any(|x| !set.insert(x))\<close> on a growing hash set.\<close>

fun any_repeated :: "'a set \<Rightarrow> 'a list \<Rightarrow> bool" where
  "any_repeated seen [] = False"
| "any_repeated seen (x # xs) = (x \<in> seen \<or> any_repeated (insert x seen) xs)"

lemma any_repeated_iff: "any_repeated seen xs \<longleftrightarrow> \<not> distinct xs \<or> set xs \<inter> seen \<noteq> {}"
  by (induction xs arbitrary: seen) auto

lemma any_repeated_empty [simp]: "any_repeated {} xs \<longleftrightarrow> \<not> distinct xs"
  by (simp add: any_repeated_iff)

section \<open>Collections of rules\<close>

named_theorems atomic_defs \<open>definitions of the \<open>std::sync\<close> primitives\<close>
named_theorems total_simps \<open>sums over resource tables\<close>
named_theorems handler_defs \<open>definitions of the crate's operations\<close>

section \<open>Results\<close>

text \<open>\<open>Err e\<close> is \<open>Inl e\<close>, \<open>Ok v\<close> is \<open>Inr v\<close>. \<open>bind_result\<close> is the \<open>?\<close> operator.\<close>

definition bind_result :: "'e + 'a \<Rightarrow> ('a \<Rightarrow> 'e + 'b) \<Rightarrow> 'e + 'b" where
  "bind_result r f = (case r of Inl e \<Rightarrow> Inl e | Inr v \<Rightarrow> f v)"

definition map_result :: "('a \<Rightarrow> 'b) \<Rightarrow> 'e + 'a \<Rightarrow> 'e + 'b" where
  "map_result f r = (case r of Inl e \<Rightarrow> Inl e | Inr v \<Rightarrow> Inr (f v))"

definition map_err :: "('e \<Rightarrow> 'f) \<Rightarrow> 'e + 'a \<Rightarrow> 'f + 'a" where
  "map_err f r = (case r of Inl e \<Rightarrow> Inl (f e) | Inr v \<Rightarrow> Inr v)"

definition ok_or :: "'a option \<Rightarrow> 'e \<Rightarrow> 'e + 'a" where
  "ok_or x e = (case x of None \<Rightarrow> Inl e | Some v \<Rightarrow> Inr v)"

fun collect_results :: "('a \<Rightarrow> 'e + 'b) \<Rightarrow> 'a list \<Rightarrow> 'e + 'b list" where
  "collect_results f [] = Inr []"
| "collect_results f (x # xs) =
     bind_result (f x) (\<lambda>y. bind_result (collect_results f xs) (\<lambda>ys. Inr (y # ys)))"

lemma bind_result_simps [simp]:
  "bind_result (Inl e) f = Inl e"
  "bind_result (Inr v) f = f v"
  by (simp_all add: bind_result_def)

lemma map_result_simps [simp]:
  "map_result g (Inl e) = Inl e"
  "map_result g (Inr v) = Inr (g v)"
  by (simp_all add: map_result_def)

lemma map_err_simps [simp]:
  "map_err g (Inl e) = Inl (g e)"
  "map_err g (Inr v) = Inr v"
  by (simp_all add: map_err_def)

lemma ok_or_simps [simp]:
  "ok_or None e = Inl e"
  "ok_or (Some v) e = Inr v"
  by (simp_all add: ok_or_def)

lemma bind_result_Inr_iff:
  "bind_result r f = Inr v \<longleftrightarrow> (\<exists>x. r = Inr x \<and> f x = Inr v)"
  by (cases r) auto

lemma bind_result_Inl_iff:
  "bind_result r f = Inl e \<longleftrightarrow> r = Inl e \<or> (\<exists>x. r = Inr x \<and> f x = Inl e)"
  by (cases r) auto

lemma ok_or_Inr_iff [simp]: "ok_or x e = Inr v \<longleftrightarrow> x = Some v"
  by (cases x) auto

lemma map_err_Inr_iff [simp]: "map_err f r = Inr v \<longleftrightarrow> r = Inr v"
  by (cases r) auto

lemma collect_results_Inr_iff:
  "collect_results f xs = Inr ys \<longleftrightarrow> list_all2 (\<lambda>x y. f x = Inr y) xs ys"
proof (induction xs arbitrary: ys)
  case Nil
  then show ?case by auto
next
  case (Cons x xs)
  then show ?case by (cases ys) (auto simp: bind_result_Inr_iff)
qed

lemma collect_results_Inl_iff:
  "collect_results f xs = Inl e \<longleftrightarrow>
     (\<exists>us x vs ys. xs = us @ x # vs \<and> list_all2 (\<lambda>u y. f u = Inr y) us ys \<and> f x = Inl e)"
proof (induction xs)
  case Nil
  then show ?case by simp
next
  case (Cons x xs)
  show ?case
  proof (cases "f x")
    case (Inl d)
    then show ?thesis by (auto simp: Cons_eq_append_conv list_all2_Cons1)
  next
    case (Inr y)
    then have "collect_results f (x # xs) = Inl e \<longleftrightarrow> collect_results f xs = Inl e"
      by (auto simp: bind_result_Inl_iff)
    also have "\<dots> \<longleftrightarrow>
        (\<exists>us z vs ys. x # xs = us @ z # vs \<and> list_all2 (\<lambda>u y. f u = Inr y) us ys \<and> f z = Inl e)"
      using Inr unfolding Cons.IH
      by (auto simp: Cons_eq_append_conv list_all2_Cons1) blast+
    finally show ?thesis .
  qed
qed

section \<open>Closures that may unwind\<close>

text \<open>
  \<open>std::panic::catch_unwind\<close> runs a closure that either returns or unwinds; a call into
  a library may unwind as well, so the library operations of the model return outcomes
  wherever the code runs them under a guard.
\<close>

datatype 'a outcome = Returned 'a | Panicked

definition bind_outcome :: "'a outcome \<Rightarrow> ('a \<Rightarrow> 'b outcome) \<Rightarrow> 'b outcome" where
  "bind_outcome r f = (case r of Returned v \<Rightarrow> f v | Panicked \<Rightarrow> Panicked)"

lemma bind_outcome_simps [simp]:
  "bind_outcome (Returned v) f = f v"
  "bind_outcome Panicked f = Panicked"
  by (simp_all add: bind_outcome_def)

lemma bind_outcome_Returned_iff:
  "bind_outcome r f = Returned v \<longleftrightarrow> (\<exists>x. r = Returned x \<and> f x = Returned v)"
  by (cases r) auto

section \<open>Atomics and mutexes\<close>

text \<open>
  Each function gives the value returned and the new content of the cell.
  \<open>fetch_add\<close> and \<open>fetch_sub\<close> wrap around; \<open>fetch_update\<close> applies a partial function
  and reports whether it was defined.
\<close>

definition compare_exchange :: "'a \<Rightarrow> 'a \<Rightarrow> 'a \<Rightarrow> ('a + 'a) \<times> 'a" where
  [atomic_defs]: "compare_exchange current expected new =
     (if current = expected then (Inr current, new) else (Inl current, current))"

definition fetch_update :: "'a \<Rightarrow> ('a \<Rightarrow> 'a option) \<Rightarrow> ('a + 'a) \<times> 'a" where
  [atomic_defs]: "fetch_update current f =
     (case f current of None \<Rightarrow> (Inl current, current) | Some new \<Rightarrow> (Inr current, new))"

definition is_ok :: "'e + 'a \<Rightarrow> bool" where
  [atomic_defs]: "is_ok r = (case r of Inl _ \<Rightarrow> False | Inr _ \<Rightarrow> True)"

definition checked_sub :: "usize \<Rightarrow> usize \<Rightarrow> usize option" where
  [atomic_defs]: "checked_sub a b = (if b \<le> a then Some (a - b) else None)"

lemma is_ok_simps [simp]: "is_ok (Inr v)" "\<not> is_ok (Inl e)"
  by (simp_all add: is_ok_def)

lemma compare_exchange_ok [simp]:
  "is_ok (fst (compare_exchange current expected new)) \<longleftrightarrow> current = expected"
  by (simp add: compare_exchange_def)

text \<open>A mutex whose lock fails once a holder has panicked (\<open>PoisonError\<close>).\<close>

datatype 'a mutex = Mutex (poisoned: bool) (content: 'a)

definition mutex_new :: "'a \<Rightarrow> 'a mutex" where
  "mutex_new v = Mutex False v"

definition mutex_lock :: "'a mutex \<Rightarrow> 'a option" where
  [atomic_defs]: "mutex_lock m = (if poisoned m then None else Some (content m))"

definition mutex_set :: "'a \<Rightarrow> 'a mutex \<Rightarrow> 'a mutex" where
  "mutex_set v m = Mutex (poisoned m) v"

text \<open>\<open>lock().ok().and_then(|mut value| value.take())\<close>\<close>

definition mutex_take :: "'a option mutex \<Rightarrow> 'a option \<times> 'a option mutex" where
  "mutex_take m = (case mutex_lock m of None \<Rightarrow> (None, m) | Some v \<Rightarrow> (v, mutex_set None m))"

lemma mutex_new_simps [simp]: "poisoned (mutex_new v) = False" "content (mutex_new v) = v"
  by (simp_all add: mutex_new_def)

lemma mutex_set_simps [simp]: "poisoned (mutex_set v m) = poisoned m" "content (mutex_set v m) = v"
  by (simp_all add: mutex_set_def)

lemma mutex_lock_unpoisoned [simp]: "\<not> poisoned m \<Longrightarrow> mutex_lock m = Some (content m)"
  by (simp add: mutex_lock_def)

lemma mutex_take_unpoisoned [simp]:
  "\<not> poisoned m \<Longrightarrow> mutex_take m = (content m, mutex_set None m)"
  by (simp add: mutex_take_def)

section \<open>Sums over resource tables\<close>

text \<open>
  A table of resources is a list indexed by the resource's address; a resource is never
  removed from it, so addresses stay valid. A counter of the code is compared with the
  sum of a weight over the table.
\<close>

definition total :: "('a \<Rightarrow> 'b::ab_group_add) \<Rightarrow> 'a list \<Rightarrow> 'b" where
  "total f xs = sum_list (map f xs)"

lemma total_Nil [simp]: "total f [] = 0"
  by (simp add: total_def)

lemma total_Cons [simp]: "total f (x # xs) = f x + total f xs"
  by (simp add: total_def)

lemma total_append [simp]: "total f (xs @ ys) = total f xs + total f ys"
  by (simp add: total_def)

lemma total_update [total_simps]:
  "i < length xs \<Longrightarrow> total f (xs[i := v]) = total f xs - f (xs ! i) + f v"
proof (induction xs arbitrary: i)
  case Nil
  then show ?case by simp
next
  case (Cons x xs)
  then show ?case by (cases i) (auto simp: algebra_simps)
qed

lemma total_update_same:
  "f v = f (xs ! i) \<Longrightarrow> total f (xs[i := v]) = total f xs"
  by (cases "i < length xs") (simp_all add: total_update list_update_beyond)

lemma total_cong: "(\<And>x. x \<in> set xs \<Longrightarrow> f x = g x) \<Longrightarrow> total f xs = total g xs"
  by (simp add: total_def cong: map_cong)

lemma total_nonneg:
  "(\<And>x. x \<in> set xs \<Longrightarrow> 0 \<le> f x) \<Longrightarrow> (0::int) \<le> total f xs"
  by (induction xs) auto

lemma total_ge_nth:
  assumes "\<And>x. x \<in> set xs \<Longrightarrow> (0::int) \<le> f x" and "i < length xs"
  shows "f (xs ! i) \<le> total f xs"
  using assms
proof (induction xs arbitrary: i)
  case Nil
  then show ?case by simp
next
  case (Cons x xs)
  have nonneg: "0 \<le> total f xs"
    using Cons.prems(1) by (intro total_nonneg) simp
  show ?case
  proof (cases i)
    case 0
    with nonneg show ?thesis by simp
  next
    case (Suc j)
    with Cons have "f (xs ! j) \<le> total f xs" by simp
    moreover have "0 \<le> f x" using Cons.prems(1) by simp
    ultimately show ?thesis using Suc by simp
  qed
qed

lemma total_of_int_word: "total (\<lambda>x. of_int (f x)) xs = (of_int (total f xs) :: usize)"
  by (induction xs) auto

lemma nth_list_update_if:
  "i < length xs \<Longrightarrow> xs[i := v] ! j = (if i = j then v else xs ! j)"
  by (simp add: nth_list_update)

lemma nth_update_read: "i < length xs \<Longrightarrow> xs[j := v] ! i = (if j = i then v else xs ! i)"
  by simp

lemma total_single:
  assumes "i < length xs" and "\<And>j. j < length xs \<Longrightarrow> j \<noteq> i \<Longrightarrow> f (xs ! j) = 0"
  shows "total f xs = f (xs ! i)"
proof -
  have "total f xs = (\<Sum>j\<in>{0..<length xs}. f (xs ! j))"
    by (simp add: total_def sum_list_sum_nth)
  also have "\<dots> = (\<Sum>j\<in>{0..<length xs}. if j = i then f (xs ! i) else 0)"
    using assms(2) by (intro sum.cong) auto
  finally show ?thesis using assms(1) by simp
qed

lemma total_zip_update:
  "i < length xs \<Longrightarrow> i < length ys \<Longrightarrow>
     total f (zip (xs[i := a]) (ys[i := b])) = total f (zip xs ys) - f (xs ! i, ys ! i) + f (a, b)"
  using total_update [of i "zip xs ys" f "(a, b)"] by (simp add: update_zip)

lemma total_of_bool: "total (\<lambda>x. of_bool (P x)) xs = (of_nat (length (filter P xs)) :: 'b::ring_1)"
  by (induction xs) auto

lemma unat_of_nat_usize: "n < 2 ^ 64 \<Longrightarrow> unat (of_nat n :: usize) = n"
  by (simp add: unat_of_nat)

lemma map_self_update [simp]: "(map f xs)[i := f (xs ! i)] = map f xs"
  by (cases "i < length xs") (simp_all add: list_update_beyond flip: map_update)

lemma map_update_same: "f v = f (xs ! i) \<Longrightarrow> map f (xs[i := v]) = map f xs"
  by (simp add: map_update)

lemma word_ge_1: "(1 :: usize) \<le> a \<longleftrightarrow> a \<noteq> 0"
  by (simp add: word_le_nat_alt Suc_le_eq unat_gt_0)

lemma unat_below_Suc: "(a :: usize) < b \<Longrightarrow> unat (a + 1) = Suc (unat a)"
proof -
  assume "a < b"
  then have "unat a + 1 < 2 ^ 64"
    using unsigned_less [where 'a = nat and w = b] by (simp add: word_less_nat_alt)
  then show ?thesis by (simp add: unat_word_ariths)
qed

lemma unat_pred: "(a :: usize) \<noteq> 0 \<Longrightarrow> unat (a - 1) = unat a - 1"
  by (simp add: unat_sub word_ge_1)

end
