(* ===== verification/Native.thy ===== *)
theory Native
  imports Prelude
begin

text \<open>
  The common part of \<^verbatim>\<open>native/iroh_beam_nif/src/lib.rs\<close>: the atoms shared with Elixir, the
  error map every failing call returns, the panic guard around synchronous work and the
  version report. A NIF returns the term \<open>{ok, v}\<close> or \<open>{error, e}\<close>; the model keeps the
  \<open>Result\<close> it is encoded from, \<open>Inr v\<close> or \<open>Inl e\<close>.
\<close>

section \<open>Atoms and errors\<close>

text \<open>
  \<open>At_other\<close> stands for an atom that Elixir passes in and that the crate does not name.
\<close>

datatype (plugins only:) atom =
  At_ok | At_error | At_completed | At_cancelled | At_internal | At_invalid_argument
    | At_io | At_native_failure | At_native_smoke | At_native_versions | At_identity_generate
    | At_identity_load | At_secret_key_import | At_secret_key_export | At_endpoint_id
    | At_endpoint_addr | At_endpoint_ticket | At_endpoint_bind | At_endpoint_close
    | At_endpoint_online | At_endpoint_info | At_bind_failed | At_closed | At_duplicate_identity
    | At_n0 | At_direct | At_no_relay | At_custom | At_connection_connect | At_connection_accept
    | At_connection_close | At_connection_closed | At_connection_info | At_resolution
    | At_refused | At_unauthorized | At_busy | At_capacity | At_client | At_server
    | At_outgoing | At_incoming | At_relay | At_ip | At_unknown | At_stream_open_uni
    | At_stream_open_bi | At_stream_accept_uni | At_stream_accept_bi | At_stream_send
    | At_stream_recv | At_stream_finish | At_stream_reset | At_stream_stop | At_stream_abort
    | At_stream_info | At_datagram_send | At_datagram_recv | At_datagram_info | At_eof
    | At_uni | At_bi | At_send | At_recv | At_both | At_peer_aborted | At_too_large
    | At_panic_outcome | At_native_module
  | At_other string

record NativeError =
  err_category :: atom
  err_operation :: atom
  err_message :: string
  err_context :: "string \<rightharpoonup> string"

type_synonym 'a nif_result = "NativeError + 'a"

definition native_error :: "atom \<Rightarrow> atom \<Rightarrow> string \<Rightarrow> NativeError" where
  "native_error category operation message =
     \<lparr>err_category = category, err_operation = operation, err_message = message,
      err_context = Map.empty\<rparr>"

lemma native_error_simps [simp]:
  "err_category (native_error c p m) = c"
  "err_operation (native_error c p m) = p"
  "err_message (native_error c p m) = m"
  "err_context (native_error c p m) = Map.empty"
  by (simp_all add: native_error_def)

lemma native_error_inject [simp]:
  "native_error c p m = native_error c' p' m' \<longleftrightarrow> c = c' \<and> p = p' \<and> m = m'"
  by (auto simp: native_error_def)

section \<open>The panic guard\<close>

definition guarded :: "('e + 'a) outcome \<Rightarrow> 'e \<Rightarrow> 'e + 'a" where
  "guarded work panic_error =
     (case work of Returned r \<Rightarrow> r | Panicked \<Rightarrow> Inl panic_error)"

definition encode_guarded :: "atom \<Rightarrow> 'a nif_result outcome \<Rightarrow> 'a nif_result" where
  "encode_guarded operation work =
     guarded work (native_error At_internal operation ''native operation failed internally'')"

lemma guarded_simps [simp]:
  "guarded (Returned r) e = r"
  "guarded Panicked e = Inl e"
  by (simp_all add: guarded_def)

lemma encode_guarded_Inr_iff:
  "encode_guarded operation work = Inr v \<longleftrightarrow> work = Returned (Inr v)"
  by (cases work) (simp_all add: encode_guarded_def)

section \<open>Versions\<close>

definition IROH_VERSION :: string where
  "IROH_VERSION = ''1.0.3''"

definition RUSTLER_VERSION :: string where
  "RUSTLER_VERSION = ''0.38.0''"

definition NIF_VERSION :: string where
  "NIF_VERSION = ''2.16''"

record version_info =
  vi_iroh :: string
  vi_rustler :: string
  vi_nif :: string
  vi_crate_version :: string

text \<open>\<open>pkg_version\<close> is the value of \<open>CARGO_PKG_VERSION\<close> at build time.\<close>

definition native_versions :: "string \<Rightarrow> version_info nif_result" where
  "native_versions pkg_version =
     Inr \<lparr>vi_iroh = IROH_VERSION, vi_rustler = RUSTLER_VERSION, vi_nif = NIF_VERSION,
          vi_crate_version = pkg_version\<rparr>"

end
