(* ===== verification/Profile.thy ===== *)
theory Profile
  imports Native
begin

text \<open>
  The network profiles of \<^verbatim>\<open>native/iroh_beam_nif/src/endpoint.rs\<close> (\<open>ProfileKind\<close>) and what
  each of them enables.
\<close>

datatype ProfileKind = N0 | Direct | NoRelay | Custom

fun ProfileKind_atom :: "ProfileKind \<Rightarrow> atom" where
  "ProfileKind_atom N0 = At_n0"
| "ProfileKind_atom Direct = At_direct"
| "ProfileKind_atom NoRelay = At_no_relay"
| "ProfileKind_atom Custom = At_custom"

fun relay_enabled :: "ProfileKind \<Rightarrow> bool" where
  "relay_enabled N0 = True"
| "relay_enabled Custom = True"
| "relay_enabled _ = False"

fun profile_address_lookup_enabled :: "ProfileKind \<Rightarrow> bool" where
  "profile_address_lookup_enabled N0 = True"
| "profile_address_lookup_enabled NoRelay = True"
| "profile_address_lookup_enabled _ = False"

lemma ProfileKind_atom_inject [simp]: "ProfileKind_atom p = ProfileKind_atom q \<longleftrightarrow> p = q"
  by (cases p; cases q) simp_all

end
