(* ===== verification/Rust_Net.thy ===== *)
theory Rust_Net
  imports Prelude
begin

text \<open>
  Socket addresses of the Rust standard library as the crate uses them: the recursive
  descent parser behind \<open>SocketAddr::from_str\<close>, the \<open>Display\<close> form and \<open>is_ipv4\<close>. A parser
  consumes a prefix of the text or fails without consuming anything.
\<close>

section \<open>Addresses\<close>

text \<open>
  \<open>V4\<close> holds four octets and a port; \<open>V6\<close> eight segments, a port and a scope identifier.
\<close>

datatype socket_addr = V4 "nat list" nat | V6 "nat list" nat nat

fun is_ipv4 :: "socket_addr \<Rightarrow> bool" where
  "is_ipv4 (V4 _ _) = True"
| "is_ipv4 (V6 _ _ _) = False"

type_synonym 'a parser = "string \<Rightarrow> ('a \<times> string) option"

definition bind_parser :: "'a parser \<Rightarrow> ('a \<Rightarrow> 'b parser) \<Rightarrow> 'b parser" where
  "bind_parser p f s = (case p s of None \<Rightarrow> None | Some (x, s') \<Rightarrow> f x s')"

definition return_parser :: "'a \<Rightarrow> 'a parser" where
  "return_parser x s = Some (x, s)"

section \<open>Numbers\<close>

definition read_given_char :: "char \<Rightarrow> unit parser" where
  "read_given_char c s =
     (case s of [] \<Rightarrow> None | x # xs \<Rightarrow> if x = c then Some ((), xs) else None)"

definition read_separator :: "char \<Rightarrow> nat \<Rightarrow> 'a parser \<Rightarrow> 'a parser" where
  "read_separator sep index inner =
     (if 0 < index then bind_parser (read_given_char sep) (\<lambda>_. inner) else inner)"

definition to_digit :: "nat \<Rightarrow> char \<Rightarrow> nat option" where
  "to_digit radix c =
     (let n = of_char c :: nat;
          d = (if 48 \<le> n \<and> n \<le> 57 then Some (n - 48)
               else if 97 \<le> n \<and> n \<le> 122 then Some (n - 87)
               else if 65 \<le> n \<and> n \<le> 90 then Some (n - 55)
               else None)
      in case d of None \<Rightarrow> None | Some d \<Rightarrow> if d < radix then Some d else None)"

fun read_digits :: "nat \<Rightarrow> string \<Rightarrow> nat list \<times> string" where
  "read_digits radix [] = ([], [])"
| "read_digits radix (c # cs) =
     (case to_digit radix c of
        None \<Rightarrow> ([], c # cs)
      | Some d \<Rightarrow> (case read_digits radix cs of (ds, rest) \<Rightarrow> (d # ds, rest)))"

definition digits_value :: "nat \<Rightarrow> nat list \<Rightarrow> nat" where
  "digits_value radix ds = foldl (\<lambda>a d. a * radix + d) 0 ds"

text \<open>\<open>bound\<close> is one more than the largest value of the number's type.\<close>

definition read_number :: "nat \<Rightarrow> nat option \<Rightarrow> bool \<Rightarrow> nat \<Rightarrow> nat parser" where
  "read_number radix max_digits allow_zero_prefix bound s =
     (case read_digits radix s of (ds, rest) \<Rightarrow>
        if ds = [] then None
        else if (case max_digits of None \<Rightarrow> False | Some m \<Rightarrow> m < length ds) then None
        else if \<not> allow_zero_prefix \<and> hd s = CHR ''0'' \<and> 1 < length ds then None
        else if digits_value radix ds < bound then Some (digits_value radix ds, rest)
        else None)"

section \<open>Addresses and ports\<close>

definition read_octet :: "nat \<Rightarrow> nat parser" where
  "read_octet index = read_separator (CHR ''.'') index (read_number 10 (Some 3) False 256)"

definition read_ipv4_addr :: "nat list parser" where
  "read_ipv4_addr =
     bind_parser (read_octet 0) (\<lambda>a. bind_parser (read_octet 1) (\<lambda>b.
       bind_parser (read_octet 2) (\<lambda>c. bind_parser (read_octet 3) (\<lambda>d.
         return_parser [a, b, c, d]))))"

text \<open>
  \<open>read_groups i left s\<close> reads the groups \<open>i\<close>, \<open>i + 1\<close>, \<dots> of which at most \<open>left\<close> remain; a
  trailing embedded IPv4 address fills two groups and ends the chunk.
\<close>

fun read_groups :: "nat \<Rightarrow> nat \<Rightarrow> string \<Rightarrow> nat list \<times> bool \<times> string" where
  "read_groups i 0 s = ([], False, s)"
| "read_groups i (Suc left) s =
     (case (if 0 < left then read_separator (CHR '':'') i read_ipv4_addr s else None) of
        Some (v4, s') \<Rightarrow> ([v4 ! 0 * 256 + v4 ! 1, v4 ! 2 * 256 + v4 ! 3], True, s')
      | None \<Rightarrow>
          (case read_separator (CHR '':'') i (read_number 16 (Some 4) True 65536) s of
             None \<Rightarrow> ([], False, s)
           | Some (g, s') \<Rightarrow>
               (case read_groups (Suc i) left s' of (gs, v4, s'') \<Rightarrow> (g # gs, v4, s''))))"

definition read_ipv6_addr :: "nat list parser" where
  "read_ipv6_addr s =
     (case read_groups 0 8 s of (head, head_ipv4, s) \<Rightarrow>
        if length head = 8 then Some (head, s)
        else if head_ipv4 then None
        else bind_parser (read_given_char (CHR '':'')) (\<lambda>_.
               bind_parser (read_given_char (CHR '':'')) (\<lambda>_ s.
                 case read_groups 0 (8 - (length head + 1)) s of (tail, _, s) \<Rightarrow>
                   Some (head @ replicate (8 - length head - length tail) 0 @ tail, s))) s)"

definition read_port :: "nat parser" where
  "read_port = bind_parser (read_given_char (CHR '':'')) (\<lambda>_. read_number 10 None True 65536)"

definition read_scope_id :: "nat parser" where
  "read_scope_id =
     bind_parser (read_given_char (CHR ''%'')) (\<lambda>_. read_number 10 None True 4294967296)"

definition read_socket_addr_v4 :: "socket_addr parser" where
  "read_socket_addr_v4 =
     bind_parser read_ipv4_addr (\<lambda>ip. bind_parser read_port (\<lambda>port. return_parser (V4 ip port)))"

definition read_socket_addr_v6 :: "socket_addr parser" where
  "read_socket_addr_v6 =
     bind_parser (read_given_char (CHR ''['')) (\<lambda>_. bind_parser read_ipv6_addr (\<lambda>ip s.
       case (case read_scope_id s of None \<Rightarrow> (0, s) | Some r \<Rightarrow> r) of (scope, s) \<Rightarrow>
         bind_parser (read_given_char (CHR '']'')) (\<lambda>_. bind_parser read_port (\<lambda>port.
           return_parser (V6 ip port scope))) s))"

definition socket_addr_from_str :: "string \<Rightarrow> socket_addr option" where
  "socket_addr_from_str s =
     (case (case read_socket_addr_v4 s of Some r \<Rightarrow> Some r | None \<Rightarrow> read_socket_addr_v6 s) of
        Some (addr, []) \<Rightarrow> Some addr
      | _ \<Rightarrow> None)"

section \<open>Display\<close>

definition digit_char :: "nat \<Rightarrow> char" where
  "digit_char d = (if d < 10 then char_of (48 + d) else char_of (87 + d))"

fun show_radix :: "nat \<Rightarrow> nat \<Rightarrow> string" where
  "show_radix radix n =
     (if n < radix \<or> radix < 2 then [digit_char n]
      else show_radix radix (n div radix) @ [digit_char (n mod radix)])"

declare show_radix.simps [simp del]

definition join_with :: "string \<Rightarrow> string list \<Rightarrow> string" where
  "join_with sep xs = concat (case xs of [] \<Rightarrow> [] | y # ys \<Rightarrow> y # map (\<lambda>z. sep @ z) ys)"

definition show_ipv4 :: "nat list \<Rightarrow> string" where
  "show_ipv4 octets = join_with ''.'' (map (show_radix 10) octets)"

text \<open>The longest run of zero segments, the first one when several are longest.\<close>

fun zero_run :: "nat \<Rightarrow> nat \<times> nat \<Rightarrow> nat \<times> nat \<Rightarrow> nat list \<Rightarrow> nat \<times> nat" where
  "zero_run i longest current [] = longest"
| "zero_run i longest current (x # xs) =
     (if x = 0
      then let start = (if snd current = 0 then i else fst current);
               current = (start, snd current + 1);
               longest = (if snd longest < snd current then current else longest)
           in zero_run (Suc i) longest current xs
      else zero_run (Suc i) longest (0, 0) xs)"

definition show_segments :: "nat list \<Rightarrow> string" where
  "show_segments xs = join_with '':'' (map (show_radix 16) xs)"

definition show_ipv6 :: "nat list \<Rightarrow> string" where
  "show_ipv6 xs =
     (if take 6 xs = [0, 0, 0, 0, 0, 65535]
      then ''::ffff:'' @ show_ipv4 [xs ! 6 div 256, xs ! 6 mod 256, xs ! 7 div 256, xs ! 7 mod 256]
      else case zero_run 0 (0, 0) (0, 0) xs of (start, len) \<Rightarrow>
             if 1 < len
             then show_segments (take start xs) @ ''::'' @ show_segments (drop (start + len) xs)
             else show_segments xs)"

fun socket_addr_to_string :: "socket_addr \<Rightarrow> string" where
  "socket_addr_to_string (V4 ip port) = show_ipv4 ip @ '':'' @ show_radix 10 port"
| "socket_addr_to_string (V6 ip port scope) =
     (if scope = 0 then ''['' @ show_ipv6 ip @ '']:'' @ show_radix 10 port
      else ''['' @ show_ipv6 ip @ ''%'' @ show_radix 10 scope @ '']:'' @ show_radix 10 port)"

lemmas socket_parser_defs =
  socket_addr_from_str_def read_socket_addr_v4_def read_socket_addr_v6_def read_scope_id_def
  read_port_def read_ipv6_addr_def read_ipv4_addr_def read_octet_def read_number_def
  read_separator_def read_given_char_def bind_parser_def return_parser_def to_digit_def
  digits_value_def

end
