(* ===== verification/Futures.thy ===== *)
theory Futures
  imports Profile Rust_Net
begin

text \<open>
  The asynchronous blocks of the crate after closure conversion: one constructor per
  \<open>await\<close> point, with the values the block owns while it is suspended there. Opaque
  library objects (an Iroh endpoint, connection or stream half) are handles; a resource
  of the crate is an index into its table. The type parameters are the library's dial
  target (\<open>iroh::EndpointAddr\<close>) and endpoint builder (\<open>iroh::endpoint::Builder\<close>).
\<close>

type_synonym handle = nat
type_synonym endpoint_ix = nat
type_synonym connection_ix = nat
type_synonym stream_ix = nat
type_synonym op_ix = nat

datatype stream_op = Open_uni | Open_bi | Accept_uni | Accept_bi

datatype read_result = Eof | Data bytes

text \<open>The values an asynchronous operation reports to its caller.\<close>

datatype res_val =
    R_atom atom
  | R_endpoint endpoint_ix
  | R_connection connection_ix
  | R_stream stream_ix
  | R_count usize
  | R_read read_result
  | R_binary bytes

text \<open>
  \<open>Fut_sleep\<close>: \<open>operation_start\<close>. \<open>Fut_bind\<close>: \<open>builder.bind()\<close>. \<open>Fut_close\<close>, \<open>Fut_closing\<close>:
  \<open>endpoint_close_start\<close> before its first poll and inside \<open>value.close().await\<close>.
  \<open>Fut_online\<close>: \<open>endpoint_await_online_start\<close>. \<open>Fut_connect\<close>: \<open>connection_connect_start\<close>.
  \<open>Fut_accept\<close>, \<open>Fut_accepting\<close>: \<open>connection_accept_start\<close> inside \<open>value.accept().await\<close> and
  inside the handshake; both own the accept permit. \<open>Fut_closed\<close>: \<open>connection_closed_start\<close>.
  \<open>Fut_stream\<close>: the four stream constructors. \<open>Fut_send\<close>: \<open>start_stream_send\<close>, owning the send
  lease and the queue guard; \<open>written\<close> counts completed chunks and \<open>partial\<close> the bytes of the
  chunk that \<open>write_all\<close> has handed over so far. \<open>Fut_recv\<close>: \<open>stream_recv_start\<close> with its lease.
  \<open>Fut_datagram_send\<close>, \<open>Fut_datagram_recv\<close>: the datagram operations with their permits.
\<close>

datatype ('a, 'b) future =
    Fut_sleep u64
  | Fut_bind 'b
  | Fut_close endpoint_ix
  | Fut_closing endpoint_ix handle
  | Fut_online ProfileKind "handle option"
  | Fut_connect handle 'a string endpoint_ix pid
  | Fut_accept handle endpoint_ix bool "string set" pid
  | Fut_accepting handle endpoint_ix bool "string set" pid
  | Fut_closed handle connection_ix
  | Fut_stream stream_op handle connection_ix pid
  | Fut_send stream_ix handle bytes usize usize bool usize
  | Fut_recv stream_ix handle usize
  | Fut_datagram_send handle connection_ix bytes bool
  | Fut_datagram_recv handle connection_ix

text \<open>What the \<open>JoinHandle\<close> of a spawned block yields: its output, or that it panicked.\<close>

datatype joined =
    Join_result "res_val nif_result"
  | Join_bound "handle option"
  | Join_elapsed
  | Join_panicked

section \<open>The library under the futures\<close>

text \<open>
  What Iroh answers when a suspended block is resumed. \<open>E_poll\<close> is the first poll of a block
  that runs before it waits; \<open>E_notified\<close> is the \<open>notified()\<close> branch of a \<open>select!\<close>.
  \<open>None\<close> stands for the error value of the call, whose details the crate discards.
\<close>

datatype lib_event =
    E_poll
  | E_elapsed
  | E_bound "handle option"
  | E_endpoint_closed
  | E_online
  | E_connected "handle option"
  | E_incoming "bool option"
  | E_handshake "handle option"
  | E_connection_closed
  | E_stream "(handle \<times> handle) option"
  | E_write "usize option"
  | E_notified
  | E_read "bytes option option"
  | E_datagram_sent bool
  | E_datagram_read "bytes option"

text \<open>The calls on Iroh objects that peers can observe, in the order the crate makes them.\<close>

datatype net_event =
    Net_endpoint_close handle
  | Net_endpoint_drop handle
  | Net_connection_close handle
  | Net_stream_write handle bytes
  | Net_stream_finish handle
  | Net_stream_reset handle u64
  | Net_stream_stop handle u64
  | Net_send_drop handle
  | Net_recv_drop handle
  | Net_datagram handle bytes

text \<open>
  The queries the crate makes on Iroh objects, at the moment of the call. The path kind is
  given by \<open>is_ip\<close>, \<open>is_relay\<close> and the printed remote address; \<open>varint_from_u64\<close> is
  \<open>VarInt::from_u64\<close>.
\<close>

record path_view =
  pv_is_selected :: bool
  pv_is_ip :: bool
  pv_is_relay :: bool
  pv_remote_addr :: string
  pv_rtt_micros :: nat

record iroh_api =
  api_relay_urls :: "handle \<Rightarrow> string list"
  api_ip_addrs :: "handle \<Rightarrow> socket_addr list"
  api_bound_sockets :: "handle \<Rightarrow> socket_addr list"
  api_home_relay_connected :: "handle \<Rightarrow> bool list"
  api_is_closed :: "handle \<Rightarrow> bool"
  api_remote_id :: "handle \<Rightarrow> string"
  api_alpn :: "handle \<Rightarrow> bytes"
  api_is_client :: "handle \<Rightarrow> bool"
  api_stable_id :: "handle \<Rightarrow> usize"
  api_close_reason :: "handle \<Rightarrow> bool"
  api_paths :: "handle \<Rightarrow> path_view list"
  api_max_datagram_size :: "handle \<Rightarrow> usize option"
  api_datagram_send_buffer_space :: "handle \<Rightarrow> usize"
  api_send_stream_id :: "handle \<Rightarrow> u64"
  api_recv_stream_id :: "handle \<Rightarrow> u64"
  api_finish_ok :: "handle \<Rightarrow> bool"
  api_varint_from_u64 :: "u64 \<Rightarrow> u64 option"

text \<open>A concrete library for worked instances.\<close>

definition demo_iroh :: iroh_api where
  "demo_iroh =
     \<lparr>api_relay_urls = (\<lambda>_. []), api_ip_addrs = (\<lambda>_. []), api_bound_sockets = (\<lambda>_. []),
      api_home_relay_connected = (\<lambda>_. []), api_is_closed = (\<lambda>_. False),
      api_remote_id = (\<lambda>_. ''peer''), api_alpn = (\<lambda>_. []), api_is_client = (\<lambda>_. True),
      api_stable_id = (\<lambda>_. 0), api_close_reason = (\<lambda>_. False), api_paths = (\<lambda>_. []),
      api_max_datagram_size = (\<lambda>_. Some 1200), api_datagram_send_buffer_space = (\<lambda>_. 4096),
      api_send_stream_id = (\<lambda>_. 0), api_recv_stream_id = (\<lambda>_. 1), api_finish_ok = (\<lambda>_. True),
      api_varint_from_u64 = (\<lambda>n. if n < push_bit 62 1 then Some n else None)\<rparr>"

end
