(* ===== verification/Contracts.thy ===== *)
theory Contracts
  imports Prelude
begin

text \<open>
  The contracts that several resources of the crate share, each with what its clients get
  from it: a pool of permits with a limit, a busy flag (a pool of one permit), and a
  one-shot action. The components interpret them on their own operations.
\<close>

section \<open>Pools of permits\<close>

text \<open>\<open>run\<close> plays a schedule of acquire (\<open>True\<close>) and release (\<open>False\<close>) calls.\<close>

locale permit_pool =
  fixes acquire :: "'s \<Rightarrow> bool \<times> 's"
    and release :: "'s \<Rightarrow> 's"
    and in_use :: "'s \<Rightarrow> nat"
    and capacity :: "'s \<Rightarrow> nat"
  assumes acquire_free:
      "in_use s < capacity s \<Longrightarrow> fst (acquire s) \<and> in_use (snd (acquire s)) = Suc (in_use s)"
    and acquire_full: "capacity s \<le> in_use s \<Longrightarrow> acquire s = (False, s)"
    and release_in_use: "in_use (release s) = in_use s - 1"
    and acquire_capacity: "capacity (snd (acquire s)) = capacity s"
    and release_capacity: "capacity (release s) = capacity s"
begin

fun run :: "bool list \<Rightarrow> 's \<Rightarrow> 's" where
  "run [] s = s"
| "run (True # es) s = run es (snd (acquire s))"
| "run (False # es) s = run es (release s)"

lemma acquire_iff: "fst (acquire s) \<longleftrightarrow> in_use s < capacity s"
  using acquire_free [of s] acquire_full [of s] by (cases "in_use s < capacity s") auto

lemma acquire_in_use:
  "in_use (snd (acquire s)) = (if in_use s < capacity s then Suc (in_use s) else in_use s)"
  using acquire_free [of s] acquire_full [of s] by (cases "in_use s < capacity s") auto

lemma run_capacity: "capacity (run es s) = capacity s"
  by (induction es s rule: run.induct) (simp_all add: acquire_capacity release_capacity)

lemma run_within_capacity: "in_use s \<le> capacity s \<Longrightarrow> in_use (run es s) \<le> capacity s"
proof (induction es s rule: run.induct)
  case (2 es s)
  then show ?case by (simp add: acquire_in_use acquire_capacity split: if_splits)
next
  case (3 es s)
  then show ?case by (simp add: release_in_use release_capacity)
qed simp

lemma acquire_release: "fst (acquire s) \<Longrightarrow> in_use (release (snd (acquire s))) = in_use s"
  by (simp add: acquire_iff acquire_in_use release_in_use)

lemma release_makes_room:
  assumes "0 < in_use s" and "in_use s \<le> capacity s"
  shows "fst (acquire (release s))"
  using assms by (simp add: acquire_iff release_in_use release_capacity)

end

section \<open>Busy flags\<close>

locale busy_flag =
  fixes enter :: "'s \<Rightarrow> bool \<times> 's"
    and leave :: "'s \<Rightarrow> 's"
    and busy :: "'s \<Rightarrow> bool"
  assumes enter_idle: "\<not> busy s \<Longrightarrow> fst (enter s) \<and> busy (snd (enter s))"
    and enter_busy: "busy s \<Longrightarrow> enter s = (False, s)"
    and leave_idle: "\<not> busy (leave s)"

sublocale busy_flag \<subseteq> flag: permit_pool enter leave "\<lambda>s. of_bool (busy s)" "\<lambda>_. 1"
  by unfold_locales (auto simp: enter_idle leave_idle enter_busy split: if_splits simp: of_bool_def)

context busy_flag begin

lemma enter_iff: "fst (enter s) \<longleftrightarrow> \<not> busy s"
  using enter_idle [of s] enter_busy [of s] by (cases "busy s") auto

lemma second_enter_refused: "fst (enter s) \<Longrightarrow> \<not> fst (enter (snd (enter s)))"
  using enter_idle [of s] by (simp add: enter_iff)

end

section \<open>One-shot actions\<close>

text \<open>\<open>results n s\<close> lists what the first \<open>n\<close> calls report.\<close>

locale one_shot =
  fixes fire :: "'s \<Rightarrow> bool \<times> 's"
    and fired :: "'s \<Rightarrow> bool"
  assumes fire_reports: "fst (fire s) \<longleftrightarrow> \<not> fired s"
    and fire_fired: "fired (snd (fire s))"
    and fire_idle: "fired s \<Longrightarrow> snd (fire s) = s"
begin

fun results :: "nat \<Rightarrow> 's \<Rightarrow> bool list" where
  "results 0 s = []"
| "results (Suc n) s = fst (fire s) # results n (snd (fire s))"

lemma results_fired: "fired s \<Longrightarrow> results n s = replicate n False"
  by (induction n arbitrary: s) (simp_all add: fire_reports fire_idle)

lemma results_exactly_once:
  assumes "\<not> fired s" and "0 < n"
  shows "results n s = True # replicate (n - 1) False"
proof -
  obtain m where n: "n = Suc m" using assms(2) gr0_conv_Suc by auto
  show ?thesis
    by (simp add: n fire_reports assms(1) results_fired [OF fire_fired])
qed

lemma fire_twice: "fire (snd (fire s)) = (False, snd (fire s))"
  by (rule prod_eqI) (simp_all add: fire_reports fire_fired fire_idle)

end

end
