(* ===== verification/Operation.thy ===== *)
theory Operation
  imports Futures Contracts
begin

text \<open>
  Operations: \<open>OperationResource\<close>, \<open>runtime\<close> and the smoke operation of \<^verbatim>\<open>lib.rs\<close>, and the
  operation runner \<open>start_endpoint_operation\<close>, \<open>send_operation_result\<close> of \<^verbatim>\<open>endpoint.rs\<close>. An
  operation owns a state cell and a cancellation permit; the runner spawns the caller's
  future and a supervisor task that waits for the future or for the permit, decides the
  race by a compare-and-exchange on the state cell, and reports to the caller.
\<close>

section \<open>Operation resources\<close>

definition RUNNING :: u8 where
  "RUNNING = 0"

definition COMPLETED :: u8 where
  "COMPLETED = 1"

definition CANCELLED :: u8 where
  "CANCELLED = 2"

lemma op_states_distinct [simp]:
  "RUNNING \<noteq> COMPLETED" "RUNNING \<noteq> CANCELLED" "COMPLETED \<noteq> CANCELLED"
  "COMPLETED \<noteq> RUNNING" "CANCELLED \<noteq> RUNNING" "CANCELLED \<noteq> COMPLETED"
  by (simp_all add: RUNNING_def COMPLETED_def CANCELLED_def)

text \<open>\<open>op_cancelled\<close> is the permit stored in the \<open>Notify\<close> cell.\<close>

record operation_resource =
  op_state :: u8
  op_cancelled :: bool

definition OperationResource_new :: operation_resource where
  "OperationResource_new = \<lparr>op_state = RUNNING, op_cancelled = False\<rparr>"

definition OperationResource_cancel :: "operation_resource \<Rightarrow> bool \<times> operation_resource" where
  "OperationResource_cancel self =
     (let (r, state') = compare_exchange (op_state self) RUNNING CANCELLED;
          cancelled = is_ok r;
          self = self\<lparr>op_state := state'\<rparr>
      in if cancelled then (True, self\<lparr>op_cancelled := True\<rparr>) else (False, self))"

text \<open>The supervisor's \<open>compare_exchange(RUNNING, COMPLETED)\<close>.\<close>

definition operation_complete :: "operation_resource \<Rightarrow> bool \<times> operation_resource" where
  "operation_complete self =
     (let (r, state') = compare_exchange (op_state self) RUNNING COMPLETED
      in (is_ok r, self\<lparr>op_state := state'\<rparr>))"

lemma OperationResource_new_simps [simp]:
  "op_state OperationResource_new = RUNNING" "op_cancelled OperationResource_new = False"
  by (simp_all add: OperationResource_new_def)

lemma OperationResource_cancel_eq:
  "OperationResource_cancel self =
     (if op_state self = RUNNING
      then (True, self\<lparr>op_state := CANCELLED, op_cancelled := True\<rparr>) else (False, self))"
  by (simp add: OperationResource_cancel_def compare_exchange_def Let_def)

lemma operation_complete_eq:
  "operation_complete self =
     (if op_state self = RUNNING then (True, self\<lparr>op_state := COMPLETED\<rparr>) else (False, self))"
  by (simp add: operation_complete_def compare_exchange_def Let_def)

text \<open>Cancelling succeeds once, and so does completing: each is a one-shot action on the cell.\<close>

interpretation cancelling: one_shot OperationResource_cancel "\<lambda>p. op_state p \<noteq> RUNNING"
  by unfold_locales (simp_all add: OperationResource_cancel_eq)

interpretation completing: one_shot operation_complete "\<lambda>p. op_state p \<noteq> RUNNING"
  by unfold_locales (simp_all add: operation_complete_eq)

text \<open>
  C40. An operation settles once: of any number of cancellations only the first can win, and
  only on a running operation; after a completion every cancellation loses, and after a
  cancellation every completion.
\<close>

theorem operation_settles_once:
  "cancelling.results (Suc n) p = (op_state p = RUNNING) # replicate n False
   \<and> cancelling.results n (snd (operation_complete p)) = replicate n False
   \<and> completing.results n (snd (OperationResource_cancel p)) = replicate n False"
  using cancelling.results_exactly_once [of p "Suc n"] cancelling.results_fired [of p "Suc n"]
    cancelling.results_fired [OF completing.fire_fired] completing.results_fired [OF cancelling.fire_fired]
  by (cases "op_state p = RUNNING") simp_all

section \<open>The state of the operation layer\<close>

text \<open>
  \<open>bind_capture\<close> holds what the supervisor of \<open>endpoint_bind_start\<close> has moved into its
  block; the other two supervisors keep only an atom.
\<close>

record bind_capture =
  bc_endpoint_id :: string
  bc_profile :: ProfileKind
  bc_direct_ip :: bool
  bc_max_pending_accepts :: usize
  bc_max_connections :: usize

datatype supervisor =
    Sup_smoke atom
  | Sup_endpoint atom
  | Sup_bind bind_capture

text \<open>The spawned block: still suspended, finished, or taken over by the supervisor.\<close>

datatype ('a, 'b) spawned =
    Sp_running "('a, 'b) future"
  | Sp_finished joined
  | Sp_joined

text \<open>
  Where the supervisor is: inside \<open>tokio::select!\<close>; past it with the selected result
  (\<open>None\<close> for the cancellation branch); past a won exchange with the message to send;
  before the final bookkeeping, still owning a result that was not sent; or done.
\<close>

datatype phase =
    Selecting
  | Selected "joined option"
  | Sending "res_val nif_result"
  | Finishing "joined option"
  | Terminated

record ('a, 'b) task =
  tk_caller :: pid
  tk_ref :: reference
  tk_supervisor :: supervisor
  tk_spawned :: "('a, 'b) spawned"
  tk_phase :: phase

type_synonym message = "pid \<times> reference \<times> res_val nif_result"

text \<open>
  \<open>rt_runtime\<close> is the \<open>OnceLock\<close> around the Tokio runtime (\<open>Some False\<close> when building it
  failed), \<open>rt_alive\<close> the live Erlang processes. The operation with index \<open>i\<close> is driven by
  the task with index \<open>i\<close>. \<open>rt_mailbox\<close> lists the messages sent, oldest first.
\<close>

record ('a, 'b) rt_state =
  rt_runtime :: "bool option"
  rt_alive :: "pid set"
  rt_operations :: "operation_resource list"
  rt_tasks :: "('a, 'b) task list"
  rt_active_operations :: usize
  rt_mailbox :: "message list"

definition runtime :: "bool \<Rightarrow> ('a, 'b, 'z) rt_state_scheme \<Rightarrow> unit nif_result \<times> ('a, 'b, 'z) rt_state_scheme" where
  "runtime builds w =
     (let ready = (case rt_runtime w of None \<Rightarrow> builds | Some ok \<Rightarrow> ok);
          w = w\<lparr>rt_runtime := Some ready\<rparr>
      in if ready then (Inr (), w)
         else (Inl (native_error At_internal At_native_smoke
                 ''managed native runtime could not be started''), w))"

section \<open>Starting operations\<close>

text \<open>
  The common tail of the three starters: the resource is monitored before, the counter is
  raised, and the block and its supervisor are spawned.
\<close>

definition spawn_operation ::
  "pid \<Rightarrow> reference \<Rightarrow> supervisor \<Rightarrow> ('a, 'b) future \<Rightarrow> ('a, 'b, 'z) rt_state_scheme
     \<Rightarrow> op_ix \<times> ('a, 'b, 'z) rt_state_scheme" where
  "spawn_operation caller operation_ref supervisor future w =
     (length (rt_operations w),
      w\<lparr>rt_operations := rt_operations w @ [OperationResource_new],
        rt_tasks := rt_tasks w @
          [\<lparr>tk_caller = caller, tk_ref = operation_ref, tk_supervisor = supervisor,
            tk_spawned = Sp_running future, tk_phase = Selecting\<rparr>],
        rt_active_operations := rt_active_operations w + 1\<rparr>)"

text \<open>
  \<open>start_endpoint_operation\<close>: on either early return the future has not been spawned and
  is dropped by the caller of this function.
\<close>

definition start_endpoint_operation ::
  "bool \<Rightarrow> pid \<Rightarrow> reference \<Rightarrow> atom \<Rightarrow> ('a, 'b) future \<Rightarrow> ('a, 'b, 'z) rt_state_scheme
     \<Rightarrow> op_ix nif_result \<times> ('a, 'b, 'z) rt_state_scheme" where
  "start_endpoint_operation builds caller operation_ref operation_name future w =
     (case runtime builds w of
        (Inl e, w) \<Rightarrow> (Inl e, w)
      | (Inr _, w) \<Rightarrow>
          if caller \<notin> rt_alive w
          then (Inl (native_error At_cancelled operation_name ''caller is no longer available''), w)
          else let (ix, w) = spawn_operation caller operation_ref (Sup_endpoint operation_name) future w
               in (Inr ix, w))"

definition operation_start ::
  "bool \<Rightarrow> pid \<Rightarrow> reference \<Rightarrow> atom \<Rightarrow> u64 \<Rightarrow> ('a, 'b, 'z) rt_state_scheme
     \<Rightarrow> op_ix nif_result \<times> ('a, 'b, 'z) rt_state_scheme" where
  "operation_start builds caller operation_ref kind delay_ms w =
     (case runtime builds w of
        (Inl e, w) \<Rightarrow> (Inl e, w)
      | (Inr _, w) \<Rightarrow>
          if kind \<noteq> At_ok \<and> kind \<noteq> At_error \<and> kind \<noteq> At_panic_outcome
          then (Inl (native_error At_native_failure At_native_smoke ''unsupported smoke outcome''), w)
          else if caller \<notin> rt_alive w
          then (Inl (native_error At_cancelled At_native_smoke ''caller is no longer available''), w)
          else let (ix, w) = spawn_operation caller operation_ref (Sup_smoke kind) (Fut_sleep delay_ms) w
               in (Inr ix, w))"

definition operation_cancel ::
  "op_ix \<Rightarrow> ('a, 'b, 'z) rt_state_scheme \<Rightarrow> bool \<times> ('a, 'b, 'z) rt_state_scheme" where
  "operation_cancel ix w =
     (let (won, self) = OperationResource_cancel (rt_operations w ! ix)
      in (won, w\<lparr>rt_operations := (rt_operations w)[ix := self]\<rparr>))"

definition operation_snapshot :: "('a, 'b, 'z) rt_state_scheme \<Rightarrow> usize" where
  "operation_snapshot w = rt_active_operations w"

section \<open>The supervisor\<close>

text \<open>The smoke result, computed under the guard after a won exchange.\<close>

definition smoke_result :: "atom \<Rightarrow> res_val nif_result" where
  "smoke_result kind =
     guarded
       (Returned
         (if kind = At_panic_outcome
          then Inl (native_error At_internal At_native_smoke ''native operation failed internally'')
          else if kind = At_error
          then Inl (native_error At_native_failure At_native_smoke ''native smoke failure'')
          else Inr (R_atom At_completed)))
       (native_error At_internal At_native_smoke ''native operation failed internally'')"

text \<open>The message of \<open>start_endpoint_operation\<close> for each outcome of its \<open>select!\<close>.\<close>

definition endpoint_operation_result :: "atom \<Rightarrow> joined option \<Rightarrow> res_val nif_result" where
  "endpoint_operation_result operation_name result =
     (case result of
        Some (Join_result r) \<Rightarrow> r
      | Some _ \<Rightarrow> Inl (native_error At_internal operation_name ''endpoint operation failed internally'')
      | None \<Rightarrow> Inl (native_error At_cancelled operation_name ''operation was cancelled''))"

definition set_task ::
  "op_ix \<Rightarrow> (('a, 'b) task \<Rightarrow> ('a, 'b) task) \<Rightarrow> ('a, 'b, 'z) rt_state_scheme \<Rightarrow> ('a, 'b, 'z) rt_state_scheme" where
  "set_task ix f w = w\<lparr>rt_tasks := (rt_tasks w)[ix := f (rt_tasks w ! ix)]\<rparr>"

text \<open>First branch of the \<open>select!\<close>: the block has finished.\<close>

definition select_result ::
  "op_ix \<Rightarrow> ('a, 'b, 'z) rt_state_scheme \<Rightarrow> ('a, 'b, 'z) rt_state_scheme option" where
  "select_result ix w =
     (case (tk_phase (rt_tasks w ! ix), tk_spawned (rt_tasks w ! ix)) of
        (Selecting, Sp_finished j) \<Rightarrow>
          Some (set_task ix (\<lambda>t. t\<lparr>tk_spawned := Sp_joined, tk_phase := Selected (Some j)\<rparr>) w)
      | _ \<Rightarrow> None)"

text \<open>
  Second branch: the permit is consumed and the block is aborted and awaited; what it
  owned is returned to be dropped.
\<close>

definition select_cancelled ::
  "op_ix \<Rightarrow> ('a, 'b, 'z) rt_state_scheme \<Rightarrow> (('a, 'b) spawned \<times> ('a, 'b, 'z) rt_state_scheme) option" where
  "select_cancelled ix w =
     (if tk_phase (rt_tasks w ! ix) = Selecting \<and> op_cancelled (rt_operations w ! ix)
      then Some (tk_spawned (rt_tasks w ! ix),
             (set_task ix (\<lambda>t. t\<lparr>tk_spawned := Sp_joined, tk_phase := Selected None\<rparr>) w)
               \<lparr>rt_operations :=
                  (rt_operations w)[ix := (rt_operations w ! ix)\<lparr>op_cancelled := False\<rparr>]\<rparr>)
      else None)"

text \<open>
  The exchange of the two supervisors that build their message without side effects;
  the supervisor of \<open>endpoint_bind_start\<close> has its own.
\<close>

definition should_complete ::
  "op_ix \<Rightarrow> ('a, 'b, 'z) rt_state_scheme \<Rightarrow> bool \<times> ('a, 'b, 'z) rt_state_scheme" where
  "should_complete ix w =
     (let (won, self) = operation_complete (rt_operations w ! ix)
      in (won, w\<lparr>rt_operations := (rt_operations w)[ix := self]\<rparr>))"

definition supervisor_complete ::
  "op_ix \<Rightarrow> ('a, 'b, 'z) rt_state_scheme \<Rightarrow> ('a, 'b, 'z) rt_state_scheme option" where
  "supervisor_complete ix w =
     (case (tk_supervisor (rt_tasks w ! ix), tk_phase (rt_tasks w ! ix)) of
        (Sup_smoke kind, Selected result) \<Rightarrow>
          (case should_complete ix w of
             (True, w) \<Rightarrow> Some (set_task ix (tk_phase_update (\<lambda>_. Sending (smoke_result kind))) w)
           | (False, w) \<Rightarrow> Some (set_task ix (tk_phase_update (\<lambda>_. Finishing result)) w))
      | (Sup_endpoint operation_name, Selected result) \<Rightarrow>
          (case should_complete ix w of
             (True, w) \<Rightarrow> Some (set_task ix (tk_phase_update
                 (\<lambda>_. Sending (endpoint_operation_result operation_name result))) w)
           | (False, w) \<Rightarrow> Some (set_task ix (tk_phase_update (\<lambda>_. Finishing result)) w))
      | _ \<Rightarrow> None)"

text \<open>
  \<open>send_operation_result\<close>: a message to a dead process is not delivered and its payload is
  dropped with the task.
\<close>

definition send_operation_result ::
  "op_ix \<Rightarrow> ('a, 'b, 'z) rt_state_scheme \<Rightarrow> ('a, 'b, 'z) rt_state_scheme option" where
  "send_operation_result ix w =
     (let t = rt_tasks w ! ix
      in case tk_phase t of
           Sending result \<Rightarrow>
             Some (if tk_caller t \<in> rt_alive w
                   then (set_task ix (\<lambda>t. t\<lparr>tk_phase := Finishing None\<rparr>) w)
                          \<lparr>rt_mailbox := rt_mailbox w @ [(tk_caller t, tk_ref t, result)]\<rparr>
                   else set_task ix (\<lambda>t. t\<lparr>tk_phase := Finishing (Some (Join_result result))\<rparr>) w)
         | _ \<Rightarrow> None)"

text \<open>The last lines of the block: demonitor and \<open>ACTIVE_OPERATIONS.fetch_sub\<close>.\<close>

definition supervisor_finish ::
  "op_ix \<Rightarrow> ('a, 'b, 'z) rt_state_scheme \<Rightarrow> (joined option \<times> ('a, 'b, 'z) rt_state_scheme) option" where
  "supervisor_finish ix w =
     (case tk_phase (rt_tasks w ! ix) of
        Finishing rest \<Rightarrow>
          Some (rest, (set_task ix (\<lambda>t. t\<lparr>tk_phase := Terminated\<rparr>) w)
                        \<lparr>rt_active_operations := rt_active_operations w - 1\<rparr>)
      | _ \<Rightarrow> None)"

end
