(* ===== verification/Relay_Url.thy ===== *)
theory Relay_Url
  imports Native
begin

text \<open>
  Relay URLs. \<open>RelayUrl\<close> and its accessors belong to Iroh, so they are a parameter of the
  model; the crate's own rule for the URLs it accepts, written out both in
  \<^verbatim>\<open>identity.rs\<close> and in \<^verbatim>\<open>endpoint.rs\<close>, is \<open>relay_url_accepted\<close>.
\<close>

record 'url relay_url_api =
  url_from_str :: "string \<Rightarrow> 'url option"
  url_scheme :: "'url \<Rightarrow> string"
  url_host_str :: "'url \<Rightarrow> string option"
  url_username :: "'url \<Rightarrow> string"
  url_password :: "'url \<Rightarrow> string option"
  url_query :: "'url \<Rightarrow> string option"
  url_fragment :: "'url \<Rightarrow> string option"

definition relay_url_accepted :: "('url, 'z) relay_url_api_scheme \<Rightarrow> 'url \<Rightarrow> bool" where
  "relay_url_accepted api url \<longleftrightarrow>
     \<not> (url_scheme api url \<notin> {''http'', ''https''}
        \<or> url_host_str api url = None
        \<or> url_username api url \<noteq> []
        \<or> url_password api url \<noteq> None
        \<or> url_query api url \<noteq> None
        \<or> url_fragment api url \<noteq> None)"

text \<open>A concrete URL library for worked instances: every text is an HTTPS URL of that host.\<close>

definition https_url_api :: "string relay_url_api" where
  "https_url_api =
     \<lparr>url_from_str = Some, url_scheme = (\<lambda>_. ''https''), url_host_str = Some,
      url_username = (\<lambda>_. []), url_password = (\<lambda>_. None), url_query = (\<lambda>_. None),
      url_fragment = (\<lambda>_. None)\<rparr>"

end
