(* ===== verification/Endpoint_Config.thy ===== *)
theory Endpoint_Config
  imports Relay_Url Profile Rust_Net
begin

text \<open>
  Validation of the endpoint options and construction of the Iroh endpoint builder:
  \<open>parse_config\<close> and \<open>endpoint_builder\<close> of \<^verbatim>\<open>native/iroh_beam_nif/src/endpoint.rs\<close>. The
  builder belongs to Iroh; the model records the calls the crate makes on it, in order.
\<close>

section \<open>Options and configuration\<close>

definition MAX_ALPNS :: nat where
  "MAX_ALPNS = 16"

definition MAX_ALPN_BYTES :: nat where
  "MAX_ALPN_BYTES = 255"

definition MAX_BIND_ADDRS :: nat where
  "MAX_BIND_ADDRS = 8"

definition MAX_RELAYS :: nat where
  "MAX_RELAYS = 8"

definition MAX_TOKEN_BYTES :: nat where
  "MAX_TOKEN_BYTES = 4 * 1024"

record native_relay =
  nr_url :: string
  nr_token :: "string option"

record native_endpoint_options =
  opt_profile :: atom
  opt_alpns :: "string list"
  opt_bind_addrs :: "string list"
  opt_relays :: "native_relay list"
  opt_max_connections :: usize
  opt_max_pending_accepts :: usize
  opt_direct_ip :: bool

text \<open>\<open>RelayConfig::from(url)\<close>, possibly followed by \<open>with_auth_token\<close>.\<close>

datatype 'url relay_config = RelayConfig (relay_config_url: 'url) (relay_config_token: "string option")

record 'url bind_config =
  cfg_profile :: ProfileKind
  cfg_alpns :: "bytes list"
  cfg_bind_addrs :: "socket_addr list"
  cfg_relay_map :: "'url relay_config list option"
  cfg_direct_ip :: bool

definition endpoint_error :: "atom \<Rightarrow> atom \<Rightarrow> string \<Rightarrow> NativeError" where
  "endpoint_error category operation message = native_error category operation message"

abbreviation config_error :: "string \<Rightarrow> NativeError" where
  "config_error message \<equiv> endpoint_error At_invalid_argument At_endpoint_bind message"

section \<open>Validation\<close>

definition alpn_invalid :: "string \<Rightarrow> bool" where
  "alpn_invalid alpn \<longleftrightarrow> alpn = [] \<or> length alpn > MAX_ALPN_BYTES \<or> 0 \<in> set (as_bytes alpn)"

definition token_invalid :: "string \<Rightarrow> bool" where
  "token_invalid token \<longleftrightarrow>
     token = [] \<or> length token > MAX_TOKEN_BYTES \<or> CHR 0x0D \<in> set token \<or> CHR 0x0A \<in> set token"

definition profile_of_atom :: "atom \<Rightarrow> ProfileKind nif_result" where
  "profile_of_atom profile =
     (if profile = At_n0 then Inr N0
      else if profile = At_direct then Inr Direct
      else if profile = At_no_relay then Inr NoRelay
      else if profile = At_custom then Inr Custom
      else Inl (config_error ''network profile is invalid''))"

text \<open>One round of the loop over the custom relays.\<close>

definition parse_relay ::
  "('url, 'z) relay_url_api_scheme \<Rightarrow> native_relay \<Rightarrow> 'url relay_config nif_result" where
  "parse_relay api relay =
     (case url_from_str api (nr_url relay) of
        None \<Rightarrow> Inl (config_error ''custom relay URL is invalid'')
      | Some url \<Rightarrow>
          if \<not> relay_url_accepted api url
          then Inl (config_error ''custom relay URL must be HTTP(S) without credentials'')
          else (case nr_token relay of
                  None \<Rightarrow> Inr (RelayConfig url None)
                | Some token \<Rightarrow>
                    if token_invalid token
                    then Inl (config_error ''custom relay token is invalid'')
                    else Inr (RelayConfig url (Some token))))"

definition parse_relay_map ::
  "('url, 'z) relay_url_api_scheme \<Rightarrow> ProfileKind \<Rightarrow> native_relay list
     \<Rightarrow> 'url relay_config list option nif_result" where
  "parse_relay_map api profile relays =
     (if profile = Custom
      then if relays = [] \<or> length relays > MAX_RELAYS
           then Inl (config_error ''custom profile requires one to eight relays'')
           else map_result Some (collect_results (parse_relay api) relays)
      else if relays \<noteq> []
           then Inl (config_error ''relay records require the custom profile'')
           else Inr None)"

definition parse_bind_addr :: "string \<Rightarrow> socket_addr nif_result" where
  "parse_bind_addr text = ok_or (socket_addr_from_str text) (config_error ''bind address is invalid'')"

definition parse_config ::
  "('url, 'z) relay_url_api_scheme \<Rightarrow> atom \<Rightarrow> string list \<Rightarrow> string list \<Rightarrow> native_relay list
     \<Rightarrow> bool \<Rightarrow> 'url bind_config nif_result" where
  "parse_config api profile alpns bind_addrs relays direct_ip =
     (if alpns = [] \<or> length alpns > MAX_ALPNS
      then Inl (config_error ''at least one bounded ALPN is required'')
      else if \<exists>alpn\<in>set alpns. alpn_invalid alpn
      then Inl (config_error ''ALPN values must contain 1 to 255 non-NUL bytes'')
      else if any_repeated {} alpns
      then Inl (config_error ''ALPN values must be unique'')
      else if length bind_addrs > MAX_BIND_ADDRS
      then Inl (config_error ''too many bind addresses'')
      else bind_result (collect_results parse_bind_addr bind_addrs) (\<lambda>bind_addrs.
        if any_repeated {} (map is_ipv4 bind_addrs)
        then Inl (config_error ''only one bind address per IP family is supported'')
        else bind_result (profile_of_atom profile) (\<lambda>profile.
          bind_result (parse_relay_map api profile relays) (\<lambda>relay_map.
            if \<not> direct_ip \<and> bind_addrs \<noteq> []
            then Inl (config_error ''bind addresses require direct IP transports'')
            else Inr \<lparr>cfg_profile = profile, cfg_alpns = map as_bytes alpns,
                       cfg_bind_addrs = bind_addrs, cfg_relay_map = relay_map,
                       cfg_direct_ip = direct_ip\<rparr>))))"

section \<open>The builder\<close>

datatype preset = Preset_N0 | Preset_Minimal | Preset_N0DisableRelay

datatype 'url relay_mode = RelayMode_Disabled | RelayMode_Custom "'url relay_config list"

datatype ('key, 'url) builder_call =
    Preset preset
  | Relay_mode "'url relay_mode"
  | Clear_address_lookup
  | Secret_key 'key
  | Alpns "bytes list"
  | Clear_ip_transports
  | Bind_addr socket_addr

type_synonym ('key, 'url) builder = "('key, 'url) builder_call list"

text \<open>
  \<open>bind_addr_ok\<close> is Iroh's verdict on adding a bind address to a builder; the loop stops at
  the first refusal.
\<close>

fun bind_all ::
  "(('key, 'url) builder \<Rightarrow> socket_addr \<Rightarrow> bool) \<Rightarrow> ('key, 'url) builder \<Rightarrow> socket_addr list
     \<Rightarrow> ('key, 'url) builder nif_result" where
  "bind_all bind_addr_ok builder [] = Inr builder"
| "bind_all bind_addr_ok builder (addr # addrs) =
     (if bind_addr_ok builder addr
      then bind_all bind_addr_ok (builder @ [Bind_addr addr]) addrs
      else Inl (config_error ''bind address configuration is invalid''))"

definition profile_builder :: "'url bind_config \<Rightarrow> ('key, 'url) builder nif_result" where
  "profile_builder config =
     (case cfg_profile config of
        N0 \<Rightarrow> Inr [Preset Preset_N0]
      | Direct \<Rightarrow> Inr [Preset Preset_Minimal, Relay_mode RelayMode_Disabled, Clear_address_lookup]
      | NoRelay \<Rightarrow> Inr [Preset Preset_N0DisableRelay]
      | Custom \<Rightarrow>
          bind_result
            (ok_or (cfg_relay_map config)
              (endpoint_error At_internal At_endpoint_bind ''custom relay configuration is unavailable''))
            (\<lambda>relay_map. Inr [Preset Preset_Minimal, Relay_mode (RelayMode_Custom relay_map),
                               Clear_address_lookup]))"

definition endpoint_builder ::
  "(('key, 'url) builder \<Rightarrow> socket_addr \<Rightarrow> bool) \<Rightarrow> 'url bind_config \<Rightarrow> 'key
     \<Rightarrow> ('key, 'url) builder nif_result" where
  "endpoint_builder bind_addr_ok config secret_key =
     bind_result (profile_builder config) (\<lambda>calls.
       let builder = calls @ [Secret_key secret_key, Alpns (cfg_alpns config)]
       in if \<not> cfg_direct_ip config then Inr (builder @ [Clear_ip_transports])
          else if cfg_bind_addrs config \<noteq> []
          then bind_all bind_addr_ok (builder @ [Clear_ip_transports]) (cfg_bind_addrs config)
          else Inr builder)"

section \<open>What validation accepts\<close>

lemma alpn_valid_iff:
  "\<not> alpn_invalid alpn \<longleftrightarrow> 1 \<le> length alpn \<and> length alpn \<le> 255 \<and> CHR 0x00 \<notin> set alpn"
proof -
  have "0 \<in> set (as_bytes alpn) \<longleftrightarrow> CHR 0x00 \<in> set alpn"
    using of_char_word_0 by (force simp: as_bytes_def image_iff)
  then show ?thesis
    by (cases alpn) (auto simp: alpn_invalid_def MAX_ALPN_BYTES_def not_less)
qed

lemma profile_of_atom_iff: "profile_of_atom a = Inr p \<longleftrightarrow> a = ProfileKind_atom p"
  by (cases p) (auto simp: profile_of_atom_def)

lemma token_valid_iff:
  "\<not> token_invalid token \<longleftrightarrow>
     1 \<le> length token \<and> length token \<le> 4096 \<and> CHR 0x0D \<notin> set token \<and> CHR 0x0A \<notin> set token"
  by (cases token) (auto simp: token_invalid_def MAX_TOKEN_BYTES_def not_less)

lemma parse_relay_ok_iff:
  "parse_relay api r = Inr c \<longleftrightarrow>
     url_from_str api (nr_url r) = Some (relay_config_url c)
     \<and> url_scheme api (relay_config_url c) \<in> {''http'', ''https''}
     \<and> url_host_str api (relay_config_url c) \<noteq> None
     \<and> url_username api (relay_config_url c) = []
     \<and> url_password api (relay_config_url c) = None
     \<and> url_query api (relay_config_url c) = None
     \<and> url_fragment api (relay_config_url c) = None
     \<and> relay_config_token c = nr_token r
     \<and> (\<forall>t. nr_token r = Some t \<longrightarrow>
          1 \<le> length t \<and> length t \<le> 4096 \<and> CHR 0x0D \<notin> set t \<and> CHR 0x0A \<notin> set t)"
  unfolding token_valid_iff [symmetric]
  by (cases c) (auto simp: parse_relay_def relay_url_accepted_def split: option.splits)

lemma parse_relay_map_ok_iff:
  "parse_relay_map api p relays = Inr m \<longleftrightarrow>
     (case m of
        None \<Rightarrow> p \<noteq> Custom \<and> relays = []
      | Some cs \<Rightarrow> p = Custom \<and> 1 \<le> length relays \<and> length relays \<le> 8
                   \<and> list_all2 (\<lambda>r c. parse_relay api r = Inr c) relays cs)"
  by (cases "collect_results (parse_relay api) relays")
     (auto simp: parse_relay_map_def MAX_RELAYS_def collect_results_Inr_iff not_less Suc_le_eq
        split: option.splits simp flip: collect_results_Inr_iff)

lemma parse_bind_addr_ok_iff: "parse_bind_addr t = Inr a \<longleftrightarrow> socket_addr_from_str t = Some a"
  by (simp add: parse_bind_addr_def)


section \<open>Refusals and the builder\<close>

text \<open>Every text a refusal can carry; none is built from the options.\<close>

definition config_messages :: "string set" where
  "config_messages =
     {''at least one bounded ALPN is required'', ''ALPN values must contain 1 to 255 non-NUL bytes'',
      ''ALPN values must be unique'', ''too many bind addresses'', ''bind address is invalid'',
      ''only one bind address per IP family is supported'', ''network profile is invalid'',
      ''custom profile requires one to eight relays'', ''custom relay URL is invalid'',
      ''custom relay URL must be HTTP(S) without credentials'', ''custom relay token is invalid'',
      ''relay records require the custom profile'', ''bind addresses require direct IP transports''}"

lemma parse_relay_error: "parse_relay api r = Inl e \<Longrightarrow> \<exists>m\<in>config_messages. e = config_error m"
  by (auto simp: parse_relay_def config_messages_def split: option.splits if_splits)

lemma parse_relay_map_error:
  "parse_relay_map api p relays = Inl e \<Longrightarrow> \<exists>m\<in>config_messages. e = config_error m"
  by (auto simp: parse_relay_map_def map_result_def collect_results_Inl_iff split: if_splits sum.splits
      dest: parse_relay_error)
     (auto simp: config_messages_def)

lemma parse_config_error_messages:
  "parse_config api profile alpns binds relays direct_ip = Inl e
     \<Longrightarrow> \<exists>m\<in>config_messages. e = config_error m"
  by (auto simp: parse_config_def bind_result_Inl_iff collect_results_Inl_iff parse_bind_addr_def
        ok_or_def profile_of_atom_def split: if_splits option.splits dest: parse_relay_map_error)
     (auto simp: config_messages_def)

text \<open>What the builder needs to know about a parsed configuration.\<close>

lemma parse_config_shape:
  assumes "parse_config api profile alpns binds relays direct_ip = Inr cfg"
  shows "profile = ProfileKind_atom (cfg_profile cfg)"
    and "cfg_profile cfg = Custom \<longleftrightarrow> cfg_relay_map cfg \<noteq> None"
    and "\<not> cfg_direct_ip cfg \<Longrightarrow> cfg_bind_addrs cfg = []"
  using assms
  by (auto simp: parse_config_def bind_result_Inr_iff profile_of_atom_iff parse_relay_map_ok_iff
      split: if_splits option.splits)

lemma parse_config_fields:
  assumes "parse_config api profile alpns binds relays direct_ip = Inr cfg"
  shows "cfg_alpns cfg = map as_bytes alpns" and "cfg_direct_ip cfg = direct_ip"
    and "cfg_bind_addrs cfg = [] \<longleftrightarrow> binds = []" and "direct_ip \<or> binds = []"
  using assms
  by (auto simp: parse_config_def bind_result_Inr_iff collect_results_Inr_iff split: if_splits
      dest: list_all2_lengthD)

lemma bind_all_verdicts:
  "bind_all ok b addrs =
     (if \<forall>i < length addrs. ok (b @ map Bind_addr (take i addrs)) (addrs ! i)
      then Inr (b @ map Bind_addr addrs)
      else Inl (config_error ''bind address configuration is invalid''))"
  by (induction ok b addrs rule: bind_all.induct) (simp_all add: All_less_Suc2)

lemma bind_all_Inr: "bind_all ok b addrs = Inr b' \<Longrightarrow> b' = b @ map Bind_addr addrs"
  by (simp add: bind_all_verdicts split: if_splits)

lemma endpoint_builder_Inr:
  assumes "endpoint_builder ok cfg key = Inr b"
  obtains calls where "profile_builder cfg = Inr calls"
    and "b = calls @ [Secret_key key, Alpns (cfg_alpns cfg)]
           @ (if \<not> cfg_direct_ip cfg \<or> cfg_bind_addrs cfg \<noteq> [] then [Clear_ip_transports] else [])
           @ (if cfg_direct_ip cfg then map Bind_addr (cfg_bind_addrs cfg) else [])"
  using assms
  by (auto simp: endpoint_builder_def bind_result_Inr_iff Let_def split: if_splits dest!: bind_all_Inr)

section \<open>What the calls on a builder amount to\<close>

text \<open>
  Iroh's builder is not part of the crate. \<open>builder_api\<close> is the effect of a call on it and
  what an endpoint built from it has: the relay mode, address lookup, the secret key, the
  ALPNs, and the IP transports (\<open>None\<close> for the default ones). \<open>builder_documented\<close> is what
  Iroh documents about them: a call replaces the setting it names, a bind address is added to
  the explicit ones, every other setting stays; \<open>presets::N0\<close> has relays and address lookup,
  \<open>presets::N0DisableRelay\<close> address lookup only. Nothing is said about \<open>presets::Minimal\<close>.
\<close>

record ('s, 'key, 'url) builder_api =
  b_call :: "('key, 'url) builder_call \<Rightarrow> 's \<Rightarrow> 's"
  b_preset_relay_mode :: "preset \<Rightarrow> 'url relay_mode"
  b_preset_lookup :: "preset \<Rightarrow> bool"
  b_relay_mode :: "'s \<Rightarrow> 'url relay_mode"
  b_address_lookup :: "'s \<Rightarrow> bool"
  b_secret_key :: "'s \<Rightarrow> 'key option"
  b_alpns :: "'s \<Rightarrow> bytes list"
  b_ip_transports :: "'s \<Rightarrow> socket_addr list option"

definition builder_documented :: "('s, 'key, 'url) builder_api \<Rightarrow> bool" where
  "builder_documented api \<longleftrightarrow>
     b_preset_relay_mode api Preset_N0 \<noteq> RelayMode_Disabled \<and> b_preset_lookup api Preset_N0
     \<and> b_preset_relay_mode api Preset_N0DisableRelay = RelayMode_Disabled
     \<and> b_preset_lookup api Preset_N0DisableRelay
     \<and> (\<forall>c s. b_relay_mode api (b_call api c s) =
          (case c of Preset p \<Rightarrow> b_preset_relay_mode api p | Relay_mode m \<Rightarrow> m | _ \<Rightarrow> b_relay_mode api s))
     \<and> (\<forall>c s. b_address_lookup api (b_call api c s) =
          (case c of Preset p \<Rightarrow> b_preset_lookup api p | Clear_address_lookup \<Rightarrow> False
           | _ \<Rightarrow> b_address_lookup api s))
     \<and> (\<forall>c s. b_secret_key api (b_call api c s) =
          (case c of Preset _ \<Rightarrow> None | Secret_key k \<Rightarrow> Some k | _ \<Rightarrow> b_secret_key api s))
     \<and> (\<forall>c s. b_alpns api (b_call api c s) =
          (case c of Preset _ \<Rightarrow> [] | Alpns a \<Rightarrow> a | _ \<Rightarrow> b_alpns api s))
     \<and> (\<forall>c s. (\<forall>a. c \<noteq> Bind_addr a) \<longrightarrow> b_ip_transports api (b_call api c s) =
          (case c of Preset _ \<Rightarrow> None | Clear_ip_transports \<Rightarrow> Some [] | _ \<Rightarrow> b_ip_transports api s))
     \<and> (\<forall>a s addrs. b_ip_transports api s = Some addrs \<longrightarrow>
          b_ip_transports api (b_call api (Bind_addr a) s) = Some (addrs @ [a]))"

text \<open>A builder that meets the documentation, for worked instances.\<close>

record builder_settings =
  bs_relay_mode :: "string relay_mode"
  bs_lookup :: bool
  bs_key :: "nat option"
  bs_alpns :: "bytes list"
  bs_ip :: "socket_addr list option"

definition demo_relay_mode :: "preset \<Rightarrow> string relay_mode" where
  "demo_relay_mode p =
     (if p = Preset_N0 then RelayMode_Custom [RelayConfig ''relay.n0'' None] else RelayMode_Disabled)"

definition demo_lookup :: "preset \<Rightarrow> bool" where
  "demo_lookup p \<longleftrightarrow> p \<noteq> Preset_Minimal"

fun demo_call :: "(nat, string) builder_call \<Rightarrow> builder_settings \<Rightarrow> builder_settings" where
  "demo_call (Preset p) _ =
     \<lparr>bs_relay_mode = demo_relay_mode p, bs_lookup = demo_lookup p, bs_key = None, bs_alpns = [], bs_ip = None\<rparr>"
| "demo_call (Relay_mode m) s = s\<lparr>bs_relay_mode := m\<rparr>"
| "demo_call Clear_address_lookup s = s\<lparr>bs_lookup := False\<rparr>"
| "demo_call (Secret_key k) s = s\<lparr>bs_key := Some k\<rparr>"
| "demo_call (Alpns a) s = s\<lparr>bs_alpns := a\<rparr>"
| "demo_call Clear_ip_transports s = s\<lparr>bs_ip := Some []\<rparr>"
| "demo_call (Bind_addr a) s = s\<lparr>bs_ip := map_option (\<lambda>addrs. addrs @ [a]) (bs_ip s)\<rparr>"

definition demo_builder_api :: "(builder_settings, nat, string) builder_api" where
  "demo_builder_api =
     \<lparr>b_call = demo_call, b_preset_relay_mode = demo_relay_mode, b_preset_lookup = demo_lookup,
      b_relay_mode = bs_relay_mode, b_address_lookup = bs_lookup, b_secret_key = bs_key,
      b_alpns = bs_alpns, b_ip_transports = bs_ip\<rparr>"

lemma demo_builder_documented: "builder_documented demo_builder_api"
  by (auto simp: builder_documented_def demo_builder_api_def demo_relay_mode_def demo_lookup_def
      split: builder_call.split)

lemma builder_documented_presets:
  assumes "builder_documented api"
  shows "b_preset_relay_mode api Preset_N0 \<noteq> RelayMode_Disabled" "b_preset_lookup api Preset_N0"
    "b_preset_relay_mode api Preset_N0DisableRelay = RelayMode_Disabled"
    "b_preset_lookup api Preset_N0DisableRelay"
  using assms by (simp_all add: builder_documented_def)

lemma builder_documented_calls:
  assumes "builder_documented api"
  shows "b_relay_mode api (b_call api (Preset p) s) = b_preset_relay_mode api p"
    "b_relay_mode api (b_call api (Relay_mode m) s) = m"
    "b_relay_mode api (b_call api Clear_address_lookup s) = b_relay_mode api s"
    "b_address_lookup api (b_call api (Preset p) s) = b_preset_lookup api p"
    "b_address_lookup api (b_call api Clear_address_lookup s) = False"
    "b_ip_transports api (b_call api (Preset p) s) = None"
    "b_ip_transports api (b_call api (Relay_mode m) s) = b_ip_transports api s"
    "b_ip_transports api (b_call api Clear_address_lookup s) = b_ip_transports api s"
    "b_relay_mode api (b_call api (Secret_key k) s) = b_relay_mode api s"
    "b_relay_mode api (b_call api (Alpns a) s) = b_relay_mode api s"
    "b_relay_mode api (b_call api Clear_ip_transports s) = b_relay_mode api s"
    "b_address_lookup api (b_call api (Secret_key k) s) = b_address_lookup api s"
    "b_address_lookup api (b_call api (Alpns a) s) = b_address_lookup api s"
    "b_address_lookup api (b_call api Clear_ip_transports s) = b_address_lookup api s"
    "b_secret_key api (b_call api (Secret_key k) s) = Some k"
    "b_secret_key api (b_call api (Alpns a) s) = b_secret_key api s"
    "b_secret_key api (b_call api Clear_ip_transports s) = b_secret_key api s"
    "b_alpns api (b_call api (Alpns a) s) = a"
    "b_alpns api (b_call api Clear_ip_transports s) = b_alpns api s"
    "b_ip_transports api (b_call api (Secret_key k) s) = b_ip_transports api s"
    "b_ip_transports api (b_call api (Alpns a) s) = b_ip_transports api s"
    "b_ip_transports api (b_call api Clear_ip_transports s) = Some []"
  using assms by (simp_all add: builder_documented_def)

lemma fold_bind_addr:
  assumes "builder_documented api"
  shows "b_relay_mode api (fold (b_call api) (map Bind_addr addrs) s) = b_relay_mode api s"
    and "b_address_lookup api (fold (b_call api) (map Bind_addr addrs) s) = b_address_lookup api s"
    and "b_secret_key api (fold (b_call api) (map Bind_addr addrs) s) = b_secret_key api s"
    and "b_alpns api (fold (b_call api) (map Bind_addr addrs) s) = b_alpns api s"
  using assms by (induction addrs arbitrary: s) (simp_all add: builder_documented_def)

lemma fold_bind_addr_transports:
  assumes "builder_documented api" and "b_ip_transports api s = Some before"
  shows "b_ip_transports api (fold (b_call api) (map Bind_addr addrs) s) = Some (before @ addrs)"
  using assms(2)
proof (induction addrs arbitrary: s before)
  case (Cons a addrs)
  have "b_ip_transports api (b_call api (Bind_addr a) s) = Some (before @ [a])"
    using assms(1) Cons.prems by (simp add: builder_documented_def)
  from Cons.IH [OF this] show ?case by simp
qed simp

section \<open>Properties\<close>

text \<open>
  C15. \<open>parse_config\<close> accepts exactly the documented options. It succeeds if and only if
  there are 1 to 16 distinct ALPNs of 1 to 255 non-NUL bytes, at most 8 bind addresses that
  all parse, at most one per IP family and only with direct IP transports, a known
  profile, and 1 to 8 relays exactly for the custom profile, each an HTTP or HTTPS URL with
  a host and without user name, password, query or fragment, and with a token, if it has
  one, of 1 to 4096 bytes without carriage return or line feed; the configuration then
  holds those values and nothing else.
\<close>

theorem parse_config_ok_iff:
  "parse_config api profile alpns binds relays direct_ip = Inr cfg \<longleftrightarrow>
     1 \<le> length alpns \<and> length alpns \<le> 16 \<and> distinct alpns
     \<and> (\<forall>a\<in>set alpns. 1 \<le> length a \<and> length a \<le> 255 \<and> CHR 0x00 \<notin> set a)
     \<and> length binds \<le> 8
     \<and> list_all2 (\<lambda>t a. socket_addr_from_str t = Some a) binds (cfg_bind_addrs cfg)
     \<and> distinct (map is_ipv4 (cfg_bind_addrs cfg))
     \<and> (direct_ip \<or> binds = [])
     \<and> profile = ProfileKind_atom (cfg_profile cfg)
     \<and> cfg_alpns cfg = map as_bytes alpns
     \<and> cfg_direct_ip cfg = direct_ip
     \<and> (case cfg_relay_map cfg of
          None \<Rightarrow> cfg_profile cfg \<noteq> Custom \<and> relays = []
        | Some cs \<Rightarrow>
            cfg_profile cfg = Custom \<and> 1 \<le> length relays \<and> length relays \<le> 8
            \<and> list_all2 (\<lambda>r c. url_from_str api (nr_url r) = Some (relay_config_url c)
                 \<and> url_scheme api (relay_config_url c) \<in> {''http'', ''https''}
                 \<and> url_host_str api (relay_config_url c) \<noteq> None
                 \<and> url_username api (relay_config_url c) = []
                 \<and> url_password api (relay_config_url c) = None
                 \<and> url_query api (relay_config_url c) = None
                 \<and> url_fragment api (relay_config_url c) = None
                 \<and> relay_config_token c = nr_token r
                 \<and> (\<forall>t. nr_token r = Some t \<longrightarrow>
                      1 \<le> length t \<and> length t \<le> 4096 \<and> CHR 0x0D \<notin> set t \<and> CHR 0x0A \<notin> set t))
                relays cs)"
  (is "?parse = Inr cfg \<longleftrightarrow> ?conds")
proof -
  have alpns: "(\<exists>a\<in>set alpns. alpn_invalid a)
      \<longleftrightarrow> \<not> (\<forall>a\<in>set alpns. 1 \<le> length a \<and> length a \<le> 255 \<and> CHR 0x00 \<notin> set a)"
    using alpn_valid_iff by blast
  have binds: "bs = [] \<longleftrightarrow> binds = []" if "list_all2 (\<lambda>t a. socket_addr_from_str t = Some a) binds bs" for bs
    using that by (auto dest: list_all2_lengthD)
  show ?thesis
    unfolding parse_config_def alpns
    by (cases cfg)
       (auto simp: bind_result_Inr_iff collect_results_Inr_iff parse_bind_addr_ok_iff
          profile_of_atom_iff parse_relay_map_ok_iff [unfolded parse_relay_ok_iff] MAX_ALPNS_def
          MAX_BIND_ADDRS_def not_less Suc_le_eq binds split: option.splits)
qed

theorem parse_config_ok_witness:
  "parse_config https_url_api At_custom [''my-app/1''] [''127.0.0.1:0'']
       [\<lparr>nr_url = ''relay.example'', nr_token = Some ''secret''\<rparr>] True
     = Inr \<lparr>cfg_profile = Custom, cfg_alpns = [as_bytes ''my-app/1''],
            cfg_bind_addrs = [V4 [127, 0, 0, 1] 0],
            cfg_relay_map = Some [RelayConfig ''relay.example'' (Some ''secret'')],
            cfg_direct_ip = True\<rparr>"
  by (rule parse_config_ok_iff [THEN iffD2])
     (simp add: socket_parser_defs https_url_api_def)

text \<open>
  C24. A refusal by \<open>parse_config\<close> discloses nothing about the options: its category, its
  operation and its text come from a fixed list, and its context is empty, so no relay
  token, URL or address reaches an error.
\<close>

theorem parse_config_refusal_static:
  assumes "parse_config api profile alpns binds relays direct_ip = Inl e"
  shows "err_category e = At_invalid_argument \<and> err_operation e = At_endpoint_bind
    \<and> err_message e \<in> config_messages \<and> err_context e = Map.empty"
  using parse_config_error_messages [OF assms] by (auto simp: endpoint_error_def)

theorem parse_config_refusal_static_witness:
  "\<exists>e. parse_config https_url_api At_custom [''a''] []
         [\<lparr>nr_url = ''relay.example'', nr_token = Some [CHR 0x0A]\<rparr>] True = Inl e
     \<and> err_message e = ''custom relay token is invalid'' \<and> err_message e \<in> config_messages"
proof -
  let ?e = "config_error ''custom relay token is invalid''"
  have "parse_config https_url_api At_custom [''a''] []
      [\<lparr>nr_url = ''relay.example'', nr_token = Some [CHR 0x0A]\<rparr>] True = Inl ?e"
    by (simp add: parse_config_def parse_relay_map_def parse_relay_def profile_of_atom_def
        https_url_api_def relay_url_accepted_def token_invalid_def alpn_invalid_def as_bytes_def
        MAX_ALPNS_def MAX_ALPN_BYTES_def MAX_RELAYS_def MAX_BIND_ADDRS_def)
  with parse_config_refusal_static [OF this] show ?thesis
    by (auto simp: endpoint_error_def)
qed

text \<open>
  C25. What the crate asks of Iroh for a parsed configuration. Whenever the builder works as
  Iroh documents it (\<open>builder_documented\<close>), the endpoint built from the crate's calls has
  relays exactly when the profile reports them enabled, the supplied relay map for \<open>custom\<close>
  and the public one for \<open>n0\<close>, address lookup exactly when the profile reports it enabled, the
  given secret key, the caller's ALPNs in their order, no IP transport without \<open>direct_ip\<close>,
  exactly the parsed addresses in their order with \<open>direct_ip\<close> and addresses, and the default
  transports otherwise. The calls are made once each: one preset, one key, one list of ALPNs,
  and one call per bind address.
\<close>

theorem endpoint_builder_network_policy:
  fixes builder_api :: "('s, 'key, 'url) builder_api"
  assumes documented: "builder_documented builder_api"
    and parsed: "parse_config api profile alpns binds relays direct_ip = Inr cfg"
    and built: "endpoint_builder bind_addr_ok cfg key = Inr builder"
    and endpoint: "s = fold (b_call builder_api) builder s0"
  shows "(b_relay_mode builder_api s \<noteq> RelayMode_Disabled \<longleftrightarrow> relay_enabled (cfg_profile cfg))
    \<and> (\<forall>m. cfg_relay_map cfg = Some m \<longrightarrow> b_relay_mode builder_api s = RelayMode_Custom m)
    \<and> (profile = At_n0 \<longrightarrow> b_relay_mode builder_api s = b_preset_relay_mode builder_api Preset_N0)
    \<and> (b_address_lookup builder_api s \<longleftrightarrow> profile_address_lookup_enabled (cfg_profile cfg))
    \<and> b_secret_key builder_api s = Some key
    \<and> b_alpns builder_api s = map as_bytes alpns
    \<and> b_ip_transports builder_api s =
        (if \<not> direct_ip then Some []
         else if binds = [] then None else Some (cfg_bind_addrs cfg))
    \<and> [p. Preset p \<leftarrow> builder] =
        [if profile = At_n0 then Preset_N0
         else if profile = At_no_relay then Preset_N0DisableRelay else Preset_Minimal]
    \<and> [k. Secret_key k \<leftarrow> builder] = [key]
    \<and> [a. Alpns a \<leftarrow> builder] = [map as_bytes alpns]
    \<and> [a. Bind_addr a \<leftarrow> builder] = cfg_bind_addrs cfg"
proof -
  note shape = parse_config_shape [OF parsed]
  obtain calls where calls: "profile_builder cfg = Inr calls"
    and builder: "builder = calls @ [Secret_key key, Alpns (cfg_alpns cfg)]
           @ (if \<not> cfg_direct_ip cfg \<or> cfg_bind_addrs cfg \<noteq> [] then [Clear_ip_transports] else [])
           @ (if cfg_direct_ip cfg then map Bind_addr (cfg_bind_addrs cfg) else [])"
    by (rule endpoint_builder_Inr [OF built])
  let ?tail = "(if \<not> direct_ip \<or> binds \<noteq> [] then [Clear_ip_transports] else [])
    @ map Bind_addr (cfg_bind_addrs cfg)"
  have tail: "builder = calls @ [Secret_key key, Alpns (map as_bytes alpns)] @ ?tail"
    using builder parse_config_fields [OF parsed] shape(3) by auto
  have calls_relays: "b_relay_mode builder_api (fold (b_call builder_api) calls s0) \<noteq> RelayMode_Disabled
        \<longleftrightarrow> relay_enabled (cfg_profile cfg)"
      "\<forall>m. cfg_relay_map cfg = Some m
         \<longrightarrow> b_relay_mode builder_api (fold (b_call builder_api) calls s0) = RelayMode_Custom m"
      "profile = At_n0 \<longrightarrow> b_relay_mode builder_api (fold (b_call builder_api) calls s0)
         = b_preset_relay_mode builder_api Preset_N0"
      "b_address_lookup builder_api (fold (b_call builder_api) calls s0)
         \<longleftrightarrow> profile_address_lookup_enabled (cfg_profile cfg)"
      "b_ip_transports builder_api (fold (b_call builder_api) calls s0) = None"
    using calls shape(1,2) builder_documented_presets [OF documented]
    by (cases "cfg_profile cfg"; auto simp: profile_builder_def builder_documented_calls [OF documented])+
  have calls_lists: "[p. Preset p \<leftarrow> calls] =
        [if profile = At_n0 then Preset_N0
         else if profile = At_no_relay then Preset_N0DisableRelay else Preset_Minimal]"
      "[k. Secret_key k \<leftarrow> calls] = []" "[a. Alpns a \<leftarrow> calls] = []" "[a. Bind_addr a \<leftarrow> calls] = []"
    using calls shape(1,2) by (cases "cfg_profile cfg"; auto simp: profile_builder_def)+
  have lists: "[p. Preset p \<leftarrow> builder] =
        [if profile = At_n0 then Preset_N0
         else if profile = At_no_relay then Preset_N0DisableRelay else Preset_Minimal]"
      "[k. Secret_key k \<leftarrow> builder] = [key]" "[a. Alpns a \<leftarrow> builder] = [map as_bytes alpns]"
      "[a. Bind_addr a \<leftarrow> builder] = cfg_bind_addrs cfg"
    unfolding tail map_append concat_append calls_lists by (simp_all add: comp_def)
  show ?thesis
    unfolding lists unfolding endpoint tail
    using calls_relays documented parse_config_fields [OF parsed]
    by (cases "binds = []") (simp_all add: fold_bind_addr fold_bind_addr_transports builder_documented_calls)
qed

theorem endpoint_builder_network_policy_witness:
  "\<forall>s0. \<exists>cfg builder.
     parse_config https_url_api At_direct [''a''] [''127.0.0.1:0''] [] True = Inr cfg
     \<and> endpoint_builder (\<lambda>_ _. True) cfg (7 :: nat) = Inr builder
     \<and> b_relay_mode demo_builder_api (fold (b_call demo_builder_api) builder s0) = RelayMode_Disabled
     \<and> \<not> b_address_lookup demo_builder_api (fold (b_call demo_builder_api) builder s0)
     \<and> b_secret_key demo_builder_api (fold (b_call demo_builder_api) builder s0) = Some 7
     \<and> b_ip_transports demo_builder_api (fold (b_call demo_builder_api) builder s0)
         = Some [V4 [127, 0, 0, 1] 0]"
  (is "\<forall>s0. ?P s0")
proof
  fix s0
  let ?cfg = "\<lparr>cfg_profile = Direct, cfg_alpns = [as_bytes ''a''], cfg_bind_addrs = [V4 [127, 0, 0, 1] 0],
    cfg_relay_map = None, cfg_direct_ip = True\<rparr> :: string bind_config"
  let ?builder = "[Preset Preset_Minimal, Relay_mode RelayMode_Disabled, Clear_address_lookup,
    Secret_key (7 :: nat), Alpns [as_bytes ''a''], Clear_ip_transports, Bind_addr (V4 [127, 0, 0, 1] 0)]"
  have parsed: "parse_config https_url_api At_direct [''a''] [''127.0.0.1:0''] [] True = Inr ?cfg"
    by (simp add: parse_config_def parse_relay_map_def profile_of_atom_def alpn_invalid_def
        parse_bind_addr_def socket_parser_defs as_bytes_def MAX_ALPNS_def MAX_ALPN_BYTES_def
        MAX_BIND_ADDRS_def)
  have built: "endpoint_builder (\<lambda>_ _. True) ?cfg 7 = Inr ?builder"
    by (simp add: endpoint_builder_def profile_builder_def Let_def)
  show "?P s0"
    using parsed built
      endpoint_builder_network_policy [OF demo_builder_documented parsed built refl, of s0]
    by (intro exI [of _ ?cfg] exI [of _ ?builder]) simp
qed

text \<open>
  C26. For a parsed configuration Iroh's verdicts on the bind addresses alone decide whether
  the builder is made: it is, with every call in it, when Iroh accepts each parsed address on
  the builder that holds the addresses before it, and otherwise the result is the one error
  for a refused address. The branch for a custom profile without relays is never taken.
\<close>

theorem endpoint_builder_refusal:
  fixes bind_addr_ok :: "('key, 'url) builder \<Rightarrow> socket_addr \<Rightarrow> bool"
  assumes parsed: "parse_config api profile alpns binds relays direct_ip = Inr cfg"
  shows "\<exists>start. endpoint_builder (\<lambda>_ _. True) cfg key = Inr (start @ map Bind_addr (cfg_bind_addrs cfg))
    \<and> endpoint_builder bind_addr_ok cfg key =
        (if \<forall>i < length (cfg_bind_addrs cfg).
              bind_addr_ok (start @ map Bind_addr (take i (cfg_bind_addrs cfg))) (cfg_bind_addrs cfg ! i)
         then Inr (start @ map Bind_addr (cfg_bind_addrs cfg))
         else Inl (config_error ''bind address configuration is invalid''))"
proof -
  obtain calls :: "('key, 'url) builder" where calls: "profile_builder cfg = Inr calls"
    using parse_config_shape(2) [OF parsed]
    by (cases "cfg_profile cfg") (auto simp: profile_builder_def)
  let ?start = "calls @ [Secret_key key, Alpns (cfg_alpns cfg)]
    @ (if \<not> direct_ip \<or> binds \<noteq> [] then [Clear_ip_transports] else [])"
  note fields = parse_config_fields [OF parsed]
  show ?thesis
    using calls fields
    by (intro exI [of _ ?start]) (auto simp: endpoint_builder_def Let_def bind_all_verdicts)
qed

theorem endpoint_builder_refusal_witness:
  "\<exists>cfg start.
     parse_config https_url_api At_n0 [''a''] [''127.0.0.1:0''] [] True = Inr cfg
     \<and> endpoint_builder (\<lambda>_ a. is_ipv4 a) cfg (7 :: nat) = Inr (start @ [Bind_addr (V4 [127, 0, 0, 1] 0)])
     \<and> endpoint_builder (\<lambda>_ a. \<not> is_ipv4 a) cfg (7 :: nat)
         = Inl (config_error ''bind address configuration is invalid'')"
proof -
  let ?v4 = "V4 [127, 0, 0, 1] 0"
  let ?cfg = "\<lparr>cfg_profile = N0, cfg_alpns = [as_bytes ''a''], cfg_bind_addrs = [?v4],
    cfg_relay_map = None, cfg_direct_ip = True\<rparr> :: string bind_config"
  have parsed: "parse_config https_url_api At_n0 [''a''] [''127.0.0.1:0''] [] True = Inr ?cfg"
    by (simp add: parse_config_def parse_relay_map_def profile_of_atom_def alpn_invalid_def
        parse_bind_addr_def socket_parser_defs as_bytes_def MAX_ALPNS_def MAX_ALPN_BYTES_def
        MAX_BIND_ADDRS_def)
  have "\<not> (\<forall>i :: nat. 0 < i)" by simp
  then show ?thesis
    using parsed endpoint_builder_refusal [OF parsed, of "7 :: nat" "\<lambda>_ a. is_ipv4 a"]
      endpoint_builder_refusal [OF parsed, of "7 :: nat" "\<lambda>_ a. \<not> is_ipv4 a"]
    by auto
qed

end
