(* ===== verification/Endpoint.thy ===== *)
theory Endpoint
  imports Operation Endpoint_Config
begin

text \<open>
  Endpoint resources: \<open>EndpointResource\<close>, the registry of active identities, the bind
  protocol and the endpoint operations of \<^verbatim>\<open>native/iroh_beam_nif/src/endpoint.rs\<close>.
\<close>

section \<open>State\<close>

text \<open>
  \<open>er_owner\<close> is the process that monitors the resource and \<open>er_dropped\<close> records that its
  destructor has run; neither is a field of the Rust struct.
\<close>

record endpoint_resource =
  er_endpoint :: "handle option mutex"
  er_endpoint_id :: string
  er_profile :: ProfileKind
  er_direct_ip :: bool
  er_released :: bool
  er_pending_accepts :: usize
  er_max_pending_accepts :: usize
  er_active_connections :: usize
  er_max_connections :: usize
  er_owner :: pid
  er_dropped :: bool

record ('a, 'b) ep_state = "('a, 'b) rt_state" +
  ep_endpoints :: "endpoint_resource list"
  ep_identities :: "string set mutex"
  ep_active_endpoints :: usize
  net_log :: "net_event list"

section \<open>Operations on one resource\<close>

definition EndpointResource_endpoint :: "endpoint_resource \<Rightarrow> handle option" where
  "EndpointResource_endpoint self =
     (case mutex_lock (er_endpoint self) of None \<Rightarrow> None | Some value \<Rightarrow> value)"

definition EndpointResource_address_lookup_enabled :: "endpoint_resource \<Rightarrow> bool" where
  "EndpointResource_address_lookup_enabled self = profile_address_lookup_enabled (er_profile self)"

definition EndpointResource_begin_accept :: "endpoint_resource \<Rightarrow> bool \<times> endpoint_resource" where
  "EndpointResource_begin_accept self =
     (let (r, count) = fetch_update (er_pending_accepts self)
            (\<lambda>count. if count < er_max_pending_accepts self then Some (count + 1) else None)
      in (is_ok r, self\<lparr>er_pending_accepts := count\<rparr>))"

definition EndpointResource_finish_accept :: "endpoint_resource \<Rightarrow> endpoint_resource" where
  "EndpointResource_finish_accept self =
     (let (_, count) = fetch_update (er_pending_accepts self) (\<lambda>count. checked_sub count 1)
      in self\<lparr>er_pending_accepts := count\<rparr>)"

definition EndpointResource_claim_connection :: "endpoint_resource \<Rightarrow> bool \<times> endpoint_resource" where
  "EndpointResource_claim_connection self =
     (let (r, count) = fetch_update (er_active_connections self)
            (\<lambda>count. if count < er_max_connections self then Some (count + 1) else None)
      in (is_ok r, self\<lparr>er_active_connections := count\<rparr>))"

definition EndpointResource_release_connection :: "endpoint_resource \<Rightarrow> endpoint_resource" where
  "EndpointResource_release_connection self =
     (let (_, count) = fetch_update (er_active_connections self) (\<lambda>count. checked_sub count 1)
      in self\<lparr>er_active_connections := count\<rparr>)"

text \<open>Both counters are pools of permits; the lemmas of the contract come with them.\<close>

lemma begin_accept_eq:
  "EndpointResource_begin_accept self =
     (if er_pending_accepts self < er_max_pending_accepts self
      then (True, self\<lparr>er_pending_accepts := er_pending_accepts self + 1\<rparr>) else (False, self))"
  by (simp add: EndpointResource_begin_accept_def fetch_update_def Let_def)

lemma finish_accept_eq:
  "EndpointResource_finish_accept self =
     (if er_pending_accepts self = 0 then self
      else self\<lparr>er_pending_accepts := er_pending_accepts self - 1\<rparr>)"
  by (simp add: EndpointResource_finish_accept_def fetch_update_def checked_sub_def Let_def word_ge_1)

lemma claim_connection_eq:
  "EndpointResource_claim_connection self =
     (if er_active_connections self < er_max_connections self
      then (True, self\<lparr>er_active_connections := er_active_connections self + 1\<rparr>) else (False, self))"
  by (simp add: EndpointResource_claim_connection_def fetch_update_def Let_def)

lemma release_connection_eq:
  "EndpointResource_release_connection self =
     (if er_active_connections self = 0 then self
      else self\<lparr>er_active_connections := er_active_connections self - 1\<rparr>)"
  by (simp add: EndpointResource_release_connection_def fetch_update_def checked_sub_def Let_def word_ge_1)

interpretation accepting: permit_pool EndpointResource_begin_accept EndpointResource_finish_accept
  "\<lambda>r. unat (er_pending_accepts r)" "\<lambda>r. unat (er_max_pending_accepts r)"
  by unfold_locales (simp_all add: begin_accept_eq finish_accept_eq unat_below_Suc unat_pred word_less_nat_alt)

interpretation connecting: permit_pool EndpointResource_claim_connection EndpointResource_release_connection
  "\<lambda>r. unat (er_active_connections r)" "\<lambda>r. unat (er_max_connections r)"
  by unfold_locales (simp_all add: claim_connection_eq release_connection_eq unat_below_Suc unat_pred word_less_nat_alt)

definition EndpointResource_take_endpoint :: "endpoint_resource \<Rightarrow> handle option \<times> endpoint_resource" where
  "EndpointResource_take_endpoint self =
     (let (value, slot) = mutex_take (er_endpoint self) in (value, self\<lparr>er_endpoint := slot\<rparr>))"

definition set_endpoint ::
  "endpoint_ix \<Rightarrow> endpoint_resource \<Rightarrow> ('a, 'b, 'z) ep_state_scheme \<Rightarrow> ('a, 'b, 'z) ep_state_scheme" where
  "set_endpoint ix self w = w\<lparr>ep_endpoints := (ep_endpoints w)[ix := self]\<rparr>"

definition log_net :: "net_event list \<Rightarrow> ('a, 'b, 'z) ep_state_scheme \<Rightarrow> ('a, 'b, 'z) ep_state_scheme" where
  "log_net es w = w\<lparr>net_log := net_log w @ es\<rparr>"

section \<open>The identity registry\<close>

definition reserve_identity ::
  "string \<Rightarrow> ('a, 'b, 'z) ep_state_scheme \<Rightarrow> unit nif_result \<times> ('a, 'b, 'z) ep_state_scheme" where
  "reserve_identity endpoint_id w =
     (case mutex_lock (ep_identities w) of
        None \<Rightarrow> (Inl (endpoint_error At_internal At_endpoint_bind
                   ''endpoint identity registry is unavailable''), w)
      | Some identities \<Rightarrow>
          if endpoint_id \<in> identities
          then (Inl (endpoint_error At_duplicate_identity At_endpoint_bind
                  ''endpoint identity is already active in this VM''), w)
          else (Inr (), w\<lparr>ep_identities := mutex_set (insert endpoint_id identities) (ep_identities w)\<rparr>))"

definition release_reserved_identity ::
  "string \<Rightarrow> ('a, 'b, 'z) ep_state_scheme \<Rightarrow> ('a, 'b, 'z) ep_state_scheme" where
  "release_reserved_identity endpoint_id w =
     (case mutex_lock (ep_identities w) of
        None \<Rightarrow> w
      | Some identities \<Rightarrow>
          w\<lparr>ep_identities := mutex_set (identities - {endpoint_id}) (ep_identities w)\<rparr>)"

definition EndpointResource_release_identity ::
  "endpoint_ix \<Rightarrow> ('a, 'b, 'z) ep_state_scheme \<Rightarrow> ('a, 'b, 'z) ep_state_scheme" where
  "EndpointResource_release_identity ix w =
     (let self = ep_endpoints w ! ix
      in if \<not> er_released self
         then (release_reserved_identity (er_endpoint_id self)
                (set_endpoint ix (self\<lparr>er_released := True\<rparr>) w))
                \<lparr>ep_active_endpoints := ep_active_endpoints w - 1\<rparr>
         else w)"

text \<open>
  \<open>abort\<close>: the taken endpoint value goes out of scope, that is, it is dropped without an
  orderly close. \<open>Drop\<close> and the monitor callback \<open>down\<close> call it.
\<close>

definition EndpointResource_abort ::
  "endpoint_ix \<Rightarrow> ('a, 'b, 'z) ep_state_scheme \<Rightarrow> bool \<times> ('a, 'b, 'z) ep_state_scheme" where
  "EndpointResource_abort ix w =
     (let (endpoint, self) = EndpointResource_take_endpoint (ep_endpoints w ! ix);
          w = EndpointResource_release_identity ix (set_endpoint ix self w)
      in case endpoint of
           None \<Rightarrow> (False, w)
         | Some h \<Rightarrow> (True, log_net [Net_endpoint_drop h] w))"

definition EndpointResource_drop ::
  "endpoint_ix \<Rightarrow> ('a, 'b, 'z) ep_state_scheme \<Rightarrow> ('a, 'b, 'z) ep_state_scheme" where
  "EndpointResource_drop ix w =
     (let w = snd (EndpointResource_abort ix w)
      in set_endpoint ix ((ep_endpoints w ! ix)\<lparr>er_dropped := True\<rparr>) w)"

definition EndpointResource_down ::
  "endpoint_ix \<Rightarrow> ('a, 'b, 'z) ep_state_scheme \<Rightarrow> ('a, 'b, 'z) ep_state_scheme" where
  "EndpointResource_down ix w = snd (EndpointResource_abort ix w)"

definition endpoint_abort ::
  "endpoint_ix \<Rightarrow> ('a, 'b, 'z) ep_state_scheme \<Rightarrow> bool \<times> ('a, 'b, 'z) ep_state_scheme" where
  "endpoint_abort ix w = EndpointResource_abort ix w"

section \<open>Binding\<close>

text \<open>The second reading of the profile atom, after \<open>parse_config\<close> has accepted it.\<close>

definition bind_profile :: "atom \<Rightarrow> ProfileKind" where
  "bind_profile profile =
     (if profile = At_n0 then N0
      else if profile = At_direct then Direct
      else if profile = At_no_relay then NoRelay
      else Custom)"

text \<open>
  \<open>endpoint_bind_start\<close> up to the two \<open>spawn\<close> calls. \<open>public_id\<close> is
  \<open>secret_key.key.public().to_string()\<close>.
\<close>

definition endpoint_bind_start ::
  "bool \<Rightarrow> ('url, 'y) relay_url_api_scheme \<Rightarrow> (('key, 'url) builder \<Rightarrow> socket_addr \<Rightarrow> bool)
     \<Rightarrow> ('key \<Rightarrow> string) \<Rightarrow> pid \<Rightarrow> reference \<Rightarrow> 'key \<Rightarrow> native_endpoint_options
     \<Rightarrow> ('a, ('key, 'url) builder, 'z) ep_state_scheme
     \<Rightarrow> op_ix nif_result \<times> ('a, ('key, 'url) builder, 'z) ep_state_scheme" where
  "endpoint_bind_start builds api bind_addr_ok public_id caller operation_ref key options w =
     (case runtime builds w of
        (Inl e, w) \<Rightarrow> (Inl e, w)
      | (Inr _, w) \<Rightarrow>
        if opt_max_connections options = 0 \<or> opt_max_connections options > 1000000
           \<or> opt_max_pending_accepts options = 0 \<or> opt_max_pending_accepts options > 1024
        then (Inl (endpoint_error At_invalid_argument At_endpoint_bind
                ''endpoint limits are outside the supported range''), w)
        else
        case parse_config api (opt_profile options) (opt_alpns options) (opt_bind_addrs options)
               (opt_relays options) (opt_direct_ip options) of
          Inl e \<Rightarrow> (Inl e, w)
        | Inr config \<Rightarrow>
          let endpoint_id = public_id key
          in case reserve_identity endpoint_id w of
               (Inl e, w) \<Rightarrow> (Inl e, w)
             | (Inr _, w) \<Rightarrow>
               case endpoint_builder bind_addr_ok config key of
                 Inl e \<Rightarrow> (Inl e, release_reserved_identity endpoint_id w)
               | Inr builder \<Rightarrow>
                 if caller \<notin> rt_alive w
                 then (Inl (endpoint_error At_cancelled At_endpoint_bind
                         ''endpoint owner is no longer available''),
                       release_reserved_identity endpoint_id w)
                 else
                   let (ix, w) = spawn_operation caller operation_ref
                         (Sup_bind \<lparr>bc_endpoint_id = endpoint_id,
                            bc_profile = bind_profile (opt_profile options),
                            bc_direct_ip = opt_direct_ip options,
                            bc_max_pending_accepts = opt_max_pending_accepts options,
                            bc_max_connections = opt_max_connections options\<rparr>)
                         (Fut_bind builder) w
                   in (Inr ix, w))"

definition EndpointResource_new :: "bind_capture \<Rightarrow> handle \<Rightarrow> pid \<Rightarrow> endpoint_resource" where
  "EndpointResource_new c endpoint owner =
     \<lparr>er_endpoint = mutex_new (Some endpoint), er_endpoint_id = bc_endpoint_id c,
      er_profile = bc_profile c, er_direct_ip = bc_direct_ip c, er_released = False,
      er_pending_accepts = 0, er_max_pending_accepts = bc_max_pending_accepts c,
      er_active_connections = 0, er_max_connections = bc_max_connections c,
      er_owner = owner, er_dropped = False\<rparr>"

text \<open>
  C39. The two limits of an endpoint: an accept or a connection is admitted exactly while its
  counter is below the limit, and no schedule of admissions and releases on a new endpoint
  takes a counter above the limit it was bound with.
\<close>

theorem permit_pools:
  "(fst (EndpointResource_begin_accept r) \<longleftrightarrow> er_pending_accepts r < er_max_pending_accepts r)
    \<and> (fst (EndpointResource_claim_connection r) \<longleftrightarrow> er_active_connections r < er_max_connections r)
    \<and> er_pending_accepts (accepting.run es (EndpointResource_new c h owner)) \<le> bc_max_pending_accepts c
    \<and> er_active_connections (connecting.run es (EndpointResource_new c h owner)) \<le> bc_max_connections c"
  using accepting.acquire_iff [of r] connecting.acquire_iff [of r]
    accepting.run_within_capacity [of "EndpointResource_new c h owner" es]
    connecting.run_within_capacity [of "EndpointResource_new c h owner" es]
  by (simp add: word_less_nat_alt word_le_nat_alt EndpointResource_new_def)

text \<open>The message of the bind supervisor after a won exchange, with its effects.\<close>

definition bind_result_message ::
  "pid \<Rightarrow> bind_capture \<Rightarrow> joined option \<Rightarrow> ('a, 'b, 'z) ep_state_scheme
     \<Rightarrow> res_val nif_result \<times> ('a, 'b, 'z) ep_state_scheme" where
  "bind_result_message caller c bound w =
     (case bound of
        Some (Join_bound (Some h)) \<Rightarrow>
          let ix = length (ep_endpoints w);
              w = w\<lparr>ep_active_endpoints := ep_active_endpoints w + 1,
                    ep_endpoints := ep_endpoints w @ [EndpointResource_new c h caller]\<rparr>
          in if caller \<in> rt_alive w then (Inr (R_endpoint ix), w)
             else (Inl (endpoint_error At_cancelled At_endpoint_bind
                     ''endpoint owner is no longer available''),
                   EndpointResource_drop ix (snd (EndpointResource_abort ix w)))
      | Some (Join_bound None) \<Rightarrow>
          (Inl (endpoint_error At_bind_failed At_endpoint_bind ''endpoint could not bind''),
           release_reserved_identity (bc_endpoint_id c) w)
      | Some _ \<Rightarrow>
          (Inl (endpoint_error At_internal At_endpoint_bind ''endpoint bind failed internally''),
           release_reserved_identity (bc_endpoint_id c) w)
      | None \<Rightarrow>
          (Inl (endpoint_error At_cancelled At_endpoint_bind ''endpoint bind was cancelled''),
           release_reserved_identity (bc_endpoint_id c) w))"

definition bind_complete ::
  "op_ix \<Rightarrow> ('a, 'b, 'z) ep_state_scheme \<Rightarrow> ('a, 'b, 'z) ep_state_scheme option" where
  "bind_complete ix w =
     (case (tk_supervisor (rt_tasks w ! ix), tk_phase (rt_tasks w ! ix)) of
        (Sup_bind c, Selected bound) \<Rightarrow>
          (case should_complete ix w of
             (True, w) \<Rightarrow>
               (case bind_result_message (tk_caller (rt_tasks w ! ix)) c bound w of
                  (message, w) \<Rightarrow> Some (set_task ix (tk_phase_update (\<lambda>_. Sending message)) w))
           | (False, w) \<Rightarrow>
               Some (set_task ix (tk_phase_update (\<lambda>_. Finishing bound))
                 (release_reserved_identity (bc_endpoint_id c) w)))
      | _ \<Rightarrow> None)"

section \<open>Queries and operations\<close>

record EndpointInfo =
  ei_endpoint_id :: string
  ei_relay_urls :: "string list"
  ei_ip_addrs :: "string list"
  ei_bound_sockets :: "string list"
  ei_profile :: atom
  ei_relay_enabled :: bool
  ei_address_lookup_enabled :: bool
  ei_direct_ip :: bool
  ei_online :: bool
  ei_closed :: bool

definition endpoint_info_value :: "iroh_api \<Rightarrow> endpoint_resource \<Rightarrow> EndpointInfo" where
  "endpoint_info_value iroh self =
     (let profile = er_profile self
      in case EndpointResource_endpoint self of
           Some value \<Rightarrow>
             \<lparr>ei_endpoint_id = er_endpoint_id self,
              ei_relay_urls = api_relay_urls iroh value,
              ei_ip_addrs = map socket_addr_to_string (api_ip_addrs iroh value),
              ei_bound_sockets = map socket_addr_to_string (api_bound_sockets iroh value),
              ei_profile = ProfileKind_atom profile,
              ei_relay_enabled = relay_enabled profile,
              ei_address_lookup_enabled = profile_address_lookup_enabled profile,
              ei_direct_ip = er_direct_ip self,
              ei_online = (if relay_enabled profile
                           then \<exists>connected\<in>set (api_home_relay_connected iroh value). connected
                           else \<not> api_is_closed iroh value),
              ei_closed = api_is_closed iroh value\<rparr>
         | None \<Rightarrow>
             \<lparr>ei_endpoint_id = er_endpoint_id self, ei_relay_urls = [], ei_ip_addrs = [],
              ei_bound_sockets = [], ei_profile = ProfileKind_atom profile,
              ei_relay_enabled = relay_enabled profile,
              ei_address_lookup_enabled = profile_address_lookup_enabled profile,
              ei_direct_ip = er_direct_ip self, ei_online = False, ei_closed = True\<rparr>)"

definition endpoint_info :: "iroh_api \<Rightarrow> endpoint_resource \<Rightarrow> EndpointInfo nif_result" where
  "endpoint_info iroh self = Inr (endpoint_info_value iroh self)"

definition endpoint_close_start ::
  "bool \<Rightarrow> pid \<Rightarrow> reference \<Rightarrow> endpoint_ix \<Rightarrow> ('a, 'b, 'z) ep_state_scheme
     \<Rightarrow> op_ix nif_result \<times> ('a, 'b, 'z) ep_state_scheme" where
  "endpoint_close_start builds caller operation_ref ix w =
     start_endpoint_operation builds caller operation_ref At_endpoint_close (Fut_close ix) w"

definition endpoint_await_online_start ::
  "bool \<Rightarrow> pid \<Rightarrow> reference \<Rightarrow> endpoint_ix \<Rightarrow> ('a, 'b, 'z) ep_state_scheme
     \<Rightarrow> op_ix nif_result \<times> ('a, 'b, 'z) ep_state_scheme" where
  "endpoint_await_online_start builds caller operation_ref ix w =
     (let profile = er_profile (ep_endpoints w ! ix);
          value = EndpointResource_endpoint (ep_endpoints w ! ix)
      in start_endpoint_operation builds caller operation_ref At_endpoint_online
           (Fut_online profile value) w)"

record EndpointSnapshot =
  es_active_endpoints :: usize
  es_active_identities :: usize
  es_active_operations :: usize

definition endpoint_snapshot :: "('a, 'b, 'z) ep_state_scheme \<Rightarrow> EndpointSnapshot nif_result" where
  "endpoint_snapshot w =
     Inr \<lparr>es_active_endpoints = ep_active_endpoints w,
          es_active_identities =
            (case mutex_lock (ep_identities w) of None \<Rightarrow> 0 | Some ids \<Rightarrow> usize_of (card ids)),
          es_active_operations = rt_active_operations w\<rparr>"

section \<open>The asynchronous blocks\<close>

text \<open>
  One resumption of a block: either it waits again (\<open>Inl\<close>) or it finishes with its output
  (\<open>Inr\<close>). \<open>None\<close> means that the event does not resume the block.
\<close>

type_synonym ('a, 'b, 'w) resumption = "((('a, 'b) future + joined) \<times> 'w) option"

definition finish_block :: "res_val nif_result \<Rightarrow> 'w \<Rightarrow> ('a, 'b, 'w) resumption" where
  "finish_block r w = Some (Inr (Join_result r), w)"

text \<open>\<open>endpoint_close_start\<close>: before \<open>value.close().await\<close>, and after it.\<close>

definition poll_close ::
  "endpoint_ix \<Rightarrow> ('a, 'b, 'z) ep_state_scheme \<Rightarrow> ('a, 'b, ('a, 'b, 'z) ep_state_scheme) resumption" where
  "poll_close ix w =
     (case EndpointResource_take_endpoint (ep_endpoints w ! ix) of
        (Some value, self) \<Rightarrow> Some (Inl (Fut_closing ix value), set_endpoint ix self w)
      | (None, self) \<Rightarrow>
          finish_block (Inr (R_atom At_closed))
            (EndpointResource_release_identity ix (set_endpoint ix self w)))"

definition poll_closing ::
  "endpoint_ix \<Rightarrow> handle \<Rightarrow> ('a, 'b, 'z) ep_state_scheme
     \<Rightarrow> ('a, 'b, ('a, 'b, 'z) ep_state_scheme) resumption" where
  "poll_closing ix value w =
     finish_block (Inr (R_atom At_closed))
       (EndpointResource_release_identity ix (log_net [Net_endpoint_close value] w))"

definition poll_online ::
  "iroh_api \<Rightarrow> lib_event \<Rightarrow> ProfileKind \<Rightarrow> handle option \<Rightarrow> ('a, 'b, 'z) ep_state_scheme
     \<Rightarrow> ('a, 'b, ('a, 'b, 'z) ep_state_scheme) resumption" where
  "poll_online iroh event profile value w =
     (case value of
        None \<Rightarrow>
          finish_block (Inl (endpoint_error At_closed At_endpoint_online ''endpoint is closed'')) w
      | Some value \<Rightarrow>
          if relay_enabled profile
          then if event = E_online then finish_block (Inr (R_atom At_ok)) w
               else if event = E_endpoint_closed
               then finish_block (Inl (endpoint_error At_closed At_endpoint_online
                      ''endpoint closed before becoming online'')) w
               else None
          else if api_is_closed iroh value
          then finish_block (Inl (endpoint_error At_closed At_endpoint_online ''endpoint is closed'')) w
          else finish_block (Inr (R_atom At_ok)) w)"

end
