(* ===== verification/Identity.thy ===== *)
theory Identity
  imports Relay_Url Rust_Net
begin

text \<open>
  Keys, endpoint identifiers, addresses and tickets of
  \<^verbatim>\<open>native/iroh_beam_nif/src/identity.rs\<close>, except for the identity file, which has its own
  theory. Keys, identifiers, addresses and tickets are values of Iroh; their operations are
  the parameter \<open>iroh_identity_api\<close>. A guarded NIF takes the flag \<open>unwinds\<close>: whether a library
  call inside its closure panics.
\<close>

section \<open>The library\<close>

datatype 'url transport_addr = Relay 'url | Ip socket_addr

record ('url, 'id, 'addr, 'ticket, 'key) iroh_identity_api = "'url relay_url_api" +
  url_to_string :: "'url \<Rightarrow> string"
  id_of_bytes :: "bytes \<Rightarrow> 'id option"
  id_of_str :: "string \<Rightarrow> 'id option"
  id_to_string :: "'id \<Rightarrow> string"
  id_as_bytes :: "'id \<Rightarrow> bytes"
  addr_from_parts :: "'id \<Rightarrow> 'url transport_addr list \<Rightarrow> 'addr"
  addr_id :: "'addr \<Rightarrow> 'id"
  addr_relay_urls :: "'addr \<Rightarrow> 'url list"
  addr_ip_addrs :: "'addr \<Rightarrow> socket_addr list"
  addr_is_empty :: "'addr \<Rightarrow> bool"
  ticket_new :: "'addr \<Rightarrow> 'ticket"
  ticket_addr :: "'ticket \<Rightarrow> 'addr"
  ticket_to_string :: "'ticket \<Rightarrow> string"
  ticket_of_str :: "string \<Rightarrow> 'ticket option"
  ticket_encode_bytes :: "'ticket \<Rightarrow> bytes"
  ticket_decode_bytes :: "bytes \<Rightarrow> 'ticket option"
  key_of_bytes :: "bytes \<Rightarrow> 'key"
  key_to_bytes :: "'key \<Rightarrow> bytes"
  key_public :: "'key \<Rightarrow> 'id"

definition guarded_call :: "bool \<Rightarrow> 'a nif_result \<Rightarrow> 'a nif_result outcome" where
  "guarded_call unwinds r = (if unwinds then Panicked else Returned r)"

section \<open>Limits and errors\<close>

definition KEY_SIZE :: nat where
  "KEY_SIZE = 32"

definition MAX_ADDRS :: nat where
  "MAX_ADDRS = 64"

definition MAX_RELAY_URL_BYTES :: nat where
  "MAX_RELAY_URL_BYTES = 2048"

definition MAX_TICKET_BYTES :: nat where
  "MAX_TICKET_BYTES = 64 * 1024"

definition MAX_TICKET_TEXT_BYTES :: nat where
  "MAX_TICKET_TEXT_BYTES = 128 * 1024"

record normalized_addr =
  na_relay_urls :: "string list"
  na_ip_addrs :: "string list"

record ParsedTicket =
  pt_endpoint_id :: string
  pt_relay_urls :: "string list"
  pt_ip_addrs :: "string list"
  pt_text :: string

definition invalid :: "atom \<Rightarrow> string \<Rightarrow> NativeError" where
  "invalid operation message = native_error At_invalid_argument operation message"

definition io_error :: "string \<Rightarrow> NativeError" where
  "io_error message = native_error At_io At_identity_load message"

section \<open>Identifiers and addresses\<close>

definition id_from_bytes ::
  "('url, 'id, 'addr, 'ticket, 'key, 'z) iroh_identity_api_scheme \<Rightarrow> bytes \<Rightarrow> 'id nif_result" where
  "id_from_bytes api bs =
     (if length bs \<noteq> KEY_SIZE
      then Inl (invalid At_endpoint_id ''endpoint ID must contain exactly 32 bytes'')
      else ok_or (id_of_bytes api bs)
             (invalid At_endpoint_id ''endpoint ID is not a valid public key''))"

definition normalize_addr ::
  "('url, 'id, 'addr, 'ticket, 'key, 'z) iroh_identity_api_scheme \<Rightarrow> 'addr \<Rightarrow> normalized_addr" where
  "normalize_addr api addr =
     \<lparr>na_relay_urls = map (url_to_string api) (addr_relay_urls api addr),
      na_ip_addrs = map socket_addr_to_string (addr_ip_addrs api addr)\<rparr>"

text \<open>One round of each of the two loops of \<open>build_addr\<close>.\<close>

definition build_relay ::
  "('url, 'z) relay_url_api_scheme \<Rightarrow> string \<Rightarrow> 'url transport_addr nif_result" where
  "build_relay api text =
     (if length text > MAX_RELAY_URL_BYTES
      then Inl (invalid At_endpoint_addr ''relay URL is too long'')
      else case url_from_str api text of
             None \<Rightarrow> Inl (invalid At_endpoint_addr ''relay URL is invalid'')
           | Some url \<Rightarrow>
               if \<not> relay_url_accepted api url
               then Inl (invalid At_endpoint_addr
                      ''relay URL must be an HTTP(S) URL without credentials'')
               else Inr (Relay url))"

definition build_ip :: "string \<Rightarrow> 'url transport_addr nif_result" where
  "build_ip text =
     (case socket_addr_from_str text of
        None \<Rightarrow> Inl (invalid At_endpoint_addr ''IP socket address is invalid'')
      | Some addr \<Rightarrow> Inr (Ip addr))"

definition build_addr ::
  "('url, 'id, 'addr, 'ticket, 'key, 'z) iroh_identity_api_scheme \<Rightarrow> bytes \<Rightarrow> string list \<Rightarrow> string list
     \<Rightarrow> 'addr nif_result" where
  "build_addr api endpoint_id relay_urls ip_addrs =
     (if length relay_urls + length ip_addrs > MAX_ADDRS
      then Inl (invalid At_endpoint_addr ''endpoint address contains too many transport addresses'')
      else bind_result (id_from_bytes api endpoint_id) (\<lambda>i.
             bind_result (collect_results (build_relay api) relay_urls) (\<lambda>relays.
               bind_result (collect_results build_ip ip_addrs) (\<lambda>ips.
                 Inr (addr_from_parts api i (relays @ ips))))))"

definition parsed_ticket ::
  "('url, 'id, 'addr, 'ticket, 'key, 'z) iroh_identity_api_scheme \<Rightarrow> 'ticket \<Rightarrow> ParsedTicket" where
  "parsed_ticket api ticket =
     (let addr = ticket_addr api ticket; normalized = normalize_addr api addr
      in \<lparr>pt_endpoint_id = id_to_string api (addr_id api addr),
          pt_relay_urls = na_relay_urls normalized, pt_ip_addrs = na_ip_addrs normalized,
          pt_text = ticket_to_string api ticket\<rparr>)"

section \<open>NIFs on keys and identifiers\<close>

text \<open>\<open>allocated\<close>: whether the VM could allocate the result binary.\<close>

definition allocate_binary :: "bool \<Rightarrow> bytes \<Rightarrow> atom \<Rightarrow> bytes nif_result" where
  "allocate_binary allocated bs operation =
     (if allocated then Inr bs
      else Inl (native_error At_internal operation ''binary allocation failed''))"

definition identity_generate :: "bool \<Rightarrow> 'key \<Rightarrow> 'key nif_result" where
  "identity_generate unwinds generated =
     encode_guarded At_identity_generate (guarded_call unwinds (Inr generated))"

definition secret_key_import ::
  "('url, 'id, 'addr, 'ticket, 'key, 'z) iroh_identity_api_scheme \<Rightarrow> bool \<Rightarrow> bytes \<Rightarrow> 'key nif_result" where
  "secret_key_import api unwinds bs =
     encode_guarded At_secret_key_import (guarded_call unwinds
       (if length bs \<noteq> KEY_SIZE
        then Inl (invalid At_secret_key_import ''secret key must contain exactly 32 bytes'')
        else Inr (key_of_bytes api bs)))"

definition secret_key_export ::
  "('url, 'id, 'addr, 'ticket, 'key, 'z) iroh_identity_api_scheme \<Rightarrow> bool \<Rightarrow> bool \<Rightarrow> 'key \<Rightarrow> bytes nif_result" where
  "secret_key_export api unwinds allocated key =
     guarded (guarded_call unwinds (allocate_binary allocated (key_to_bytes api key) At_secret_key_export))
       (native_error At_internal At_secret_key_export ''native operation failed internally'')"

definition secret_key_endpoint_id ::
  "('url, 'id, 'addr, 'ticket, 'key, 'z) iroh_identity_api_scheme \<Rightarrow> bool \<Rightarrow> 'key \<Rightarrow> string nif_result" where
  "secret_key_endpoint_id api unwinds key =
     encode_guarded At_endpoint_id (guarded_call unwinds (Inr (id_to_string api (key_public api key))))"

definition endpoint_id_parse ::
  "('url, 'id, 'addr, 'ticket, 'key, 'z) iroh_identity_api_scheme \<Rightarrow> bool \<Rightarrow> string \<Rightarrow> string nif_result" where
  "endpoint_id_parse api unwinds text =
     encode_guarded At_endpoint_id (guarded_call unwinds
       (if length text > 128 then Inl (invalid At_endpoint_id ''endpoint ID is too long'')
        else map_result (id_to_string api)
               (ok_or (id_of_str api text) (invalid At_endpoint_id ''endpoint ID is invalid''))))"

definition endpoint_id_from_bytes ::
  "('url, 'id, 'addr, 'ticket, 'key, 'z) iroh_identity_api_scheme \<Rightarrow> bool \<Rightarrow> bytes \<Rightarrow> string nif_result" where
  "endpoint_id_from_bytes api unwinds bs =
     encode_guarded At_endpoint_id (guarded_call unwinds
       (map_result (id_to_string api) (id_from_bytes api bs)))"

section \<open>NIFs on addresses and tickets\<close>

definition endpoint_addr_normalize ::
  "('url, 'id, 'addr, 'ticket, 'key, 'z) iroh_identity_api_scheme \<Rightarrow> bool \<Rightarrow> bytes \<Rightarrow> string list
     \<Rightarrow> string list \<Rightarrow> normalized_addr nif_result" where
  "endpoint_addr_normalize api unwinds endpoint_id relay_urls ip_addrs =
     encode_guarded At_endpoint_addr (guarded_call unwinds
       (map_result (normalize_addr api) (build_addr api endpoint_id relay_urls ip_addrs)))"

definition endpoint_ticket_from_addr_text ::
  "('url, 'id, 'addr, 'ticket, 'key, 'z) iroh_identity_api_scheme \<Rightarrow> bool \<Rightarrow> bytes \<Rightarrow> string list
     \<Rightarrow> string list \<Rightarrow> string nif_result" where
  "endpoint_ticket_from_addr_text api unwinds endpoint_id relay_urls ip_addrs =
     encode_guarded At_endpoint_ticket (guarded_call unwinds
       (bind_result (build_addr api endpoint_id relay_urls ip_addrs)
         (\<lambda>addr. Inr (ticket_to_string api (ticket_new api addr)))))"

definition endpoint_ticket_from_addr_bytes ::
  "('url, 'id, 'addr, 'ticket, 'key, 'z) iroh_identity_api_scheme \<Rightarrow> bool \<Rightarrow> bool \<Rightarrow> bytes \<Rightarrow> string list
     \<Rightarrow> string list \<Rightarrow> bytes nif_result" where
  "endpoint_ticket_from_addr_bytes api unwinds allocated endpoint_id relay_urls ip_addrs =
     guarded (guarded_call unwinds
       (bind_result (build_addr api endpoint_id relay_urls ip_addrs)
         (\<lambda>addr. let ticket = ticket_new api addr
                 in allocate_binary allocated (ticket_encode_bytes api ticket) At_endpoint_ticket)))
       (native_error At_internal At_endpoint_ticket ''native operation failed internally'')"

definition endpoint_ticket_parse_text ::
  "('url, 'id, 'addr, 'ticket, 'key, 'z) iroh_identity_api_scheme \<Rightarrow> bool \<Rightarrow> string
     \<Rightarrow> ParsedTicket nif_result" where
  "endpoint_ticket_parse_text api unwinds text =
     encode_guarded At_endpoint_ticket (guarded_call unwinds
       (if length text > MAX_TICKET_TEXT_BYTES
        then Inl (invalid At_endpoint_ticket ''endpoint ticket is too large'')
        else bind_result
               (ok_or (ticket_of_str api text) (invalid At_endpoint_ticket ''endpoint ticket is invalid''))
               (\<lambda>ticket. Inr (parsed_ticket api ticket))))"

definition endpoint_ticket_parse_bytes ::
  "('url, 'id, 'addr, 'ticket, 'key, 'z) iroh_identity_api_scheme \<Rightarrow> bool \<Rightarrow> bytes
     \<Rightarrow> ParsedTicket nif_result" where
  "endpoint_ticket_parse_bytes api unwinds bs =
     encode_guarded At_endpoint_ticket (guarded_call unwinds
       (if length bs > MAX_TICKET_BYTES
        then Inl (invalid At_endpoint_ticket ''endpoint ticket is too large'')
        else bind_result
               (ok_or (ticket_decode_bytes api bs) (invalid At_endpoint_ticket ''endpoint ticket is invalid''))
               (\<lambda>ticket. Inr (parsed_ticket api ticket))))"

definition endpoint_ticket_text_to_bytes ::
  "('url, 'id, 'addr, 'ticket, 'key, 'z) iroh_identity_api_scheme \<Rightarrow> bool \<Rightarrow> bool \<Rightarrow> string
     \<Rightarrow> bytes nif_result" where
  "endpoint_ticket_text_to_bytes api unwinds allocated text =
     guarded (guarded_call unwinds
       (if length text > MAX_TICKET_TEXT_BYTES
        then Inl (invalid At_endpoint_ticket ''endpoint ticket is too large'')
        else bind_result
               (ok_or (ticket_of_str api text) (invalid At_endpoint_ticket ''endpoint ticket is invalid''))
               (\<lambda>ticket. allocate_binary allocated (ticket_encode_bytes api ticket) At_endpoint_ticket)))
       (native_error At_internal At_endpoint_ticket ''native operation failed internally'')"

section \<open>A concrete library\<close>

text \<open>
  A small library for worked instances: identifiers and keys are their 32 bytes, printed one
  character per byte; an address is its parts, a ticket is an address, and only the empty
  address has a text form.
\<close>

definition bytes_to_text :: "bytes \<Rightarrow> string" where
  "bytes_to_text bs = map (\<lambda>b. char_of (unat b)) bs"

type_synonym demo_addr = "bytes \<times> string transport_addr list"

definition demo_api :: "(string, bytes, demo_addr, demo_addr, bytes) iroh_identity_api" where
  "demo_api =
     \<lparr>url_from_str = Some, url_scheme = (\<lambda>_. ''https''), url_host_str = Some,
      url_username = (\<lambda>_. []), url_password = (\<lambda>_. None), url_query = (\<lambda>_. None),
      url_fragment = (\<lambda>_. None), url_to_string = (\<lambda>u. u),
      id_of_bytes = Some, id_of_str = (\<lambda>s. if length s = 32 then Some (as_bytes s) else None),
      id_to_string = bytes_to_text, id_as_bytes = (\<lambda>i. i),
      addr_from_parts = Pair, addr_id = fst,
      addr_relay_urls = (\<lambda>(_, ts). [u. Relay u \<leftarrow> ts]), addr_ip_addrs = (\<lambda>(_, ts). [a. Ip a \<leftarrow> ts]),
      addr_is_empty = (\<lambda>(_, ts). ts = []),
      ticket_new = (\<lambda>a. a), ticket_addr = (\<lambda>a. a),
      ticket_to_string = (\<lambda>(i, _). bytes_to_text i),
      ticket_of_str = (\<lambda>s. if length s = 32 then Some (as_bytes s, []) else None),
      ticket_encode_bytes = fst, ticket_decode_bytes = (\<lambda>bs. Some (bs, [])),
      key_of_bytes = (\<lambda>bs. bs), key_to_bytes = (\<lambda>k. k), key_public = (\<lambda>k. k)\<rparr>"

end
