(* ===== verification/Rust_Str.thy ===== *)
theory Rust_Str
  imports Prelude
begin

text \<open>
  \<open>String::from_utf8_lossy\<close> of the Rust standard library: well-formed sequences are kept and
  every maximal ill-formed prefix is replaced by one U+FFFD.
\<close>

text \<open>
  The permitted range of the second byte and the length of the sequence, by its first byte
  (\<open>None\<close> when no sequence starts with it).
\<close>

definition utf8_lead :: "nat \<Rightarrow> (nat \<times> nat \<times> nat) option" where
  "utf8_lead b =
     (if 0xC2 \<le> b \<and> b \<le> 0xDF then Some (2, 0x80, 0xBF)
      else if b = 0xE0 then Some (3, 0xA0, 0xBF)
      else if 0xE1 \<le> b \<and> b \<le> 0xEC \<or> b = 0xEE \<or> b = 0xEF then Some (3, 0x80, 0xBF)
      else if b = 0xED then Some (3, 0x80, 0x9F)
      else if b = 0xF0 then Some (4, 0x90, 0xBF)
      else if 0xF1 \<le> b \<and> b \<le> 0xF3 then Some (4, 0x80, 0xBF)
      else if b = 0xF4 then Some (4, 0x80, 0x8F)
      else None)"

text \<open>The number of continuation bytes present, of at most \<open>n\<close>; the first has its own range.\<close>

fun utf8_tail :: "nat \<Rightarrow> nat \<Rightarrow> nat \<Rightarrow> nat list \<Rightarrow> nat" where
  "utf8_tail 0 lo hi bs = 0"
| "utf8_tail (Suc n) lo hi [] = 0"
| "utf8_tail (Suc n) lo hi (b # bs) =
     (if lo \<le> b \<and> b \<le> hi then Suc (utf8_tail n 0x80 0xBF bs) else 0)"

definition replacement_char :: "nat list" where
  "replacement_char = [0xEF, 0xBF, 0xBD]"

function utf8_lossy :: "nat list \<Rightarrow> nat list" where
  "utf8_lossy bs =
     (case bs of
        [] \<Rightarrow> []
      | b # rest \<Rightarrow>
          if b < 0x80 then b # utf8_lossy rest
          else (case utf8_lead b of
                  None \<Rightarrow> replacement_char @ utf8_lossy rest
                | Some (len, lo, hi) \<Rightarrow>
                    let k = utf8_tail (len - 1) lo hi rest
                    in if k = len - 1 then b # take k rest @ utf8_lossy (drop k rest)
                       else replacement_char @ utf8_lossy (drop k rest)))"
  by pat_completeness auto
termination
  by (relation "measure length") auto

declare utf8_lossy.simps [simp del]

definition from_utf8_lossy :: "bytes \<Rightarrow> string" where
  "from_utf8_lossy bs = map char_of (utf8_lossy (map unat bs))"

lemma utf8_lossy_ascii: "\<forall>b\<in>set bs. b < 0x80 \<Longrightarrow> utf8_lossy bs = bs"
  by (induction bs) (simp_all add: utf8_lossy.simps [of "_ # _"] utf8_lossy.simps [of "[]"])

end
