(* ===== verification/Connection.thy ===== *)
theory Connection
  imports Endpoint Identity Rust_Str
begin

text \<open>
  Connection resources, dialling and admission:
  \<^verbatim>\<open>native/iroh_beam_nif/src/connection.rs\<close>.
\<close>

section \<open>State\<close>

datatype ConnectionRole = Outgoing | Incoming

record native_dial_target =
  dt_endpoint_id :: string
  dt_relay_urls :: "string list"
  dt_ip_addrs :: "string list"

text \<open>
  \<open>cr_owner\<close> is the monitored process and \<open>cr_dropped\<close> records that the destructor has run.
\<close>

record connection_resource =
  cr_connection :: handle
  cr_endpoint :: endpoint_ix
  cr_remote_id :: string
  cr_alpn :: string
  cr_role :: ConnectionRole
  cr_released :: bool
  cr_datagram_send_busy :: bool
  cr_datagram_recv_busy :: bool
  cr_owner :: pid
  cr_dropped :: bool

record ('a, 'b) conn_state = "('a, 'b) ep_state" +
  cn_connections :: "connection_resource list"
  cn_active_connections :: usize

section \<open>Operations on one resource\<close>

definition ConnectionResource_connection :: "connection_resource \<Rightarrow> handle option" where
  "ConnectionResource_connection self = (if \<not> cr_released self then Some (cr_connection self) else None)"

definition ConnectionResource_begin_datagram_send :: "connection_resource \<Rightarrow> bool \<times> connection_resource" where
  "ConnectionResource_begin_datagram_send self =
     (let (r, busy) = compare_exchange (cr_datagram_send_busy self) False True
      in (is_ok r, self\<lparr>cr_datagram_send_busy := busy\<rparr>))"

definition ConnectionResource_finish_datagram_send :: "connection_resource \<Rightarrow> connection_resource" where
  "ConnectionResource_finish_datagram_send self = self\<lparr>cr_datagram_send_busy := False\<rparr>"

definition ConnectionResource_begin_datagram_recv :: "connection_resource \<Rightarrow> bool \<times> connection_resource" where
  "ConnectionResource_begin_datagram_recv self =
     (let (r, busy) = compare_exchange (cr_datagram_recv_busy self) False True
      in (is_ok r, self\<lparr>cr_datagram_recv_busy := busy\<rparr>))"

definition ConnectionResource_finish_datagram_recv :: "connection_resource \<Rightarrow> connection_resource" where
  "ConnectionResource_finish_datagram_recv self = self\<lparr>cr_datagram_recv_busy := False\<rparr>"

text \<open>Each datagram direction has a busy flag.\<close>

interpretation datagram_sending: busy_flag ConnectionResource_begin_datagram_send
  ConnectionResource_finish_datagram_send cr_datagram_send_busy
  by unfold_locales
     (simp_all add: ConnectionResource_begin_datagram_send_def ConnectionResource_finish_datagram_send_def
       compare_exchange_def)

interpretation datagram_receiving: busy_flag ConnectionResource_begin_datagram_recv
  ConnectionResource_finish_datagram_recv cr_datagram_recv_busy
  by unfold_locales
     (simp_all add: ConnectionResource_begin_datagram_recv_def ConnectionResource_finish_datagram_recv_def
       compare_exchange_def)

definition set_connection ::
  "connection_ix \<Rightarrow> connection_resource \<Rightarrow> ('a, 'b, 'z) conn_state_scheme \<Rightarrow> ('a, 'b, 'z) conn_state_scheme" where
  "set_connection ix self w = w\<lparr>cn_connections := (cn_connections w)[ix := self]\<rparr>"

definition ConnectionResource_close ::
  "connection_ix \<Rightarrow> ('a, 'b, 'z) conn_state_scheme \<Rightarrow> bool \<times> ('a, 'b, 'z) conn_state_scheme" where
  "ConnectionResource_close ix w =
     (let self = cn_connections w ! ix
      in if \<not> cr_released self
         then
           let w = set_connection ix (self\<lparr>cr_released := True\<rparr>) w;
               w = log_net [Net_connection_close (cr_connection self)] w;
               w = set_endpoint (cr_endpoint self)
                     (EndpointResource_release_connection (ep_endpoints w ! cr_endpoint self)) w
           in (True, w\<lparr>cn_active_connections := cn_active_connections w - 1\<rparr>)
         else (False, w))"

definition ConnectionResource_drop ::
  "connection_ix \<Rightarrow> ('a, 'b, 'z) conn_state_scheme \<Rightarrow> ('a, 'b, 'z) conn_state_scheme" where
  "ConnectionResource_drop ix w =
     (let w = snd (ConnectionResource_close ix w)
      in set_connection ix ((cn_connections w ! ix)\<lparr>cr_dropped := True\<rparr>) w)"

definition ConnectionResource_down ::
  "connection_ix \<Rightarrow> ('a, 'b, 'z) conn_state_scheme \<Rightarrow> ('a, 'b, 'z) conn_state_scheme" where
  "ConnectionResource_down ix w = snd (ConnectionResource_close ix w)"

text \<open>\<open>AcceptPermit\<close>: dropping it ends the pending accept.\<close>

definition AcceptPermit_drop ::
  "endpoint_ix \<Rightarrow> ('a, 'b, 'z) ep_state_scheme \<Rightarrow> ('a, 'b, 'z) ep_state_scheme" where
  "AcceptPermit_drop ix w = set_endpoint ix (EndpointResource_finish_accept (ep_endpoints w ! ix)) w"

section \<open>Wrapping a connection\<close>

definition connection_error :: "atom \<Rightarrow> atom \<Rightarrow> string \<Rightarrow> NativeError" where
  "connection_error category operation message = native_error category operation message"

definition parse_target ::
  "('url, 'id, 'addr, 'ticket, 'key, 'y) iroh_identity_api_scheme \<Rightarrow> native_dial_target \<Rightarrow> 'addr nif_result" where
  "parse_target api target =
     (case id_of_str api (dt_endpoint_id target) of
        None \<Rightarrow> Inl (connection_error At_invalid_argument At_connection_connect
                  ''dial target endpoint ID is invalid'')
      | Some endpoint_id \<Rightarrow>
          map_err (\<lambda>_. connection_error At_invalid_argument At_connection_connect
                     ''dial target address is invalid'')
            (build_addr api (id_as_bytes api endpoint_id) (dt_relay_urls target) (dt_ip_addrs target)))"

definition ConnectionResource_new ::
  "iroh_api \<Rightarrow> handle \<Rightarrow> endpoint_ix \<Rightarrow> pid \<Rightarrow> ConnectionRole \<Rightarrow> connection_resource" where
  "ConnectionResource_new iroh connection endpoint owner role =
     \<lparr>cr_connection = connection, cr_endpoint = endpoint,
      cr_remote_id = api_remote_id iroh connection,
      cr_alpn = from_utf8_lossy (api_alpn iroh connection), cr_role = role,
      cr_released = False, cr_datagram_send_busy = False, cr_datagram_recv_busy = False,
      cr_owner = owner, cr_dropped = False\<rparr>"

text \<open>
  \<open>wrap_connection\<close>. When the owner is gone the resource is closed and, as nothing else
  refers to it, dropped.
\<close>

definition wrap_connection ::
  "iroh_api \<Rightarrow> handle \<Rightarrow> endpoint_ix \<Rightarrow> pid \<Rightarrow> ConnectionRole \<Rightarrow> atom
     \<Rightarrow> ('a, 'b, 'z) conn_state_scheme \<Rightarrow> connection_ix nif_result \<times> ('a, 'b, 'z) conn_state_scheme" where
  "wrap_connection iroh connection endpoint owner role operation w =
     (case EndpointResource_claim_connection (ep_endpoints w ! endpoint) of
        (False, _) \<Rightarrow>
          (Inl (connection_error At_capacity operation ''endpoint connection limit is reached''),
           log_net [Net_connection_close connection] w)
      | (True, self) \<Rightarrow>
          let w = set_endpoint endpoint self w;
              ix = length (cn_connections w);
              w = w\<lparr>cn_active_connections := cn_active_connections w + 1,
                    cn_connections := cn_connections w @
                      [ConnectionResource_new iroh connection endpoint owner role]\<rparr>
          in if owner \<notin> rt_alive w
             then (Inl (connection_error At_cancelled operation ''connection owner is no longer available''),
                   ConnectionResource_drop ix (snd (ConnectionResource_close ix w)))
             else (Inr ix, w))"

section \<open>Dialling\<close>

definition connect_alpn_invalid :: "string \<Rightarrow> bool" where
  "connect_alpn_invalid alpn \<longleftrightarrow> alpn = [] \<or> length alpn > 255 \<or> 0 \<in> set (as_bytes alpn)"

definition connection_connect_start ::
  "bool \<Rightarrow> ('url, 'id, 'addr, 'ticket, 'key, 'y) iroh_identity_api_scheme \<Rightarrow> pid \<Rightarrow> pid \<Rightarrow> reference
     \<Rightarrow> endpoint_ix \<Rightarrow> native_dial_target \<Rightarrow> string \<Rightarrow> ('addr, 'b, 'z) conn_state_scheme
     \<Rightarrow> op_ix nif_result \<times> ('addr, 'b, 'z) conn_state_scheme" where
  "connection_connect_start builds api caller owner operation_ref endpoint target alpn w =
     (if connect_alpn_invalid alpn
      then (Inl (connection_error At_invalid_argument At_connection_connect ''ALPN is invalid''), w)
      else case parse_target api target of
             Inl e \<Rightarrow> (Inl e, w)
           | Inr target \<Rightarrow>
               if addr_is_empty api target
                  \<and> \<not> EndpointResource_address_lookup_enabled (ep_endpoints w ! endpoint)
               then (Inl (connection_error At_resolution At_connection_connect
                       ''endpoint ID has no configured address information''), w)
               else case EndpointResource_endpoint (ep_endpoints w ! endpoint) of
                      None \<Rightarrow> (Inl (connection_error At_closed At_connection_connect
                                ''endpoint is closed''), w)
                    | Some value \<Rightarrow>
                        start_endpoint_operation builds caller operation_ref At_connection_connect
                          (Fut_connect value target alpn endpoint owner) w)"

definition poll_connect ::
  "iroh_api \<Rightarrow> handle option \<Rightarrow> endpoint_ix \<Rightarrow> pid \<Rightarrow> ('a, 'b, 'z) conn_state_scheme
     \<Rightarrow> ('a, 'b, ('a, 'b, 'z) conn_state_scheme) resumption" where
  "poll_connect iroh connected endpoint owner w =
     (case connected of
        None \<Rightarrow> finish_block (Inl (connection_error At_refused At_connection_connect
                  ''connection handshake failed'')) w
      | Some connection \<Rightarrow>
          (case wrap_connection iroh connection endpoint owner Outgoing At_connection_connect w of
             (r, w) \<Rightarrow> finish_block (map_result R_connection r) w))"

section \<open>Accepting\<close>

definition connection_accept_start ::
  "bool \<Rightarrow> ('url, 'id, 'addr, 'ticket, 'key, 'y) iroh_identity_api_scheme \<Rightarrow> pid \<Rightarrow> pid \<Rightarrow> reference
     \<Rightarrow> endpoint_ix \<Rightarrow> bool \<Rightarrow> string list \<Rightarrow> ('a, 'b, 'z) conn_state_scheme
     \<Rightarrow> op_ix nif_result \<times> ('a, 'b, 'z) conn_state_scheme" where
  "connection_accept_start builds api caller owner operation_ref endpoint allow_all allowed_ids w =
     (case collect_results (\<lambda>text. map_result (id_to_string api) (ok_or (id_of_str api text) ()))
             allowed_ids of
        Inl _ \<Rightarrow> (Inl (connection_error At_invalid_argument At_connection_accept
                   ''peer allowlist is invalid''), w)
      | Inr allowed_ids \<Rightarrow>
          case EndpointResource_begin_accept (ep_endpoints w ! endpoint) of
            (False, _) \<Rightarrow> (Inl (connection_error At_busy At_connection_accept
                            ''an endpoint accept is already pending''), w)
          | (True, self) \<Rightarrow>
              let w = set_endpoint endpoint self w
              in case EndpointResource_endpoint (ep_endpoints w ! endpoint) of
                   None \<Rightarrow> (Inl (connection_error At_closed At_connection_accept ''endpoint is closed''),
                            AcceptPermit_drop endpoint w)
                 | Some value \<Rightarrow>
                     (case start_endpoint_operation builds caller operation_ref At_connection_accept
                             (Fut_accept value endpoint allow_all (set allowed_ids) owner) w of
                        (Inl e, w) \<Rightarrow> (Inl e, AcceptPermit_drop endpoint w)
                      | (Inr ix, w) \<Rightarrow> (Inr ix, w)))"

text \<open>
  The block up to the handshake and after it. On every exit the permit is dropped, after
  the block's result has been computed.
\<close>

definition poll_accept ::
  "bool option \<Rightarrow> handle \<Rightarrow> endpoint_ix \<Rightarrow> bool \<Rightarrow> string set \<Rightarrow> pid \<Rightarrow> ('a, 'b, 'z) conn_state_scheme
     \<Rightarrow> ('a, 'b, ('a, 'b, 'z) conn_state_scheme) resumption" where
  "poll_accept incoming value endpoint allow_all allowed_ids owner w =
     (case incoming of
        None \<Rightarrow> finish_block (Inl (connection_error At_closed At_connection_accept
                  ''endpoint closed while accepting'')) (AcceptPermit_drop endpoint w)
      | Some False \<Rightarrow> finish_block (Inl (connection_error At_refused At_connection_accept
                  ''incoming connection was refused'')) (AcceptPermit_drop endpoint w)
      | Some True \<Rightarrow> Some (Inl (Fut_accepting value endpoint allow_all allowed_ids owner), w))"

definition poll_accepting ::
  "iroh_api \<Rightarrow> handle option \<Rightarrow> endpoint_ix \<Rightarrow> bool \<Rightarrow> string set \<Rightarrow> pid \<Rightarrow> ('a, 'b, 'z) conn_state_scheme
     \<Rightarrow> ('a, 'b, ('a, 'b, 'z) conn_state_scheme) resumption" where
  "poll_accepting iroh handshake endpoint allow_all allowed_ids owner w =
     (case handshake of
        None \<Rightarrow> finish_block (Inl (connection_error At_refused At_connection_accept
                  ''incoming handshake failed'')) (AcceptPermit_drop endpoint w)
      | Some connection \<Rightarrow>
          let remote_id = api_remote_id iroh connection
          in if \<not> allow_all \<and> remote_id \<notin> allowed_ids
             then finish_block (Inl (connection_error At_unauthorized At_connection_accept
                    ''authenticated peer is not allowed''))
                    (AcceptPermit_drop endpoint (log_net [Net_connection_close connection] w))
             else (case wrap_connection iroh connection endpoint owner Incoming At_connection_accept w of
                     (r, w) \<Rightarrow> finish_block (map_result R_connection r) (AcceptPermit_drop endpoint w)))"

section \<open>Queries and closing\<close>

record ConnectionInfo =
  ci_remote_id :: string
  ci_alpn :: string
  ci_side :: atom
  ci_role :: atom
  ci_stable_id :: usize
  ci_closed :: bool

definition info_value :: "iroh_api \<Rightarrow> connection_resource \<Rightarrow> ConnectionInfo" where
  "info_value iroh self =
     \<lparr>ci_remote_id = cr_remote_id self, ci_alpn = cr_alpn self,
      ci_side = (if api_is_client iroh (cr_connection self) then At_client else At_server),
      ci_role = (case cr_role self of Outgoing \<Rightarrow> At_outgoing | Incoming \<Rightarrow> At_incoming),
      ci_stable_id = api_stable_id iroh (cr_connection self),
      ci_closed = (cr_released self \<or> api_close_reason iroh (cr_connection self))\<rparr>"

definition connection_info :: "iroh_api \<Rightarrow> connection_resource \<Rightarrow> ConnectionInfo nif_result" where
  "connection_info iroh self = Inr (info_value iroh self)"

record path_info =
  pi_kind :: atom
  pi_remote :: string
  pi_rtt_microseconds :: u64
  pi_selected :: bool

text \<open>\<open>as_micros().try_into().unwrap_or(u64::MAX)\<close>\<close>

definition saturate_u64 :: "nat \<Rightarrow> u64" where
  "saturate_u64 n = (if n < 2 ^ 64 then of_nat n else - 1)"

definition connection_path :: "iroh_api \<Rightarrow> connection_resource \<Rightarrow> path_info option nif_result" where
  "connection_path iroh self =
     Inr (map_option
       (\<lambda>path. \<lparr>pi_kind = (if pv_is_ip path then At_direct
                            else if pv_is_relay path then At_relay else At_unknown),
                pi_remote = pv_remote_addr path,
                pi_rtt_microseconds = saturate_u64 (pv_rtt_micros path),
                pi_selected = True\<rparr>)
       (find pv_is_selected (api_paths iroh (cr_connection self))))"

definition connection_close ::
  "connection_ix \<Rightarrow> ('a, 'b, 'z) conn_state_scheme \<Rightarrow> bool \<times> ('a, 'b, 'z) conn_state_scheme" where
  "connection_close ix w = ConnectionResource_close ix w"

definition connection_closed_start ::
  "bool \<Rightarrow> pid \<Rightarrow> reference \<Rightarrow> connection_ix \<Rightarrow> ('a, 'b, 'z) conn_state_scheme
     \<Rightarrow> op_ix nif_result \<times> ('a, 'b, 'z) conn_state_scheme" where
  "connection_closed_start builds caller operation_ref ix w =
     start_endpoint_operation builds caller operation_ref At_connection_closed
       (Fut_closed (cr_connection (cn_connections w ! ix)) ix) w"

definition poll_closed ::
  "connection_ix \<Rightarrow> ('a, 'b, 'z) conn_state_scheme \<Rightarrow> ('a, 'b, ('a, 'b, 'z) conn_state_scheme) resumption" where
  "poll_closed ix w =
     finish_block (Inr (R_atom At_closed)) (snd (ConnectionResource_close ix w))"

definition connection_close_reason :: "iroh_api \<Rightarrow> connection_resource \<Rightarrow> atom option nif_result" where
  "connection_close_reason iroh self =
     (if api_close_reason iroh (cr_connection self) \<or> cr_released self
      then Inr (Some At_closed) else Inr None)"

definition connection_snapshot :: "('a, 'b, 'z) conn_state_scheme \<Rightarrow> usize nif_result" where
  "connection_snapshot w = Inr (cn_active_connections w)"

end
