(* ===== verification/Stream_Half.thy ===== *)
theory Stream_Half
  imports Connection
begin

text \<open>
  Stream resources and their two halves, from
  \<^verbatim>\<open>native/iroh_beam_nif/src/stream.rs\<close>: creation, the leases that give one operation at a
  time exclusive use of a half, resetting, stopping, finishing and closing.
\<close>

section \<open>State\<close>

definition NO_ABORT :: u64 where
  "NO_ABORT = - 1"

definition MAX_ABORT_CODE :: u64 where
  "MAX_ABORT_CODE = push_bit 62 1 - 1"

text \<open>
  \<open>sr_reset_notify\<close> and \<open>sr_stop_notify\<close> are the permits stored in the two \<open>Notify\<close> cells;
  \<open>sr_owner\<close> is the monitored process and \<open>sr_dropped\<close> records that the destructor has run.
\<close>

record stream_resource =
  sr_send :: "handle option mutex"
  sr_recv :: "handle option mutex"
  sr_connection :: connection_ix
  sr_id :: u64
  sr_send_busy :: bool
  sr_recv_busy :: bool
  sr_send_closed :: bool
  sr_recv_closed :: bool
  sr_reset_code :: u64
  sr_stop_code :: u64
  sr_reset_notify :: bool
  sr_stop_notify :: bool
  sr_released :: bool
  sr_owner :: pid
  sr_dropped :: bool

record ('a, 'b) nif_state = "('a, 'b) conn_state" +
  st_streams :: "stream_resource list"
  st_active_streams :: usize
  st_queued_bytes :: usize
  st_peak_queued_bytes :: usize

section \<open>Operations on one resource\<close>

text \<open>
  Operations that touch an Iroh stream also return the calls made on it. \<open>Net_send_drop\<close> and
  \<open>Net_recv_drop\<close> record a stream value that goes out of scope, except directly after the call
  that reset, stopped or finished it.

  The definitions give what the body of a function does when it runs without interruption. The
  bodies of \<open>take_send\<close>, \<open>SendLease::drop\<close> and \<open>request_reset\<close> are several atomic operations;
  \<open>Lease_Race\<close> has them one by one, shows that alone they add up to these definitions
  (\<open>take_send_moves\<close>, \<open>SendLease_release_moves\<close>, \<open>request_reset_moves\<close>), and what more they can do
  when they interleave.
\<close>

definition StreamResource_request_reset ::
  "iroh_api \<Rightarrow> u64 \<Rightarrow> stream_resource \<Rightarrow> net_event list \<times> stream_resource" where
  "StreamResource_request_reset iroh code self =
     (let self = self\<lparr>sr_reset_code := code, sr_send_closed := True, sr_reset_notify := True\<rparr>;
          (stream, slot) = mutex_take (sr_send self);
          self = self\<lparr>sr_send := slot\<rparr>
      in case stream of
           None \<Rightarrow> ([], self)
         | Some h \<Rightarrow>
             (case api_varint_from_u64 iroh code of
                None \<Rightarrow> ([Net_send_drop h], self)
              | Some c \<Rightarrow> ([Net_stream_reset h c], self)))"

definition StreamResource_request_stop ::
  "iroh_api \<Rightarrow> u64 \<Rightarrow> stream_resource \<Rightarrow> net_event list \<times> stream_resource" where
  "StreamResource_request_stop iroh code self =
     (let self = self\<lparr>sr_stop_code := code, sr_recv_closed := True, sr_stop_notify := True\<rparr>;
          (stream, slot) = mutex_take (sr_recv self);
          self = self\<lparr>sr_recv := slot\<rparr>
      in case stream of
           None \<Rightarrow> ([], self)
         | Some h \<Rightarrow>
             (case api_varint_from_u64 iroh code of
                None \<Rightarrow> ([Net_recv_drop h], self)
              | Some c \<Rightarrow> ([Net_stream_stop h c], self)))"

definition stream_error :: "atom \<Rightarrow> atom \<Rightarrow> string \<Rightarrow> NativeError" where
  "stream_error operation category message = native_error category operation message"

definition take_send :: "atom \<Rightarrow> stream_resource \<Rightarrow> handle nif_result \<times> stream_resource" where
  "take_send operation self =
     (if sr_send_closed self
      then (Inl (stream_error operation At_closed ''send half is closed''), self)
      else case compare_exchange (sr_send_busy self) False True of
             (Inl _, _) \<Rightarrow> (Inl (stream_error operation At_busy ''send half is busy''), self)
           | (Inr _, busy) \<Rightarrow>
               let self = self\<lparr>sr_send_busy := busy\<rparr>;
                   (stream, slot) = mutex_take (sr_send self);
                   self = self\<lparr>sr_send := slot\<rparr>
               in case stream of
                    Some h \<Rightarrow> (Inr h, self)
                  | None \<Rightarrow> (Inl (stream_error operation At_closed ''send half is unavailable''),
                             self\<lparr>sr_send_busy := False\<rparr>))"

definition take_recv :: "atom \<Rightarrow> stream_resource \<Rightarrow> handle nif_result \<times> stream_resource" where
  "take_recv operation self =
     (if sr_recv_closed self
      then (Inl (stream_error operation At_closed ''receive half is closed''), self)
      else case compare_exchange (sr_recv_busy self) False True of
             (Inl _, _) \<Rightarrow> (Inl (stream_error operation At_busy ''receive half is busy''), self)
           | (Inr _, busy) \<Rightarrow>
               let self = self\<lparr>sr_recv_busy := busy\<rparr>;
                   (stream, slot) = mutex_take (sr_recv self);
                   self = self\<lparr>sr_recv := slot\<rparr>
               in case stream of
                    Some h \<Rightarrow> (Inr h, self)
                  | None \<Rightarrow> (Inl (stream_error operation At_closed ''receive half is unavailable''),
                             self\<lparr>sr_recv_busy := False\<rparr>))"

text \<open>
  \<open>SendLease::drop\<close> and \<open>RecvLease::drop\<close>: the busy flag is cleared and the stream goes back
  into its slot unless the half has been closed meanwhile. This is the uninterrupted run; between
  its load of \<open>send_closed\<close> and its lock other threads may run (\<open>SendLease_drop_move\<close>).
\<close>

definition SendLease_release :: "handle \<Rightarrow> stream_resource \<Rightarrow> net_event list \<times> stream_resource" where
  "SendLease_release stream self =
     (let self = self\<lparr>sr_send_busy := False\<rparr>
      in if \<not> sr_send_closed self
         then (case mutex_lock (sr_send self) of
                 Some _ \<Rightarrow> ([], self\<lparr>sr_send := mutex_set (Some stream) (sr_send self)\<rparr>)
               | None \<Rightarrow> ([Net_send_drop stream], self))
         else ([Net_send_drop stream], self))"

definition RecvLease_release :: "handle \<Rightarrow> stream_resource \<Rightarrow> net_event list \<times> stream_resource" where
  "RecvLease_release stream self =
     (let self = self\<lparr>sr_recv_busy := False\<rparr>
      in if \<not> sr_recv_closed self
         then (case mutex_lock (sr_recv self) of
                 Some _ \<Rightarrow> ([], self\<lparr>sr_recv := mutex_set (Some stream) (sr_recv self)\<rparr>)
               | None \<Rightarrow> ([Net_recv_drop stream], self))
         else ([Net_recv_drop stream], self))"

section \<open>Operations on the table\<close>

definition set_stream ::
  "stream_ix \<Rightarrow> stream_resource \<Rightarrow> ('a, 'b, 'z) nif_state_scheme \<Rightarrow> ('a, 'b, 'z) nif_state_scheme" where
  "set_stream ix self w = w\<lparr>st_streams := (st_streams w)[ix := self]\<rparr>"

text \<open>Apply an operation to one resource and log its calls.\<close>

definition on_stream ::
  "stream_ix \<Rightarrow> (stream_resource \<Rightarrow> net_event list \<times> stream_resource)
     \<Rightarrow> ('a, 'b, 'z) nif_state_scheme \<Rightarrow> ('a, 'b, 'z) nif_state_scheme" where
  "on_stream ix f w =
     (case f (st_streams w ! ix) of (events, self) \<Rightarrow> log_net events (set_stream ix self w))"

definition StreamResource_close ::
  "iroh_api \<Rightarrow> stream_ix \<Rightarrow> ('a, 'b, 'z) nif_state_scheme \<Rightarrow> bool \<times> ('a, 'b, 'z) nif_state_scheme" where
  "StreamResource_close iroh ix w =
     (let self = st_streams w ! ix
      in if sr_released self then (False, w)
         else
           let w = set_stream ix (self\<lparr>sr_released := True\<rparr>) w;
               w = on_stream ix (StreamResource_request_reset iroh 0) w;
               w = on_stream ix (StreamResource_request_stop iroh 0) w
           in (True, w\<lparr>st_active_streams := st_active_streams w - 1\<rparr>))"

definition StreamResource_drop ::
  "iroh_api \<Rightarrow> stream_ix \<Rightarrow> ('a, 'b, 'z) nif_state_scheme \<Rightarrow> ('a, 'b, 'z) nif_state_scheme" where
  "StreamResource_drop iroh ix w =
     (let w = snd (StreamResource_close iroh ix w)
      in set_stream ix ((st_streams w ! ix)\<lparr>sr_dropped := True\<rparr>) w)"

definition StreamResource_down ::
  "iroh_api \<Rightarrow> stream_ix \<Rightarrow> ('a, 'b, 'z) nif_state_scheme \<Rightarrow> ('a, 'b, 'z) nif_state_scheme" where
  "StreamResource_down iroh ix w = snd (StreamResource_close iroh ix w)"

definition SendLease_drop ::
  "stream_ix \<Rightarrow> handle \<Rightarrow> ('a, 'b, 'z) nif_state_scheme \<Rightarrow> ('a, 'b, 'z) nif_state_scheme" where
  "SendLease_drop ix stream w = on_stream ix (SendLease_release stream) w"

definition RecvLease_drop ::
  "stream_ix \<Rightarrow> handle \<Rightarrow> ('a, 'b, 'z) nif_state_scheme \<Rightarrow> ('a, 'b, 'z) nif_state_scheme" where
  "RecvLease_drop ix stream w = on_stream ix (RecvLease_release stream) w"

section \<open>Creation\<close>

definition StreamResource_new ::
  "handle option \<Rightarrow> handle option \<Rightarrow> connection_ix \<Rightarrow> u64 \<Rightarrow> pid \<Rightarrow> stream_resource" where
  "StreamResource_new send recv connection i owner =
     \<lparr>sr_send = mutex_new send, sr_recv = mutex_new recv, sr_connection = connection, sr_id = i,
      sr_send_busy = False, sr_recv_busy = False, sr_send_closed = False, sr_recv_closed = False,
      sr_reset_code = NO_ABORT, sr_stop_code = NO_ABORT, sr_reset_notify = False,
      sr_stop_notify = False, sr_released = False, sr_owner = owner, sr_dropped = False\<rparr>"

definition wrap_stream ::
  "iroh_api \<Rightarrow> handle option \<Rightarrow> handle option \<Rightarrow> connection_ix \<Rightarrow> pid \<Rightarrow> atom
     \<Rightarrow> ('a, 'b, 'z) nif_state_scheme \<Rightarrow> stream_ix nif_result \<times> ('a, 'b, 'z) nif_state_scheme" where
  "wrap_stream iroh send recv connection owner operation w =
     (case (case map_option (api_send_stream_id iroh) send of
              Some i \<Rightarrow> Some i
            | None \<Rightarrow> map_option (api_recv_stream_id iroh) recv) of
        None \<Rightarrow> (Inl (stream_error operation At_internal ''stream has no halves''), w)
      | Some i \<Rightarrow>
          let ix = length (st_streams w);
              w = w\<lparr>st_active_streams := st_active_streams w + 1,
                    st_streams := st_streams w @ [StreamResource_new send recv connection i owner]\<rparr>
          in if owner \<notin> rt_alive w
             then (Inl (stream_error operation At_cancelled ''stream owner is no longer available''),
                   StreamResource_drop iroh ix (snd (StreamResource_close iroh ix w)))
             else (Inr ix, w))"

definition connection_value :: "connection_resource \<Rightarrow> atom \<Rightarrow> handle nif_result" where
  "connection_value connection operation =
     ok_or (ConnectionResource_connection connection)
       (stream_error operation At_closed ''connection is closed'')"

fun stream_op_atom :: "stream_op \<Rightarrow> atom" where
  "stream_op_atom Open_uni = At_stream_open_uni"
| "stream_op_atom Open_bi = At_stream_open_bi"
| "stream_op_atom Accept_uni = At_stream_accept_uni"
| "stream_op_atom Accept_bi = At_stream_accept_bi"

fun stream_op_failure :: "stream_op \<Rightarrow> string" where
  "stream_op_failure Open_uni = ''unidirectional stream could not be opened''"
| "stream_op_failure Open_bi = ''bidirectional stream could not be opened''"
| "stream_op_failure Accept_uni = ''unidirectional stream could not be accepted''"
| "stream_op_failure Accept_bi = ''bidirectional stream could not be accepted''"

text \<open>The common body of the four stream constructors.\<close>

definition stream_start ::
  "stream_op \<Rightarrow> bool \<Rightarrow> pid \<Rightarrow> pid \<Rightarrow> reference \<Rightarrow> connection_ix \<Rightarrow> ('a, 'b, 'z) nif_state_scheme
     \<Rightarrow> op_ix nif_result \<times> ('a, 'b, 'z) nif_state_scheme" where
  "stream_start kind builds caller owner operation_ref connection w =
     (case connection_value (cn_connections w ! connection) (stream_op_atom kind) of
        Inl e \<Rightarrow> (Inl e, w)
      | Inr value \<Rightarrow>
          start_endpoint_operation builds caller operation_ref (stream_op_atom kind)
            (Fut_stream kind value connection owner) w)"

definition stream_open_uni_start ::
  "bool \<Rightarrow> pid \<Rightarrow> pid \<Rightarrow> reference \<Rightarrow> connection_ix \<Rightarrow> ('a, 'b, 'z) nif_state_scheme
     \<Rightarrow> op_ix nif_result \<times> ('a, 'b, 'z) nif_state_scheme" where
  "stream_open_uni_start = stream_start Open_uni"

definition stream_open_bi_start ::
  "bool \<Rightarrow> pid \<Rightarrow> pid \<Rightarrow> reference \<Rightarrow> connection_ix \<Rightarrow> ('a, 'b, 'z) nif_state_scheme
     \<Rightarrow> op_ix nif_result \<times> ('a, 'b, 'z) nif_state_scheme" where
  "stream_open_bi_start = stream_start Open_bi"

definition stream_accept_uni_start ::
  "bool \<Rightarrow> pid \<Rightarrow> pid \<Rightarrow> reference \<Rightarrow> connection_ix \<Rightarrow> ('a, 'b, 'z) nif_state_scheme
     \<Rightarrow> op_ix nif_result \<times> ('a, 'b, 'z) nif_state_scheme" where
  "stream_accept_uni_start = stream_start Accept_uni"

definition stream_accept_bi_start ::
  "bool \<Rightarrow> pid \<Rightarrow> pid \<Rightarrow> reference \<Rightarrow> connection_ix \<Rightarrow> ('a, 'b, 'z) nif_state_scheme
     \<Rightarrow> op_ix nif_result \<times> ('a, 'b, 'z) nif_state_scheme" where
  "stream_accept_bi_start = stream_start Accept_bi"

text \<open>The two halves that each constructor hands to \<open>wrap_stream\<close>.\<close>

fun stream_halves :: "stream_op \<Rightarrow> handle \<times> handle \<Rightarrow> handle option \<times> handle option" where
  "stream_halves Open_uni (send, recv) = (Some send, None)"
| "stream_halves Open_bi (send, recv) = (Some send, Some recv)"
| "stream_halves Accept_uni (send, recv) = (None, Some recv)"
| "stream_halves Accept_bi (send, recv) = (Some send, Some recv)"

definition poll_stream ::
  "iroh_api \<Rightarrow> (handle \<times> handle) option \<Rightarrow> stream_op \<Rightarrow> connection_ix \<Rightarrow> pid
     \<Rightarrow> ('a, 'b, 'z) nif_state_scheme \<Rightarrow> ('a, 'b, ('a, 'b, 'z) nif_state_scheme) resumption" where
  "poll_stream iroh opened kind connection owner w =
     (case opened of
        None \<Rightarrow> finish_block (Inl (stream_error (stream_op_atom kind) At_closed (stream_op_failure kind))) w
      | Some streams \<Rightarrow>
          (case stream_halves kind streams of
             (send, recv) \<Rightarrow>
               (case wrap_stream iroh send recv connection owner (stream_op_atom kind) w of
                  (r, w) \<Rightarrow> finish_block (map_result R_stream r) w)))"

section \<open>Ending a half\<close>

definition validate_abort_code :: "iroh_api \<Rightarrow> u64 \<Rightarrow> atom \<Rightarrow> u64 nif_result" where
  "validate_abort_code iroh code operation =
     (if code > MAX_ABORT_CODE
      then Inl (stream_error operation At_invalid_argument ''abort code exceeds QUIC varint range'')
      else ok_or (api_varint_from_u64 iroh code)
             (stream_error operation At_invalid_argument ''abort code is invalid''))"

definition stream_finish ::
  "iroh_api \<Rightarrow> stream_ix \<Rightarrow> ('a, 'b, 'z) nif_state_scheme \<Rightarrow> atom nif_result \<times> ('a, 'b, 'z) nif_state_scheme" where
  "stream_finish iroh ix w =
     (let self = st_streams w ! ix
      in if sr_send_busy self
         then (Inl (stream_error At_stream_finish At_busy ''send half is busy''), w)
         else
           let self = self\<lparr>sr_send_closed := True\<rparr>;
               (stream, slot) = mutex_take (sr_send self);
               w = set_stream ix (self\<lparr>sr_send := slot\<rparr>) w
           in case stream of
                None \<Rightarrow> (Inl (stream_error At_stream_finish At_closed ''send half is closed''), w)
              | Some h \<Rightarrow>
                  if api_finish_ok iroh h
                  then (Inr At_ok, log_net [Net_stream_finish h] w)
                  else (Inl (stream_error At_stream_finish At_closed ''send half is closed''),
                        log_net [Net_send_drop h] w))"

definition stream_reset ::
  "iroh_api \<Rightarrow> stream_ix \<Rightarrow> u64 \<Rightarrow> ('a, 'b, 'z) nif_state_scheme
     \<Rightarrow> atom nif_result \<times> ('a, 'b, 'z) nif_state_scheme" where
  "stream_reset iroh ix code w =
     (case validate_abort_code iroh code At_stream_reset of
        Inl e \<Rightarrow> (Inl e, w)
      | Inr _ \<Rightarrow> (Inr At_ok, on_stream ix (StreamResource_request_reset iroh code) w))"

definition stream_stop ::
  "iroh_api \<Rightarrow> stream_ix \<Rightarrow> u64 \<Rightarrow> ('a, 'b, 'z) nif_state_scheme
     \<Rightarrow> atom nif_result \<times> ('a, 'b, 'z) nif_state_scheme" where
  "stream_stop iroh ix code w =
     (case validate_abort_code iroh code At_stream_stop of
        Inl e \<Rightarrow> (Inl e, w)
      | Inr _ \<Rightarrow> (Inr At_ok, on_stream ix (StreamResource_request_stop iroh code) w))"

definition stream_abort ::
  "iroh_api \<Rightarrow> stream_ix \<Rightarrow> u64 \<Rightarrow> ('a, 'b, 'z) nif_state_scheme \<Rightarrow> bool \<times> ('a, 'b, 'z) nif_state_scheme" where
  "stream_abort iroh ix code w =
     (if code > MAX_ABORT_CODE then (False, w)
      else
        let w = on_stream ix (StreamResource_request_reset iroh code) w;
            w = on_stream ix (StreamResource_request_stop iroh code) w
        in StreamResource_close iroh ix w)"

section \<open>Queries\<close>

record StreamInfo =
  si_id :: u64
  si_direction :: atom
  si_send :: bool
  si_recv :: bool
  si_send_closed :: bool
  si_recv_closed :: bool

definition stream_info :: "stream_resource \<Rightarrow> StreamInfo nif_result" where
  "stream_info self =
     (let send = ((case mutex_lock (sr_send self) of Some value \<Rightarrow> value \<noteq> None | None \<Rightarrow> False)
                  \<or> sr_send_busy self);
          recv = ((case mutex_lock (sr_recv self) of Some value \<Rightarrow> value \<noteq> None | None \<Rightarrow> False)
                  \<or> sr_recv_busy self);
          direction = (if send \<and> recv then At_bi else At_uni)
      in Inr \<lparr>si_id = sr_id self, si_direction = direction, si_send = send, si_recv = recv,
               si_send_closed = sr_send_closed self, si_recv_closed = sr_recv_closed self\<rparr>)"

record StreamSnapshot =
  ss_active_streams :: usize
  ss_queued_bytes :: usize
  ss_peak_queued_bytes :: usize

definition stream_snapshot :: "('a, 'b, 'z) nif_state_scheme \<Rightarrow> StreamSnapshot nif_result" where
  "stream_snapshot w =
     Inr \<lparr>ss_active_streams = st_active_streams w, ss_queued_bytes = st_queued_bytes w,
          ss_peak_queued_bytes = st_peak_queued_bytes w\<rparr>"

end
