(* ===== verification/Stream_Io.thy ===== *)
theory Stream_Io
  imports Stream_Half
begin

text \<open>
  Moving data, from \<^verbatim>\<open>native/iroh_beam_nif/src/stream.rs\<close>: the queue accounting, chunked
  sends, bounded receives and datagrams. Each asynchronous block is given by what it does
  when a library call answers.
\<close>

section \<open>Queue accounting\<close>

text \<open>
  \<open>QueueGuard::new\<close>. The exchange loop on the peak retries with the value it observed, so
  its net effect on the cell is the maximum.
\<close>

definition QueueGuard_new :: "usize \<Rightarrow> ('a, 'b, 'z) nif_state_scheme \<Rightarrow> ('a, 'b, 'z) nif_state_scheme" where
  "QueueGuard_new amount w =
     (let current = st_queued_bytes w + amount;
          peak = st_peak_queued_bytes w
      in w\<lparr>st_queued_bytes := current,
           st_peak_queued_bytes := (if current > peak then current else peak)\<rparr>)"

definition QueueGuard_drop :: "usize \<Rightarrow> ('a, 'b, 'z) nif_state_scheme \<Rightarrow> ('a, 'b, 'z) nif_state_scheme" where
  "QueueGuard_drop amount w = w\<lparr>st_queued_bytes := st_queued_bytes w - amount\<rparr>"

section \<open>Sending\<close>

definition data_len :: "bytes \<Rightarrow> usize" where
  "data_len data = usize_of (length data)"

text \<open>What goes away with the block of \<open>start_stream_send\<close>: the queue guard and the lease.\<close>

definition drop_send ::
  "stream_ix \<Rightarrow> handle \<Rightarrow> bytes \<Rightarrow> ('a, 'b, 'z) nif_state_scheme \<Rightarrow> ('a, 'b, 'z) nif_state_scheme" where
  "drop_send ix stream data w = SendLease_drop ix stream (QueueGuard_drop (data_len data) w)"

definition start_stream_send ::
  "bool \<Rightarrow> pid \<Rightarrow> reference \<Rightarrow> stream_ix \<Rightarrow> bytes \<Rightarrow> bool \<Rightarrow> usize \<Rightarrow> ('a, 'b, 'z) nif_state_scheme
     \<Rightarrow> op_ix nif_result \<times> ('a, 'b, 'z) nif_state_scheme" where
  "start_stream_send builds caller operation_ref ix data send_all chunk_size w =
     (if data = [] \<or> chunk_size = 0
      then (Inl (stream_error At_stream_send At_invalid_argument
              ''send data and chunk size must be positive''), w)
      else case take_send At_stream_send (st_streams w ! ix) of
             (Inl e, self) \<Rightarrow> (Inl e, set_stream ix self w)
           | (Inr stream, self) \<Rightarrow>
               let w = QueueGuard_new (data_len data) (set_stream ix self w)
               in (case start_endpoint_operation builds caller operation_ref At_stream_send
                          (Fut_send ix stream data 0 0 send_all chunk_size) w of
                     (Inl e, w) \<Rightarrow> (Inl e, drop_send ix stream data w)
                   | (Inr op, w) \<Rightarrow> (Inr op, w)))"

definition stream_send_start ::
  "bool \<Rightarrow> pid \<Rightarrow> reference \<Rightarrow> stream_ix \<Rightarrow> bytes \<Rightarrow> bool \<Rightarrow> usize \<Rightarrow> ('a, 'b, 'z) nif_state_scheme
     \<Rightarrow> op_ix nif_result \<times> ('a, 'b, 'z) nif_state_scheme" where
  "stream_send_start builds caller operation_ref ix data send_all chunk_size w =
     start_stream_send builds caller operation_ref ix data send_all chunk_size w"

text \<open>\<open>iolist\<close> is the result of \<open>Binary::from_iolist\<close>.\<close>

definition stream_send_iodata_start ::
  "bool \<Rightarrow> pid \<Rightarrow> reference \<Rightarrow> stream_ix \<Rightarrow> bytes option \<Rightarrow> usize \<Rightarrow> usize
     \<Rightarrow> ('a, 'b, 'z) nif_state_scheme \<Rightarrow> op_ix nif_result \<times> ('a, 'b, 'z) nif_state_scheme" where
  "stream_send_iodata_start builds caller operation_ref ix iolist expected_size max_bytes w =
     (if expected_size = 0 \<or> expected_size > max_bytes \<or> max_bytes = 0
         \<or> max_bytes > 64 * 1024 * 1024 + 4
      then (Inl (stream_error At_stream_send At_invalid_argument
              ''iodata size is outside the configured bound''), w)
      else case iolist of
             None \<Rightarrow> (Inl (stream_error At_stream_send At_invalid_argument
                       ''iodata does not match the declared size''), w)
           | Some binary \<Rightarrow>
               if data_len binary = expected_size
               then start_stream_send builds caller operation_ref ix binary True (64 * 1024) w
               else (Inl (stream_error At_stream_send At_invalid_argument
                       ''iodata does not match the declared size''), w))"

text \<open>
  The end of the chunk that starts at \<open>written\<close>, in wrapping machine arithmetic, and the
  slice \<open>data[from..to]\<close> (\<open>None\<close> where Rust panics).
\<close>

definition chunk_end :: "usize \<Rightarrow> usize \<Rightarrow> bytes \<Rightarrow> usize" where
  "chunk_end written chunk_size data = min (written + chunk_size) (data_len data)"

definition slice :: "bytes \<Rightarrow> usize \<Rightarrow> usize \<Rightarrow> bytes option" where
  "slice data from to =
     (if from \<le> to \<and> unat to \<le> length data then Some (take (unat to - unat from) (drop (unat from) data))
      else None)"

text \<open>
  \<open>write_all\<close> hands over the rest of the current chunk in one or more pieces; a piece of \<open>n\<close>
  bytes resumes the block only when it lies inside the chunk. \<open>partial\<close> counts the pieces
  of the current chunk.
\<close>

definition poll_send_all ::
  "usize \<Rightarrow> stream_ix \<Rightarrow> handle \<Rightarrow> bytes \<Rightarrow> usize \<Rightarrow> usize \<Rightarrow> usize \<Rightarrow> ('a, 'b, 'z) nif_state_scheme
     \<Rightarrow> ('a, 'b, ('a, 'b, 'z) nif_state_scheme) resumption" where
  "poll_send_all n ix stream data written partial chunk_size w =
     (case slice data written (chunk_end written chunk_size data) of
        None \<Rightarrow> Some (Inr Join_panicked, drop_send ix stream data w)
      | Some chunk \<Rightarrow>
          let rest = drop (unat partial) chunk
          in if n = 0 \<or> length rest < unat n then None
             else
               let w = log_net [Net_stream_write stream (take (unat n) rest)] w
               in if unat n < length rest
                  then Some (Inl (Fut_send ix stream data written (partial + n) True chunk_size), w)
                  else
                    let written = chunk_end written chunk_size data
                    in if written < data_len data
                       then Some (Inl (Fut_send ix stream data written 0 True chunk_size), w)
                       else finish_block (Inr (R_count (data_len data))) (drop_send ix stream data w))"

text \<open>
  The single \<open>write\<close> of a partial send reports whatever count \<open>n\<close> the transport answers with;
  the bytes that went out are the first \<open>n\<close> of the chunk.
\<close>

definition poll_send_once ::
  "usize \<Rightarrow> stream_ix \<Rightarrow> handle \<Rightarrow> bytes \<Rightarrow> usize \<Rightarrow> ('a, 'b, 'z) nif_state_scheme
     \<Rightarrow> ('a, 'b, ('a, 'b, 'z) nif_state_scheme) resumption" where
  "poll_send_once n ix stream data chunk_size w =
     (case slice data 0 (min chunk_size (data_len data)) of
        None \<Rightarrow> Some (Inr Join_panicked, drop_send ix stream data w)
      | Some chunk \<Rightarrow>
          finish_block (Inr (R_count n))
            (drop_send ix stream data (log_net [Net_stream_write stream (take (unat n) chunk)] w)))"

text \<open>The other branch of the \<open>select!\<close>: the half was reset while the block was waiting.\<close>

definition poll_send_reset ::
  "iroh_api \<Rightarrow> stream_ix \<Rightarrow> handle \<Rightarrow> bytes \<Rightarrow> ('a, 'b, 'z) nif_state_scheme
     \<Rightarrow> ('a, 'b, ('a, 'b, 'z) nif_state_scheme) resumption" where
  "poll_send_reset iroh ix stream data w =
     (let self = st_streams w ! ix
      in if \<not> sr_reset_notify self then None
         else
           let w = set_stream ix (self\<lparr>sr_reset_notify := False\<rparr>) w;
               w = (case api_varint_from_u64 iroh (sr_reset_code self) of
                      None \<Rightarrow> w
                    | Some c \<Rightarrow> log_net [Net_stream_reset stream c] w)
           in finish_block (Inl (stream_error At_stream_send At_peer_aborted ''send half was reset''))
                (drop_send ix stream data w))"

definition poll_send ::
  "iroh_api \<Rightarrow> lib_event \<Rightarrow> stream_ix \<Rightarrow> handle \<Rightarrow> bytes \<Rightarrow> usize \<Rightarrow> usize \<Rightarrow> bool \<Rightarrow> usize
     \<Rightarrow> ('a, 'b, 'z) nif_state_scheme \<Rightarrow> ('a, 'b, ('a, 'b, 'z) nif_state_scheme) resumption" where
  "poll_send iroh event ix stream data written partial send_all chunk_size w =
     (case event of
        E_write (Some n) \<Rightarrow>
          if send_all then poll_send_all n ix stream data written partial chunk_size w
          else poll_send_once n ix stream data chunk_size w
      | E_write None \<Rightarrow>
          finish_block (Inl (stream_error At_stream_send At_peer_aborted ''stream send failed''))
            (drop_send ix stream data w)
      | E_notified \<Rightarrow> poll_send_reset iroh ix stream data w
      | _ \<Rightarrow> None)"

section \<open>Receiving\<close>

definition MAX_RECV_BYTES :: usize where
  "MAX_RECV_BYTES = 16 * 1024 * 1024"

definition stream_recv_start ::
  "bool \<Rightarrow> pid \<Rightarrow> reference \<Rightarrow> stream_ix \<Rightarrow> usize \<Rightarrow> ('a, 'b, 'z) nif_state_scheme
     \<Rightarrow> op_ix nif_result \<times> ('a, 'b, 'z) nif_state_scheme" where
  "stream_recv_start builds caller operation_ref ix max_bytes w =
     (if max_bytes = 0 \<or> max_bytes > MAX_RECV_BYTES
      then (Inl (stream_error At_stream_recv At_invalid_argument
              ''receive limit must be between 1 and 16777216 bytes''), w)
      else case take_recv At_stream_recv (st_streams w ! ix) of
             (Inl e, self) \<Rightarrow> (Inl e, set_stream ix self w)
           | (Inr stream, self) \<Rightarrow>
               (case start_endpoint_operation builds caller operation_ref At_stream_recv
                       (Fut_recv ix stream max_bytes) (set_stream ix self w) of
                  (Inl e, w) \<Rightarrow> (Inl e, RecvLease_drop ix stream w)
                | (Inr op, w) \<Rightarrow> (Inr op, w)))"

text \<open>
  The block passes on whatever \<open>read_chunk(max_bytes)\<close> answers with; that the answer is not
  longer than \<open>max_bytes\<close> is Iroh's promise and is not checked by the code.
\<close>

definition poll_recv ::
  "iroh_api \<Rightarrow> lib_event \<Rightarrow> stream_ix \<Rightarrow> handle \<Rightarrow> usize
     \<Rightarrow> ('a, 'b, 'z) nif_state_scheme \<Rightarrow> ('a, 'b, ('a, 'b, 'z) nif_state_scheme) resumption" where
  "poll_recv iroh event ix stream max_bytes w =
     (case event of
        E_read (Some (Some bs)) \<Rightarrow>
          finish_block (Inr (R_read (Data bs))) (RecvLease_drop ix stream w)
      | E_read (Some None) \<Rightarrow> finish_block (Inr (R_read Eof)) (RecvLease_drop ix stream w)
      | E_read None \<Rightarrow>
          finish_block (Inl (stream_error At_stream_recv At_peer_aborted ''stream receive failed''))
            (RecvLease_drop ix stream w)
      | E_notified \<Rightarrow>
          let self = st_streams w ! ix
          in if \<not> sr_stop_notify self then None
             else
               let w = set_stream ix (self\<lparr>sr_stop_notify := False\<rparr>) w;
                   w = (case api_varint_from_u64 iroh (sr_stop_code self) of
                          None \<Rightarrow> w
                        | Some c \<Rightarrow> log_net [Net_stream_stop stream c] w)
               in finish_block (Inl (stream_error At_stream_recv At_peer_aborted ''receive half was stopped''))
                    (RecvLease_drop ix stream w)
      | _ \<Rightarrow> None)"

section \<open>Datagrams\<close>

definition DatagramPermit_drop ::
  "connection_ix \<Rightarrow> bool \<Rightarrow> ('a, 'b, 'z) nif_state_scheme \<Rightarrow> ('a, 'b, 'z) nif_state_scheme" where
  "DatagramPermit_drop ix send w =
     (let self = cn_connections w ! ix
      in set_connection ix
           (if send then ConnectionResource_finish_datagram_send self
            else ConnectionResource_finish_datagram_recv self) w)"

definition drop_datagram_send ::
  "connection_ix \<Rightarrow> bytes \<Rightarrow> ('a, 'b, 'z) nif_state_scheme \<Rightarrow> ('a, 'b, 'z) nif_state_scheme" where
  "drop_datagram_send ix data w = DatagramPermit_drop ix True (QueueGuard_drop (data_len data) w)"

definition datagram_send_start ::
  "bool \<Rightarrow> iroh_api \<Rightarrow> pid \<Rightarrow> reference \<Rightarrow> connection_ix \<Rightarrow> bytes \<Rightarrow> bool
     \<Rightarrow> ('a, 'b, 'z) nif_state_scheme \<Rightarrow> op_ix nif_result \<times> ('a, 'b, 'z) nif_state_scheme" where
  "datagram_send_start builds iroh caller operation_ref ix data wait_for_capacity w =
     (case connection_value (cn_connections w ! ix) At_datagram_send of
        Inl e \<Rightarrow> (Inl e, w)
      | Inr value \<Rightarrow>
          let max_size = (case api_max_datagram_size iroh value of None \<Rightarrow> 0 | Some n \<Rightarrow> n)
          in if data = [] \<or> data_len data > max_size
             then (Inl (stream_error At_datagram_send At_too_large
                     ''datagram is empty, unsupported, or exceeds the current maximum''), w)
             else case ConnectionResource_begin_datagram_send (cn_connections w ! ix) of
                    (False, _) \<Rightarrow> (Inl (stream_error At_datagram_send At_busy
                                    ''datagram sender is busy''), w)
                  | (True, self) \<Rightarrow>
                      let w = QueueGuard_new (data_len data) (set_connection ix self w)
                      in (case start_endpoint_operation builds caller operation_ref At_datagram_send
                                 (Fut_datagram_send value ix data wait_for_capacity) w of
                            (Inl e, w) \<Rightarrow> (Inl e, drop_datagram_send ix data w)
                          | (Inr op, w) \<Rightarrow> (Inr op, w)))"

definition poll_datagram_send ::
  "bool \<Rightarrow> handle \<Rightarrow> connection_ix \<Rightarrow> bytes \<Rightarrow> bool \<Rightarrow> ('a, 'b, 'z) nif_state_scheme
     \<Rightarrow> ('a, 'b, ('a, 'b, 'z) nif_state_scheme) resumption" where
  "poll_datagram_send sent value ix data wait_for_capacity w =
     (if sent
      then finish_block (Inr (R_atom At_ok)) (drop_datagram_send ix data (log_net [Net_datagram value data] w))
      else finish_block
             (Inl (stream_error At_datagram_send At_capacity
               (if wait_for_capacity then ''datagram could not be queued''
                else ''datagram send buffer has no capacity'')))
             (drop_datagram_send ix data w))"

definition datagram_recv_start ::
  "bool \<Rightarrow> pid \<Rightarrow> reference \<Rightarrow> connection_ix \<Rightarrow> ('a, 'b, 'z) nif_state_scheme
     \<Rightarrow> op_ix nif_result \<times> ('a, 'b, 'z) nif_state_scheme" where
  "datagram_recv_start builds caller operation_ref ix w =
     (case connection_value (cn_connections w ! ix) At_datagram_recv of
        Inl e \<Rightarrow> (Inl e, w)
      | Inr value \<Rightarrow>
          (case ConnectionResource_begin_datagram_recv (cn_connections w ! ix) of
             (False, _) \<Rightarrow> (Inl (stream_error At_datagram_recv At_busy ''datagram receiver is busy''), w)
           | (True, self) \<Rightarrow>
               (case start_endpoint_operation builds caller operation_ref At_datagram_recv
                       (Fut_datagram_recv value ix) (set_connection ix self w) of
                  (Inl e, w) \<Rightarrow> (Inl e, DatagramPermit_drop ix False w)
                | (Inr op, w) \<Rightarrow> (Inr op, w))))"

definition poll_datagram_recv ::
  "bytes option \<Rightarrow> connection_ix \<Rightarrow> ('a, 'b, 'z) nif_state_scheme
     \<Rightarrow> ('a, 'b, ('a, 'b, 'z) nif_state_scheme) resumption" where
  "poll_datagram_recv received ix w =
     (case received of
        Some bs \<Rightarrow> finish_block (Inr (R_binary bs)) (DatagramPermit_drop ix False w)
      | None \<Rightarrow> finish_block (Inl (stream_error At_datagram_recv At_closed ''datagram receive failed''))
                  (DatagramPermit_drop ix False w))"

record DatagramInfo =
  di_max_size :: "usize option"
  di_send_buffer_space :: usize

definition datagram_info :: "iroh_api \<Rightarrow> connection_resource \<Rightarrow> DatagramInfo nif_result" where
  "datagram_info iroh connection =
     map_result (\<lambda>value. \<lparr>di_max_size = api_max_datagram_size iroh value,
                           di_send_buffer_space = api_datagram_send_buffer_space iroh value\<rparr>)
       (connection_value connection At_datagram_info)"

end
