(* ===== verification/World.thy ===== *)
theory World
  imports Stream_Io
begin

text \<open>
  The whole native library as one transition system. A state is reached from the loaded
  library by NIF calls of any process, by resumptions of the asynchronous blocks, by the
  moves of their supervisors, by process exits with their monitor callbacks, and by the
  collection of resources that nothing refers to any more. A NIF call and the run of a
  block between two \<open>await\<close> points are one step each.
\<close>

section \<open>Dropping what a block owns\<close>

definition drop_future ::
  "('a, 'b) future \<Rightarrow> ('a, 'b, 'z) nif_state_scheme \<Rightarrow> ('a, 'b, 'z) nif_state_scheme" where
  "drop_future f w =
     (case f of
        Fut_closing ix h \<Rightarrow> log_net [Net_endpoint_drop h] w
      | Fut_accept _ endpoint _ _ _ \<Rightarrow> AcceptPermit_drop endpoint w
      | Fut_accepting _ endpoint _ _ _ \<Rightarrow> AcceptPermit_drop endpoint w
      | Fut_send ix stream data _ _ _ _ \<Rightarrow> drop_send ix stream data w
      | Fut_recv ix stream _ \<Rightarrow> RecvLease_drop ix stream w
      | Fut_datagram_send _ ix data _ \<Rightarrow> drop_datagram_send ix data w
      | Fut_datagram_recv _ ix \<Rightarrow> DatagramPermit_drop ix False w
      | _ \<Rightarrow> w)"

definition drop_value ::
  "iroh_api \<Rightarrow> res_val \<Rightarrow> ('a, 'b, 'z) nif_state_scheme \<Rightarrow> ('a, 'b, 'z) nif_state_scheme" where
  "drop_value iroh v w =
     (case v of
        R_endpoint ix \<Rightarrow> EndpointResource_drop ix w
      | R_connection ix \<Rightarrow> ConnectionResource_drop ix w
      | R_stream ix \<Rightarrow> StreamResource_drop iroh ix w
      | _ \<Rightarrow> w)"

definition drop_joined ::
  "iroh_api \<Rightarrow> joined option \<Rightarrow> ('a, 'b, 'z) nif_state_scheme \<Rightarrow> ('a, 'b, 'z) nif_state_scheme" where
  "drop_joined iroh j w =
     (case j of
        Some (Join_result (Inr v)) \<Rightarrow> drop_value iroh v w
      | Some (Join_bound (Some h)) \<Rightarrow> log_net [Net_endpoint_drop h] w
      | _ \<Rightarrow> w)"

definition drop_spawned ::
  "iroh_api \<Rightarrow> ('a, 'b) spawned \<Rightarrow> ('a, 'b, 'z) nif_state_scheme \<Rightarrow> ('a, 'b, 'z) nif_state_scheme" where
  "drop_spawned iroh s w =
     (case s of
        Sp_running f \<Rightarrow> drop_future f w
      | Sp_finished j \<Rightarrow> drop_joined iroh (Some j) w
      | Sp_joined \<Rightarrow> w)"

section \<open>Running the blocks\<close>

definition poll ::
  "iroh_api \<Rightarrow> lib_event \<Rightarrow> ('a, 'b) future \<Rightarrow> ('a, 'b, 'z) nif_state_scheme
     \<Rightarrow> ('a, 'b, ('a, 'b, 'z) nif_state_scheme) resumption" where
  "poll iroh event f w =
     (case f of
        Fut_sleep _ \<Rightarrow> (if event = E_elapsed then Some (Inr Join_elapsed, w) else None)
      | Fut_bind _ \<Rightarrow> (case event of E_bound r \<Rightarrow> Some (Inr (Join_bound r), w) | _ \<Rightarrow> None)
      | Fut_close ix \<Rightarrow> (if event = E_poll then poll_close ix w else None)
      | Fut_closing ix value \<Rightarrow>
          (if event = E_endpoint_closed then poll_closing ix value w else None)
      | Fut_online profile value \<Rightarrow> poll_online iroh event profile value w
      | Fut_connect _ _ _ endpoint owner \<Rightarrow>
          (case event of E_connected r \<Rightarrow> poll_connect iroh r endpoint owner w | _ \<Rightarrow> None)
      | Fut_accept value endpoint allow_all allowed_ids owner \<Rightarrow>
          (case event of
             E_incoming r \<Rightarrow> poll_accept r value endpoint allow_all allowed_ids owner w
           | _ \<Rightarrow> None)
      | Fut_accepting _ endpoint allow_all allowed_ids owner \<Rightarrow>
          (case event of
             E_handshake r \<Rightarrow> poll_accepting iroh r endpoint allow_all allowed_ids owner w
           | _ \<Rightarrow> None)
      | Fut_closed _ ix \<Rightarrow> (if event = E_connection_closed then poll_closed ix w else None)
      | Fut_stream kind _ connection owner \<Rightarrow>
          (case event of E_stream r \<Rightarrow> poll_stream iroh r kind connection owner w | _ \<Rightarrow> None)
      | Fut_send ix stream data written partial send_all chunk_size \<Rightarrow>
          poll_send iroh event ix stream data written partial send_all chunk_size w
      | Fut_recv ix stream max_bytes \<Rightarrow> poll_recv iroh event ix stream max_bytes w
      | Fut_datagram_send value ix data wait_for_capacity \<Rightarrow>
          (case event of
             E_datagram_sent sent \<Rightarrow> poll_datagram_send sent value ix data wait_for_capacity w
           | _ \<Rightarrow> None)
      | Fut_datagram_recv _ ix \<Rightarrow>
          (case event of E_datagram_read r \<Rightarrow> poll_datagram_recv r ix w | _ \<Rightarrow> None))"

text \<open>
  A resumption of the block of one task, and a panic of the library inside it. The smoke
  operation has no block of its own: its supervisor sleeps.
\<close>

definition task_poll ::
  "iroh_api \<Rightarrow> lib_event \<Rightarrow> op_ix \<Rightarrow> ('a, 'b, 'z) nif_state_scheme \<Rightarrow> ('a, 'b, 'z) nif_state_scheme option" where
  "task_poll iroh event ix w =
     (case tk_spawned (rt_tasks w ! ix) of
        Sp_running f \<Rightarrow>
          (case poll iroh event f w of
             None \<Rightarrow> None
           | Some (Inl f', w') \<Rightarrow> Some (set_task ix (tk_spawned_update (\<lambda>_. Sp_running f')) w')
           | Some (Inr j, w') \<Rightarrow> Some (set_task ix (tk_spawned_update (\<lambda>_. Sp_finished j)) w'))
      | _ \<Rightarrow> None)"

definition task_panic ::
  "op_ix \<Rightarrow> ('a, 'b, 'z) nif_state_scheme \<Rightarrow> ('a, 'b, 'z) nif_state_scheme option" where
  "task_panic ix w =
     (case tk_spawned (rt_tasks w ! ix) of
        Sp_running (Fut_sleep _) \<Rightarrow> None
      | Sp_running f \<Rightarrow>
          Some (set_task ix (tk_spawned_update (\<lambda>_. Sp_finished Join_panicked)) (drop_future f w))
      | _ \<Rightarrow> None)"

text \<open>The two moves of a supervisor that drop something.\<close>

definition task_cancel ::
  "iroh_api \<Rightarrow> op_ix \<Rightarrow> ('a, 'b, 'z) nif_state_scheme \<Rightarrow> ('a, 'b, 'z) nif_state_scheme option" where
  "task_cancel iroh ix w =
     map_option (\<lambda>(s, w). drop_spawned iroh s w) (select_cancelled ix w)"

definition task_finish ::
  "iroh_api \<Rightarrow> op_ix \<Rightarrow> ('a, 'b, 'z) nif_state_scheme \<Rightarrow> ('a, 'b, 'z) nif_state_scheme option" where
  "task_finish iroh ix w =
     map_option (\<lambda>(j, w). drop_joined iroh j w) (supervisor_finish ix w)"

section \<open>References\<close>

text \<open>The resources that a suspended block or a pending result keeps alive.\<close>

datatype resource = Res_endpoint endpoint_ix | Res_connection connection_ix | Res_stream stream_ix

fun value_refs :: "res_val \<Rightarrow> resource set" where
  "value_refs (R_endpoint ix) = {Res_endpoint ix}"
| "value_refs (R_connection ix) = {Res_connection ix}"
| "value_refs (R_stream ix) = {Res_stream ix}"
| "value_refs _ = {}"

definition result_refs :: "res_val nif_result \<Rightarrow> resource set" where
  "result_refs r = (case r of Inl _ \<Rightarrow> {} | Inr v \<Rightarrow> value_refs v)"

definition joined_refs :: "joined \<Rightarrow> resource set" where
  "joined_refs j = (case j of Join_result r \<Rightarrow> result_refs r | _ \<Rightarrow> {})"

fun future_refs :: "('a, 'b) future \<Rightarrow> resource set" where
  "future_refs (Fut_close ix) = {Res_endpoint ix}"
| "future_refs (Fut_closing ix _) = {Res_endpoint ix}"
| "future_refs (Fut_connect _ _ _ ix _) = {Res_endpoint ix}"
| "future_refs (Fut_accept _ ix _ _ _) = {Res_endpoint ix}"
| "future_refs (Fut_accepting _ ix _ _ _) = {Res_endpoint ix}"
| "future_refs (Fut_closed _ ix) = {Res_connection ix}"
| "future_refs (Fut_stream _ _ ix _) = {Res_connection ix}"
| "future_refs (Fut_send ix _ _ _ _ _ _) = {Res_stream ix}"
| "future_refs (Fut_recv ix _ _) = {Res_stream ix}"
| "future_refs (Fut_datagram_send _ ix _ _) = {Res_connection ix}"
| "future_refs (Fut_datagram_recv _ ix) = {Res_connection ix}"
| "future_refs _ = {}"

definition spawned_refs :: "('a, 'b) spawned \<Rightarrow> resource set" where
  "spawned_refs s =
     (case s of Sp_running f \<Rightarrow> future_refs f | Sp_finished j \<Rightarrow> joined_refs j | Sp_joined \<Rightarrow> {})"

definition phase_refs :: "phase \<Rightarrow> resource set" where
  "phase_refs p =
     (case p of
        Selected (Some j) \<Rightarrow> joined_refs j
      | Sending r \<Rightarrow> result_refs r
      | Finishing (Some j) \<Rightarrow> joined_refs j
      | _ \<Rightarrow> {})"

definition task_refs :: "('a, 'b) task \<Rightarrow> resource set" where
  "task_refs t = spawned_refs (tk_spawned t) \<union> phase_refs (tk_phase t)"

text \<open>A resource nothing native refers to; a connection keeps its endpoint alive and a stream its connection.\<close>

definition unreferenced :: "resource \<Rightarrow> ('a, 'b, 'z) nif_state_scheme \<Rightarrow> bool" where
  "unreferenced r w \<longleftrightarrow>
     (\<forall>t\<in>set (rt_tasks w). r \<notin> task_refs t)
     \<and> (\<forall>c\<in>set (cn_connections w). \<not> cr_dropped c \<longrightarrow> r \<noteq> Res_endpoint (cr_endpoint c))
     \<and> (\<forall>s\<in>set (st_streams w). \<not> sr_dropped s \<longrightarrow> r \<noteq> Res_connection (sr_connection s))"

definition live_endpoint :: "endpoint_ix \<Rightarrow> ('a, 'b, 'z) nif_state_scheme \<Rightarrow> bool" where
  "live_endpoint ix w \<longleftrightarrow> ix < length (ep_endpoints w) \<and> \<not> er_dropped (ep_endpoints w ! ix)"

definition live_connection :: "connection_ix \<Rightarrow> ('a, 'b, 'z) nif_state_scheme \<Rightarrow> bool" where
  "live_connection ix w \<longleftrightarrow> ix < length (cn_connections w) \<and> \<not> cr_dropped (cn_connections w ! ix)"

definition live_stream :: "stream_ix \<Rightarrow> ('a, 'b, 'z) nif_state_scheme \<Rightarrow> bool" where
  "live_stream ix w \<longleftrightarrow> ix < length (st_streams w) \<and> \<not> sr_dropped (st_streams w ! ix)"

section \<open>Steps\<close>

text \<open>The state right after the library has been loaded, with no process known yet.\<close>

definition initial :: "pid set \<Rightarrow> ('a, 'b) nif_state" where
  "initial alive =
     \<lparr>rt_runtime = None, rt_alive = alive, rt_operations = [], rt_tasks = [],
      rt_active_operations = 0, rt_mailbox = [], ep_endpoints = [], ep_identities = mutex_new {},
      ep_active_endpoints = 0, net_log = [], cn_connections = [], cn_active_connections = 0,
      st_streams = [], st_active_streams = 0, st_queued_bytes = 0, st_peak_queued_bytes = 0\<rparr>"

text \<open>
  NIF calls on operations and endpoints. What the connection and stream part of the library
  answers is free in every rule: each call may see other answers. \<open>down\<close> callbacks run for resources whose monitored
  process has exited.
\<close>

inductive endpoint_step ::
  "('a, ('key, 'url) builder) nif_state \<Rightarrow> ('a, ('key, 'url) builder) nif_state \<Rightarrow> bool" where
  operation_start: "endpoint_step w (snd (operation_start builds caller r kind delay w))"
| operation_cancel: "ix < length (rt_operations w) \<Longrightarrow> endpoint_step w (snd (operation_cancel ix w))"
| operation_down:
    "ix < length (rt_operations w) \<Longrightarrow> tk_caller (rt_tasks w ! ix) \<notin> rt_alive w
       \<Longrightarrow> endpoint_step w (snd (operation_cancel ix w))"
| process_exit: "endpoint_step w (w\<lparr>rt_alive := rt_alive w - {p}\<rparr>)"
| endpoint_bind_start:
    "endpoint_step w (snd (endpoint_bind_start builds (api :: 'url relay_url_api) bind_addr_ok public_id
        caller r key options w))"
| endpoint_close_start:
    "live_endpoint ix w \<Longrightarrow> endpoint_step w (snd (endpoint_close_start builds caller r ix w))"
| endpoint_await_online_start:
    "live_endpoint ix w \<Longrightarrow> endpoint_step w (snd (endpoint_await_online_start builds caller r ix w))"
| endpoint_abort: "live_endpoint ix w \<Longrightarrow> endpoint_step w (snd (endpoint_abort ix w))"
| endpoint_down:
    "live_endpoint ix w \<Longrightarrow> er_owner (ep_endpoints w ! ix) \<notin> rt_alive w
       \<Longrightarrow> endpoint_step w (EndpointResource_down ix w)"
| endpoint_collect:
    "live_endpoint ix w \<Longrightarrow> unreferenced (Res_endpoint ix) w
       \<Longrightarrow> endpoint_step w (EndpointResource_drop ix w)"

inductive connection_step ::
  "('url, 'id, 'a, 'ticket, 'key) iroh_identity_api \<Rightarrow> ('a, 'b) nif_state \<Rightarrow> ('a, 'b) nif_state \<Rightarrow> bool"
  for api where
  connection_connect_start:
    "live_endpoint ix w
       \<Longrightarrow> connection_step api w (snd (connection_connect_start builds api caller owner r ix target alpn w))"
| connection_accept_start:
    "live_endpoint ix w
       \<Longrightarrow> connection_step api w (snd (connection_accept_start builds api caller owner r ix allow_all allowed w))"
| connection_close: "live_connection ix w \<Longrightarrow> connection_step api w (snd (connection_close ix w))"
| connection_closed_start:
    "live_connection ix w \<Longrightarrow> connection_step api w (snd (connection_closed_start builds caller r ix w))"
| connection_down:
    "live_connection ix w \<Longrightarrow> cr_owner (cn_connections w ! ix) \<notin> rt_alive w
       \<Longrightarrow> connection_step api w (ConnectionResource_down ix w)"
| connection_collect:
    "live_connection ix w \<Longrightarrow> unreferenced (Res_connection ix) w
       \<Longrightarrow> connection_step api w (ConnectionResource_drop ix w)"

inductive stream_step :: "('a, 'b) nif_state \<Rightarrow> ('a, 'b) nif_state \<Rightarrow> bool" where
  stream_start:
    "live_connection ix w \<Longrightarrow> stream_step w (snd (stream_start kind builds caller owner r ix w))"
| stream_send_start:
    "live_stream ix w
       \<Longrightarrow> stream_step w (snd (stream_send_start builds caller r ix data send_all chunk_size w))"
| stream_send_iodata_start:
    "live_stream ix w
       \<Longrightarrow> stream_step w (snd (stream_send_iodata_start builds caller r ix iolist expected max_bytes w))"
| stream_recv_start:
    "live_stream ix w \<Longrightarrow> stream_step w (snd (stream_recv_start builds caller r ix max_bytes w))"
| stream_finish: "live_stream ix w \<Longrightarrow> stream_step w (snd (stream_finish iroh ix w))"
| stream_reset: "live_stream ix w \<Longrightarrow> stream_step w (snd (stream_reset iroh ix code w))"
| stream_stop: "live_stream ix w \<Longrightarrow> stream_step w (snd (stream_stop iroh ix code w))"
| stream_abort: "live_stream ix w \<Longrightarrow> stream_step w (snd (stream_abort iroh ix code w))"
| stream_down:
    "live_stream ix w \<Longrightarrow> sr_owner (st_streams w ! ix) \<notin> rt_alive w
       \<Longrightarrow> stream_step w (StreamResource_down iroh ix w)"
| stream_collect:
    "live_stream ix w \<Longrightarrow> unreferenced (Res_stream ix) w
       \<Longrightarrow> stream_step w (StreamResource_drop iroh ix w)"
| datagram_send_start:
    "live_connection ix w \<Longrightarrow> stream_step w (snd (datagram_send_start builds iroh caller r ix data wait w))"
| datagram_recv_start:
    "live_connection ix w \<Longrightarrow> stream_step w (snd (datagram_recv_start builds caller r ix w))"

inductive task_step :: "('a, 'b) nif_state \<Rightarrow> ('a, 'b) nif_state \<Rightarrow> bool" where
  poll: "ix < length (rt_tasks w) \<Longrightarrow> task_poll iroh event ix w = Some w' \<Longrightarrow> task_step w w'"
| panic: "ix < length (rt_tasks w) \<Longrightarrow> task_panic ix w = Some w' \<Longrightarrow> task_step w w'"
| select: "ix < length (rt_tasks w) \<Longrightarrow> select_result ix w = Some w' \<Longrightarrow> task_step w w'"
| cancel: "ix < length (rt_tasks w) \<Longrightarrow> task_cancel iroh ix w = Some w' \<Longrightarrow> task_step w w'"
| complete: "ix < length (rt_tasks w) \<Longrightarrow> supervisor_complete ix w = Some w' \<Longrightarrow> task_step w w'"
| bind: "ix < length (rt_tasks w) \<Longrightarrow> bind_complete ix w = Some w' \<Longrightarrow> task_step w w'"
| send: "ix < length (rt_tasks w) \<Longrightarrow> send_operation_result ix w = Some w' \<Longrightarrow> task_step w w'"
| finish: "ix < length (rt_tasks w) \<Longrightarrow> task_finish iroh ix w = Some w' \<Longrightarrow> task_step w w'"

inductive nif_step ::
  "('url, 'id, 'a, 'ticket, 'key) iroh_identity_api
     \<Rightarrow> ('a, ('key, 'url) builder) nif_state \<Rightarrow> ('a, ('key, 'url) builder) nif_state \<Rightarrow> bool"
  for api where
  endpoint: "endpoint_step w w' \<Longrightarrow> nif_step api w w'"
| connection: "connection_step api w w' \<Longrightarrow> nif_step api w w'"
| stream: "stream_step w w' \<Longrightarrow> nif_step api w w'"
| task: "task_step w w' \<Longrightarrow> nif_step api w w'"

inductive reachable ::
  "('url, 'id, 'a, 'ticket, 'key) iroh_identity_api \<Rightarrow> ('a, ('key, 'url) builder) nif_state \<Rightarrow> bool"
  for api where
  start: "reachable api (initial alive)"
| step: "reachable api w \<Longrightarrow> nif_step api w w' \<Longrightarrow> reachable api w'"

end
