(* ===== verification/Operation_Protocol.thy ===== *)
theory Operation_Protocol
  imports Operation
begin

text \<open>
  The protocol between an operation, its block and its supervisor, as a machine of its own on
  the operation layer: any block may finish, be replaced by a later suspension or fail, and
  any call may start or cancel operations. The invariant fixes, for every phase of a
  supervisor, what the state cell holds and which messages have been sent. The whole library
  is shown to refine this machine in \<^verbatim>\<open>World_Refinement\<close>.
\<close>

section \<open>The machine\<close>

inductive op_step :: "('a, 'b) rt_state \<Rightarrow> ('a, 'b) rt_state \<Rightarrow> bool" where
  init_runtime: "op_step s (s\<lparr>rt_runtime := x\<rparr>)"
| spawn: "caller \<in> rt_alive s \<Longrightarrow> op_step s (snd (spawn_operation caller r sv f s))"
| cancel: "ix < length (rt_operations s) \<Longrightarrow> op_step s (snd (operation_cancel ix s))"
| exit: "op_step s (s\<lparr>rt_alive := rt_alive s - {p}\<rparr>)"
| block:
    "ix < length (rt_tasks s) \<Longrightarrow> tk_spawned (rt_tasks s ! ix) = Sp_running f \<Longrightarrow> sp \<noteq> Sp_joined
       \<Longrightarrow> op_step s (set_task ix (tk_spawned_update (\<lambda>_. sp)) s)"
| select: "ix < length (rt_tasks s) \<Longrightarrow> select_result ix s = Some s' \<Longrightarrow> op_step s s'"
| select_cancelled: "ix < length (rt_tasks s) \<Longrightarrow> select_cancelled ix s = Some (sp, s') \<Longrightarrow> op_step s s'"
| complete:
    "ix < length (rt_tasks s) \<Longrightarrow> tk_phase (rt_tasks s ! ix) = Selected result \<Longrightarrow> should_complete ix s = (True, s')
       \<Longrightarrow> op_step s (set_task ix (tk_phase_update (\<lambda>_. Sending m)) s')"
| give_up:
    "ix < length (rt_tasks s) \<Longrightarrow> tk_phase (rt_tasks s ! ix) = Selected result \<Longrightarrow> should_complete ix s = (False, s')
       \<Longrightarrow> op_step s (set_task ix (tk_phase_update (\<lambda>_. Finishing result)) s')"
| send: "ix < length (rt_tasks s) \<Longrightarrow> send_operation_result ix s = Some s' \<Longrightarrow> op_step s s'"
| finish: "ix < length (rt_tasks s) \<Longrightarrow> supervisor_finish ix s = Some (j, s') \<Longrightarrow> op_step s s'"

section \<open>The invariant\<close>

text \<open>What the state cell and the cancellation permit hold in each phase.\<close>

definition op_ok :: "operation_resource \<Rightarrow> ('a, 'b) task \<Rightarrow> bool" where
  "op_ok p t \<longleftrightarrow>
     (case tk_phase t of
        Selecting \<Rightarrow> tk_spawned t \<noteq> Sp_joined
          \<and> (op_state p = RUNNING \<and> \<not> op_cancelled p \<or> op_state p = CANCELLED \<and> op_cancelled p)
      | Selected result \<Rightarrow> tk_spawned t = Sp_joined
          \<and> (op_state p = CANCELLED \<or> op_state p = RUNNING \<and> result \<noteq> None)
      | Sending _ \<Rightarrow> tk_spawned t = Sp_joined \<and> op_state p = COMPLETED
      | _ \<Rightarrow> tk_spawned t = Sp_joined \<and> (op_state p = COMPLETED \<or> op_state p = CANCELLED))"

definition past_send :: "phase \<Rightarrow> bool" where
  "past_send p = (case p of Finishing _ \<Rightarrow> True | Terminated \<Rightarrow> True | _ \<Rightarrow> False)"

text \<open>Messages sent to \<open>p\<close> under reference \<open>r\<close>, and the operations that have sent one.\<close>

definition sent_messages :: "pid \<Rightarrow> reference \<Rightarrow> ('a, 'b, 'z) rt_state_scheme \<Rightarrow> nat" where
  "sent_messages p r w = length (filter (\<lambda>(p', r', _). p' = p \<and> r' = r) (rt_mailbox w))"

definition reports :: "pid \<Rightarrow> reference \<Rightarrow> operation_resource \<times> ('a, 'b) task \<Rightarrow> bool" where
  "reports p r = (\<lambda>(res, t). tk_caller t = p \<and> tk_ref t = r \<and> op_state res = COMPLETED \<and> past_send (tk_phase t))"

definition reported_operations :: "pid \<Rightarrow> reference \<Rightarrow> ('a, 'b, 'z) rt_state_scheme \<Rightarrow> int" where
  "reported_operations p r w = total (\<lambda>x. of_bool (reports p r x)) (zip (rt_operations w) (rt_tasks w))"

definition running_operations :: "('a, 'b, 'z) rt_state_scheme \<Rightarrow> usize" where
  "running_operations w = total (\<lambda>t. of_bool (tk_phase t \<noteq> Terminated)) (rt_tasks w)"

definition op_inv :: "('a, 'b, 'z) rt_state_scheme \<Rightarrow> bool" where
  "op_inv w \<longleftrightarrow>
     list_all2 op_ok (rt_operations w) (rt_tasks w)
     \<and> rt_active_operations w = running_operations w
     \<and> (\<forall>p r. int (sent_messages p r w) \<le> reported_operations p r w
              \<and> (p \<in> rt_alive w \<longrightarrow> int (sent_messages p r w) = reported_operations p r w))"

lemmas protocol_defs =
  op_inv_def sent_messages_def reported_operations_def running_operations_def

text \<open>
  One operation and its task change: the invariant is kept if their relation is, if the
  activity counter follows the phase and if exactly the new reports are new messages.
\<close>

lemma op_inv_update:
  assumes inv: "op_inv s" and ix: "ix < length (rt_tasks s)"
    and ops: "rt_operations s' = (rt_operations s)[ix := p]"
    and tasks: "rt_tasks s' = (rt_tasks s)[ix := t]"
    and ok: "op_ok p t"
    and active: "rt_active_operations s' = rt_active_operations s
          - of_bool (tk_phase (rt_tasks s ! ix) \<noteq> Terminated) + of_bool (tk_phase t \<noteq> Terminated)"
    and alive: "rt_alive s' = rt_alive s"
    and mailbox: "rt_mailbox s' = rt_mailbox s @ ms"
    and msgs: "\<And>c r. int (length (filter (\<lambda>(p', r', _). p' = c \<and> r' = r) ms))
          \<le> of_bool (reports c r (p, t)) - of_bool (reports c r (rt_operations s ! ix, rt_tasks s ! ix))"
    and msgs_alive: "\<And>c r. c \<in> rt_alive s \<Longrightarrow> int (length (filter (\<lambda>(p', r', _). p' = c \<and> r' = r) ms))
          = of_bool (reports c r (p, t)) - of_bool (reports c r (rt_operations s ! ix, rt_tasks s ! ix))"
  shows "op_inv s'"
proof -
  have len: "length (rt_operations s) = length (rt_tasks s)"
    using inv by (auto simp: op_inv_def dest: list_all2_lengthD)
  have rel: "list_all2 op_ok (rt_operations s') (rt_tasks s')"
    using inv ok by (simp add: op_inv_def ops tasks list_all2_update_cong)
  have act: "rt_active_operations s' = running_operations s'"
    using inv ix by (simp add: op_inv_def active tasks running_operations_def total_update)
  have rep: "reported_operations c r s' = reported_operations c r s
      - of_bool (reports c r (rt_operations s ! ix, rt_tasks s ! ix)) + of_bool (reports c r (p, t))" for c r
    using ix len by (simp add: reported_operations_def ops tasks total_zip_update)
  have snt: "sent_messages c r s' = sent_messages c r s + length (filter (\<lambda>(p', r', _). p' = c \<and> r' = r) ms)" for c r
    by (simp add: sent_messages_def mailbox)
  show ?thesis
    unfolding op_inv_def
  proof (intro conjI allI rel act impI)
    fix c r
    have le: "int (sent_messages c r s) \<le> reported_operations c r s"
      using inv by (simp add: op_inv_def)
    show "int (sent_messages c r s') \<le> reported_operations c r s'"
      using le msgs [of c r] by (simp add: rep snt)
    assume "c \<in> rt_alive s'"
    then have "int (sent_messages c r s) = reported_operations c r s" "c \<in> rt_alive s"
      using inv by (simp_all add: op_inv_def alive)
    then show "int (sent_messages c r s') = reported_operations c r s'"
      using msgs_alive [of c r] by (simp add: rep snt)
  qed
qed

lemma op_inv_nth:
  assumes "op_inv s" and "ix < length (rt_tasks s)"
  shows "op_ok (rt_operations s ! ix) (rt_tasks s ! ix)" "ix < length (rt_operations s)"
  using assms by (auto simp: op_inv_def list_all2_conv_all_nth)

lemma op_inv_spawn: "op_inv s \<Longrightarrow> op_inv (snd (spawn_operation caller r sv f s))"
  by (auto simp: protocol_defs spawn_operation_def op_ok_def reports_def past_send_def
      list_all2_appendI dest: list_all2_lengthD)

lemma op_inv_exit: "op_inv s \<Longrightarrow> op_inv (s\<lparr>rt_alive := rt_alive s - {p}\<rparr>)"
  by (simp add: protocol_defs)

lemma op_inv_runtime: "op_inv s \<Longrightarrow> op_inv (s\<lparr>rt_runtime := x\<rparr>)"
  by (simp add: protocol_defs)

lemma op_inv_step:
  assumes "op_step s s'" and "op_inv s"
  shows "op_inv s'"
  using assms
proof (induction rule: op_step.induct)
  case (init_runtime s x)
  then show ?case by (rule op_inv_runtime)
next
  case (spawn caller s r sv f)
  then show ?case by (intro op_inv_spawn)
next
  case (exit s p)
  then show ?case by (intro op_inv_exit)
next
  case (cancel ix s)
  then have ix: "ix < length (rt_tasks s)" by (auto simp: op_inv_def dest: list_all2_lengthD)
  note ok = op_inv_nth [OF cancel.prems ix]
  show ?case
    by (rule op_inv_update [OF cancel.prems ix, where ms = "[]" and t = "rt_tasks s ! ix"
          and p = "snd (OperationResource_cancel (rt_operations s ! ix))"])
       (use ok in \<open>auto simp: operation_cancel_def OperationResource_cancel_eq op_ok_def reports_def
          past_send_def split: phase.splits\<close>)
next
  case (block ix s f sp)
  note ok = op_inv_nth [OF block.prems block.hyps(1)]
  show ?case
    by (rule op_inv_update [OF block.prems block.hyps(1), where ms = "[]"
          and t = "(rt_tasks s ! ix)\<lparr>tk_spawned := sp\<rparr>" and p = "rt_operations s ! ix"])
       (use ok block.hyps in \<open>auto simp: set_task_def op_ok_def reports_def split: phase.splits\<close>)
next
  case (select ix s s')
  note ok = op_inv_nth [OF select.prems select.hyps(1)]
  obtain j where j: "tk_phase (rt_tasks s ! ix) = Selecting" "tk_spawned (rt_tasks s ! ix) = Sp_finished j"
      "s' = set_task ix (\<lambda>t. t\<lparr>tk_spawned := Sp_joined, tk_phase := Selected (Some j)\<rparr>) s"
    using select.hyps(2) by (auto simp: select_result_def split: phase.splits spawned.splits)
  show ?case
    by (rule op_inv_update [OF select.prems select.hyps(1), where ms = "[]" and p = "rt_operations s ! ix"
          and t = "(rt_tasks s ! ix)\<lparr>tk_spawned := Sp_joined, tk_phase := Selected (Some j)\<rparr>"])
       (use ok j in \<open>auto simp: set_task_def op_ok_def reports_def past_send_def\<close>)
next
  case (select_cancelled ix s sp s')
  note ok = op_inv_nth [OF select_cancelled.prems select_cancelled.hyps(1)]
  show ?case
    by (rule op_inv_update [OF select_cancelled.prems select_cancelled.hyps(1), where ms = "[]"
          and p = "(rt_operations s ! ix)\<lparr>op_cancelled := False\<rparr>"
          and t = "(rt_tasks s ! ix)\<lparr>tk_spawned := Sp_joined, tk_phase := Selected None\<rparr>"])
       (use ok select_cancelled.hyps in
         \<open>auto simp: select_cancelled_def set_task_def op_ok_def reports_def past_send_def split: if_splits\<close>)
next
  case (complete ix s result s' m)
  note ok = op_inv_nth [OF complete.prems complete.hyps(1)]
  show ?case
    by (rule op_inv_update [OF complete.prems complete.hyps(1), where ms = "[]"
          and p = "(rt_operations s ! ix)\<lparr>op_state := COMPLETED\<rparr>"
          and t = "(rt_tasks s ! ix)\<lparr>tk_phase := Sending m\<rparr>"])
       (use ok complete.hyps in \<open>auto simp: should_complete_def operation_complete_eq set_task_def op_ok_def
          reports_def past_send_def split: if_splits\<close>)
next
  case (give_up ix s result s')
  note ok = op_inv_nth [OF give_up.prems give_up.hyps(1)]
  show ?case
    by (rule op_inv_update [OF give_up.prems give_up.hyps(1), where ms = "[]"
          and p = "rt_operations s ! ix" and t = "(rt_tasks s ! ix)\<lparr>tk_phase := Finishing result\<rparr>"])
       (use ok give_up.hyps in \<open>auto simp: should_complete_def operation_complete_eq set_task_def op_ok_def
          reports_def past_send_def split: if_splits\<close>)
next
  case (send ix s s')
  note ok = op_inv_nth [OF send.prems send.hyps(1)]
  obtain m where m: "tk_phase (rt_tasks s ! ix) = Sending m"
    using send.hyps(2) by (auto simp: send_operation_result_def Let_def split: phase.splits)
  let ?t = "rt_tasks s ! ix"
  show ?case
  proof (cases "tk_caller ?t \<in> rt_alive s")
    case True
    show ?thesis
      by (rule op_inv_update [OF send.prems send.hyps(1), where p = "rt_operations s ! ix"
            and ms = "[(tk_caller ?t, tk_ref ?t, m)]" and t = "?t\<lparr>tk_phase := Finishing None\<rparr>"])
         (use ok m True send.hyps in \<open>auto simp: send_operation_result_def Let_def set_task_def op_ok_def
            reports_def past_send_def\<close>)
  next
    case False
    show ?thesis
      by (rule op_inv_update [OF send.prems send.hyps(1), where p = "rt_operations s ! ix"
            and ms = "[]" and t = "?t\<lparr>tk_phase := Finishing (Some (Join_result m))\<rparr>"])
         (use ok m False send.hyps in \<open>auto simp: send_operation_result_def Let_def set_task_def op_ok_def
            reports_def past_send_def\<close>)
  qed
next
  case (finish ix s j s')
  note ok = op_inv_nth [OF finish.prems finish.hyps(1)]
  show ?case
    by (rule op_inv_update [OF finish.prems finish.hyps(1), where ms = "[]"
          and p = "rt_operations s ! ix" and t = "(rt_tasks s ! ix)\<lparr>tk_phase := Terminated\<rparr>"])
       (use ok finish.hyps in \<open>auto simp: supervisor_finish_def set_task_def op_ok_def
          reports_def past_send_def split: phase.splits\<close>)
qed

lemma op_inv_steps: "op_step\<^sup>*\<^sup>* s s' \<Longrightarrow> op_inv s \<Longrightarrow> op_inv s'"
  by (induction rule: rtranclp_induct) (auto intro: op_inv_step)

section \<open>Settled operations stay settled\<close>

lemma op_step_lengths:
  assumes "op_step s s'"
  shows "length (rt_operations s) \<le> length (rt_operations s')"
    and "length (rt_tasks s) \<le> length (rt_tasks s')"
  using assms
  by (auto elim!: op_step.cases simp: spawn_operation_def operation_cancel_def set_task_def
      select_result_def select_cancelled_def should_complete_def send_operation_result_def
      supervisor_finish_def Let_def split: prod.splits phase.splits spawned.splits if_splits)

lemmas op_move_defs =
  spawn_operation_def operation_cancel_def OperationResource_cancel_eq set_task_def select_result_def
  select_cancelled_def should_complete_def operation_complete_eq send_operation_result_def
  supervisor_finish_def

lemma op_step_state_stable:
  assumes "op_step s s'" and "i < length (rt_operations s)" and "op_state (rt_operations s ! i) \<noteq> RUNNING"
  shows "op_state (rt_operations s' ! i) = op_state (rt_operations s ! i)"
  using assms
  by (auto elim!: op_step.cases simp: op_move_defs Let_def nth_append nth_update_read
      split: prod.splits phase.splits spawned.splits if_splits)

lemma op_step_task_stable:
  assumes "op_step s s'" and "i < length (rt_tasks s)"
  shows "tk_caller (rt_tasks s' ! i) = tk_caller (rt_tasks s ! i)"
    and "tk_ref (rt_tasks s' ! i) = tk_ref (rt_tasks s ! i)"
    and "tk_supervisor (rt_tasks s' ! i) = tk_supervisor (rt_tasks s ! i)"
  using assms
  by (auto elim!: op_step.cases simp: op_move_defs Let_def nth_append nth_update_read
      split: prod.splits phase.splits spawned.splits if_splits)

lemma op_steps_state_stable:
  assumes "op_step\<^sup>*\<^sup>* s s'" and "i < length (rt_operations s)" and "op_state (rt_operations s ! i) \<noteq> RUNNING"
  shows "op_state (rt_operations s' ! i) = op_state (rt_operations s ! i) \<and> i < length (rt_operations s')"
  using assms
proof (induction rule: rtranclp_induct)
  case (step s' s'')
  then show ?case
    using op_step_state_stable [of s' s'' i] op_step_lengths(1) [of s' s''] by simp
qed simp

lemma op_steps_task_stable:
  assumes "op_step\<^sup>*\<^sup>* s s'" and "i < length (rt_tasks s)"
  shows "tk_caller (rt_tasks s' ! i) = tk_caller (rt_tasks s ! i)
    \<and> tk_ref (rt_tasks s' ! i) = tk_ref (rt_tasks s ! i)
    \<and> tk_supervisor (rt_tasks s' ! i) = tk_supervisor (rt_tasks s ! i) \<and> i < length (rt_tasks s')"
  using assms
proof (induction rule: rtranclp_induct)
  case (step s' s'')
  then show ?case
    using op_step_task_stable [of s' s'' i] op_step_lengths(2) [of s' s''] by simp
qed simp

section \<open>What the invariant says of messages\<close>

lemma reported_operations_unique:
  assumes "ix < length (rt_tasks w)" and "length (rt_operations w) = length (rt_tasks w)"
    and "\<And>j. j < length (rt_tasks w) \<Longrightarrow> tk_caller (rt_tasks w ! j) = p \<Longrightarrow> tk_ref (rt_tasks w ! j) = r \<Longrightarrow> j = ix"
  shows "reported_operations p r w = of_bool (reports p r (rt_operations w ! ix, rt_tasks w ! ix))"
proof -
  have "\<not> reports p r (rt_operations w ! j, rt_tasks w ! j)" if "j < length (rt_tasks w)" "j \<noteq> ix" for j
    using assms(3) [of j] that by (auto simp: reports_def)
  then show ?thesis
    using assms(1,2) by (subst reported_operations_def, subst total_single [of ix]) simp_all
qed

end
