(* ===== verification/World_Refinement.thy ===== *)
theory World_Refinement
  imports World Operation_Protocol
begin

text \<open>
  The library refines the operation protocol: forgetting everything but the operation layer
  turns each step of the library into moves of \<open>op_step\<close>. Resources, registries and queues
  never touch the operation layer, and the operation layer never touches them.
\<close>

definition rt_part :: "('a, 'b, 'z) rt_state_scheme \<Rightarrow> ('a, 'b) rt_state" where
  "rt_part w =
     \<lparr>rt_runtime = rt_runtime w, rt_alive = rt_alive w, rt_operations = rt_operations w,
      rt_tasks = rt_tasks w, rt_active_operations = rt_active_operations w, rt_mailbox = rt_mailbox w\<rparr>"

lemma rt_part_sel [simp]:
  "rt_runtime (rt_part w) = rt_runtime w" "rt_alive (rt_part w) = rt_alive w"
  "rt_operations (rt_part w) = rt_operations w" "rt_tasks (rt_part w) = rt_tasks w"
  "rt_active_operations (rt_part w) = rt_active_operations w" "rt_mailbox (rt_part w) = rt_mailbox w"
  by (simp_all add: rt_part_def)

lemma rt_part_eqD:
  "rt_part w' = rt_part w \<Longrightarrow> rt_tasks w' = rt_tasks w \<and> rt_operations w' = rt_operations w
     \<and> rt_alive w' = rt_alive w \<and> rt_mailbox w' = rt_mailbox w
     \<and> rt_active_operations w' = rt_active_operations w \<and> rt_runtime w' = rt_runtime w"
  by (simp add: rt_part_def)

section \<open>Resources leave the operation layer alone\<close>

lemma rt_part_updates [simp]:
  "rt_part (ep_endpoints_update f w) = rt_part w"
  "rt_part (ep_identities_update g w) = rt_part w"
  "rt_part (ep_active_endpoints_update h w) = rt_part w"
  "rt_part (net_log_update k w) = rt_part w"
  by (simp_all add: rt_part_def)

lemma rt_part_updates_cn [simp]:
  "rt_part (cn_connections_update f' w') = rt_part w'"
  "rt_part (cn_active_connections_update g' w') = rt_part w'"
  by (simp_all add: rt_part_def)

lemma rt_part_updates_st [simp]:
  "rt_part (st_streams_update f w) = rt_part w"
  "rt_part (st_active_streams_update g w) = rt_part w"
  "rt_part (st_queued_bytes_update g w) = rt_part w"
  "rt_part (st_peak_queued_bytes_update g w) = rt_part w"
  by (simp_all add: rt_part_def)

lemma rt_frame_endpoint [simp]:
  "rt_part (set_endpoint i self w) = rt_part w"
  "rt_part (log_net es w) = rt_part w"
  "rt_part (release_reserved_identity x w) = rt_part w"
  "rt_part (snd (reserve_identity x w)) = rt_part w"
  "rt_part (EndpointResource_release_identity i w) = rt_part w"
  "rt_part (snd (EndpointResource_abort i w)) = rt_part w"
  "rt_part (EndpointResource_drop i w) = rt_part w"
  "rt_part (EndpointResource_down i w) = rt_part w"
  "rt_part (AcceptPermit_drop i w) = rt_part w"
  by (simp_all add: set_endpoint_def log_net_def release_reserved_identity_def reserve_identity_def
      EndpointResource_release_identity_def EndpointResource_abort_def EndpointResource_drop_def
      EndpointResource_down_def AcceptPermit_drop_def Let_def split: option.splits prod.splits)

lemma rt_frame_bind [simp]:
  "rt_part (snd (bind_result_message caller c bound w)) = rt_part w"
  by (simp add: bind_result_message_def Let_def split: option.splits joined.splits)

lemma rt_frame_connection [simp]:
  "rt_part (set_connection i conn w) = rt_part w"
  "rt_part (snd (ConnectionResource_close i w)) = rt_part w"
  "rt_part (ConnectionResource_drop i w) = rt_part w"
  "rt_part (ConnectionResource_down i w) = rt_part w"
  "rt_part (snd (wrap_connection iroh h e owner role operation w)) = rt_part w"
  by (simp_all add: set_connection_def ConnectionResource_close_def ConnectionResource_drop_def
      ConnectionResource_down_def wrap_connection_def Let_def split: prod.splits bool.splits)

lemma rt_frame_stream [simp]:
  "rt_part (set_stream i self w) = rt_part w"
  "rt_part (on_stream i f w) = rt_part w"
  "rt_part (snd (StreamResource_close iroh i w)) = rt_part w"
  "rt_part (StreamResource_drop iroh i w) = rt_part w"
  "rt_part (StreamResource_down iroh i w) = rt_part w"
  "rt_part (SendLease_drop i h w) = rt_part w"
  "rt_part (RecvLease_drop i h w) = rt_part w"
  "rt_part (snd (wrap_stream iroh send recv c owner operation w)) = rt_part w"
  by (simp_all add: set_stream_def on_stream_def StreamResource_close_def StreamResource_drop_def
      StreamResource_down_def SendLease_drop_def RecvLease_drop_def wrap_stream_def Let_def
      split: prod.splits option.splits)

lemma rt_frame_io [simp]:
  "rt_part (QueueGuard_new n w) = rt_part w"
  "rt_part (QueueGuard_drop n w) = rt_part w"
  "rt_part (drop_send i h data w) = rt_part w"
  "rt_part (DatagramPermit_drop c send w) = rt_part w"
  "rt_part (drop_datagram_send c data w) = rt_part w"
  by (simp_all add: QueueGuard_new_def QueueGuard_drop_def drop_send_def DatagramPermit_drop_def
      drop_datagram_send_def Let_def)

lemma rt_frame_drop [simp]:
  "rt_part (drop_future f w) = rt_part w"
  "rt_part (drop_value iroh v w) = rt_part w"
  "rt_part (drop_joined iroh j w) = rt_part w"
  "rt_part (drop_spawned iroh s w) = rt_part w"
  by (simp_all add: drop_future_def drop_value_def drop_joined_def drop_spawned_def
      split: future.splits res_val.splits option.splits joined.splits sum.splits spawned.splits)

lemma rt_frame_stream_calls [simp]:
  "rt_part (snd (stream_finish iroh i w)) = rt_part w"
  "rt_part (snd (stream_reset iroh i code w)) = rt_part w"
  "rt_part (snd (stream_stop iroh i code w)) = rt_part w"
  "rt_part (snd (stream_abort iroh i code w)) = rt_part w"
  by (simp_all add: stream_finish_def stream_reset_def stream_stop_def stream_abort_def Let_def
      split: prod.splits option.splits sum.splits)

lemma finish_block_Some [simp]: "finish_block r w = Some x \<longleftrightarrow> x = (Inr (Join_result r), w)"
  by (auto simp: finish_block_def)

lemma rt_frame_poll_send:
  "poll_send iroh event i h data written partial send_all chunk_size w = Some (r, w') \<Longrightarrow> rt_part w' = rt_part w"
  by (auto simp: poll_send_def poll_send_all_def poll_send_once_def poll_send_reset_def Let_def
      split: lib_event.splits option.splits if_splits)

lemma rt_frame_poll_recv:
  "poll_recv iroh event i h max_bytes w = Some (r, w') \<Longrightarrow> rt_part w' = rt_part w"
  by (auto simp: poll_recv_def Let_def split: lib_event.splits option.splits if_splits)

lemma rt_frame_poll_connection:
  "poll_connect iroh connected e owner w = Some (r, w') \<Longrightarrow> rt_part w' = rt_part w"
  "poll_accept incoming value e allow_all allowed owner w = Some (r, w') \<Longrightarrow> rt_part w' = rt_part w"
  "poll_accepting iroh handshake e allow_all allowed owner w = Some (r, w') \<Longrightarrow> rt_part w' = rt_part w"
  "poll_closed c w = Some (r, w') \<Longrightarrow> rt_part w' = rt_part w"
  by (auto simp: poll_connect_def poll_accept_def poll_accepting_def poll_closed_def Let_def case_prod_beta
      split: option.splits if_splits bool.splits)

lemma rt_frame_poll_endpoint:
  "poll_close e w = Some (r, w') \<Longrightarrow> rt_part w' = rt_part w"
  "poll_closing e h w = Some (r, w') \<Longrightarrow> rt_part w' = rt_part w"
  "poll_online iroh event profile v w = Some (r, w') \<Longrightarrow> rt_part w' = rt_part w"
  by (auto simp: poll_close_def poll_closing_def poll_online_def Let_def case_prod_beta
      split: option.splits if_splits lib_event.splits)

lemma rt_frame_poll_stream:
  "poll_stream iroh opened kind c owner w = Some (r, w') \<Longrightarrow> rt_part w' = rt_part w"
  "poll_datagram_send sent h c data wait w = Some (r, w') \<Longrightarrow> rt_part w' = rt_part w"
  "poll_datagram_recv received c w = Some (r, w') \<Longrightarrow> rt_part w' = rt_part w"
  by (auto simp: poll_stream_def poll_datagram_send_def poll_datagram_recv_def case_prod_beta
      split: option.splits if_splits)

lemma rt_frame_poll:
  assumes "poll iroh event f w = Some (r, w')"
  shows "rt_part w' = rt_part w"
  using assms
  by (auto simp: poll_def split: future.splits lib_event.splits if_splits
      dest: rt_frame_poll_send rt_frame_poll_recv rt_frame_poll_connection rt_frame_poll_endpoint
        rt_frame_poll_stream)

section \<open>The operation layer commutes with forgetting the rest\<close>

lemma rt_part_moves:
  "rt_part (w\<lparr>rt_alive := A\<rparr>) = (rt_part w)\<lparr>rt_alive := A\<rparr>"
  "rt_part (snd (spawn_operation caller op_ref sv f w)) = snd (spawn_operation caller op_ref sv f (rt_part w))"
  "rt_part (snd (operation_cancel i w)) = snd (operation_cancel i (rt_part w))"
  "rt_part (set_task i g w) = set_task i g (rt_part w)"
  "fst (should_complete i (rt_part w)) = fst (should_complete i w)"
  "snd (should_complete i (rt_part w)) = rt_part (snd (should_complete i w))"
  "select_result i (rt_part w) = map_option rt_part (select_result i w)"
  "select_cancelled i (rt_part w) = map_option (\<lambda>(s, w). (s, rt_part w)) (select_cancelled i w)"
  "send_operation_result i (rt_part w) = map_option rt_part (send_operation_result i w)"
  "supervisor_finish i (rt_part w) = map_option (\<lambda>(j, w). (j, rt_part w)) (supervisor_finish i w)"
  by (simp_all add: rt_part_def op_move_defs Let_def split: prod.splits phase.splits spawned.splits)

lemma start_endpoint_operation_refines:
  "op_step\<^sup>*\<^sup>* (rt_part w) (rt_part (snd (start_endpoint_operation builds caller r name f w)))"
proof -
  have init: "op_step (rt_part w) (rt_part (snd (runtime builds w)))"
    using op_step.init_runtime [of "rt_part w"] by (simp add: runtime_def rt_part_def Let_def)
  moreover have "op_step\<^sup>*\<^sup>* (rt_part (snd (runtime builds w)))
      (rt_part (snd (start_endpoint_operation builds caller r name f w)))"
    using op_step.spawn [of caller "rt_part (snd (runtime builds w))" r "Sup_endpoint name" f]
    by (auto simp: start_endpoint_operation_def case_prod_beta rt_part_moves split: sum.splits)
  ultimately show ?thesis by (rule converse_rtranclp_into_rtranclp)
qed

lemma start_refines:
  "rt_part w = s \<Longrightarrow> op_step\<^sup>*\<^sup>* s (rt_part (snd (start_endpoint_operation builds caller r name f w)))"
  using start_endpoint_operation_refines by blast

lemma runtime_refines: "op_step (rt_part w) (rt_part (snd (runtime builds w)))"
  using op_step.init_runtime [of "rt_part w"] by (simp add: runtime_def rt_part_def Let_def)

lemma spawn_refines:
  assumes "rt_part w' = rt_part (snd (runtime builds w))" and "caller \<in> rt_alive w'"
  shows "op_step\<^sup>*\<^sup>* (rt_part w) (rt_part (snd (spawn_operation caller r sv f w')))"
proof -
  have "op_step (rt_part w) (rt_part w')"
    using runtime_refines [of w builds] by (simp add: assms(1))
  moreover have "op_step (rt_part w') (rt_part (snd (spawn_operation caller r sv f w')))"
    using op_step.spawn [of caller "rt_part w'" r sv f] assms(2) by (simp add: rt_part_moves)
  ultimately show ?thesis by auto
qed

lemma runtime_only_refines:
  "rt_part w' = rt_part (snd (runtime builds w)) \<Longrightarrow> op_step\<^sup>*\<^sup>* (rt_part w) (rt_part w')"
  using runtime_refines [of w builds] by auto

lemma alive_reserve [simp]: "rt_alive (snd (reserve_identity x w)) = rt_alive w"
  using rt_part_eqD [OF rt_frame_endpoint(4)] by blast

lemma endpoint_step_refines:
  assumes "endpoint_step w w'"
  shows "op_step\<^sup>*\<^sup>* (rt_part w) (rt_part w')"
  using assms
proof (induction rule: endpoint_step.induct)
  case (operation_start w builds caller r kind delay)
  show ?case
    by (auto simp: operation_start_def case_prod_beta Let_def intro: spawn_refines runtime_only_refines
        split: sum.splits)
next
  case (endpoint_bind_start w builds api bind_addr_ok public_id caller r key options)
  show ?case
    by (auto simp: endpoint_bind_start_def case_prod_beta Let_def intro: spawn_refines runtime_only_refines
        split: sum.splits)
next
  case (process_exit w p)
  then show ?case using op_step.exit [of "rt_part w" p] by (simp add: rt_part_moves r_into_rtranclp)
next
  case (operation_cancel ix w)
  then show ?case using op_step.cancel [of ix "rt_part w"] by (simp add: rt_part_moves r_into_rtranclp)
next
  case (operation_down ix w)
  then show ?case using op_step.cancel [of ix "rt_part w"] by (simp add: rt_part_moves r_into_rtranclp)
qed (auto simp: endpoint_close_start_def endpoint_await_online_start_def endpoint_abort_def Let_def
       intro: start_refines)

lemma connection_step_refines:
  assumes "connection_step api w w'"
  shows "op_step\<^sup>*\<^sup>* (rt_part w) (rt_part w')"
  using assms
proof (induction rule: connection_step.induct)
  case (connection_connect_start ix w builds caller owner r target alpn)
  show ?case
    by (auto simp: connection_connect_start_def intro: start_refines split: sum.splits option.splits)
next
  case (connection_accept_start ix w builds caller owner r allow_all allowed)
  show ?case
    by (auto simp: connection_accept_start_def case_prod_beta Let_def intro: start_refines
        split: sum.splits option.splits bool.splits)
qed (auto simp: connection_close_def connection_closed_start_def intro: start_refines)

lemma stream_step_refines:
  assumes "stream_step w w'"
  shows "op_step\<^sup>*\<^sup>* (rt_part w) (rt_part w')"
  using assms
proof (induction rule: stream_step.induct)
  case (stream_send_iodata_start ix w builds caller r iolist expected max_bytes)
  show ?case
    by (auto simp: stream_send_iodata_start_def start_stream_send_def case_prod_beta Let_def intro!: start_refines
        split: sum.splits option.splits)
qed (auto simp: stream_start_def stream_send_start_def start_stream_send_def
       stream_recv_start_def datagram_send_start_def datagram_recv_start_def case_prod_beta Let_def
       intro!: start_refines split: sum.splits bool.splits)

lemma task_step_refines:
  assumes "task_step w w'"
  shows "op_step\<^sup>*\<^sup>* (rt_part w) (rt_part w')"
  using assms
proof (induction rule: task_step.induct)
  case (poll ix w iroh event w')
  then obtain f r w1 where f: "tk_spawned (rt_tasks w ! ix) = Sp_running f" "poll iroh event f w = Some (r, w1)"
      and w': "w' = set_task ix (tk_spawned_update
                 (\<lambda>_. case r of Inl f' \<Rightarrow> Sp_running f' | Inr j \<Rightarrow> Sp_finished j)) w1"
    by (auto simp: task_poll_def split: spawned.splits option.splits sum.splits)
  have "rt_part w' = set_task ix (tk_spawned_update
      (\<lambda>_. case r of Inl f' \<Rightarrow> Sp_running f' | Inr j \<Rightarrow> Sp_finished j)) (rt_part w)"
    using rt_frame_poll [OF f(2)] by (simp add: w' rt_part_moves)
  then show ?case
    using op_step.block [of ix "rt_part w" f] poll.hyps(1) f(1) by (auto split: sum.splits intro!: r_into_rtranclp)
next
  case (panic ix w w')
  then obtain f where f: "tk_spawned (rt_tasks w ! ix) = Sp_running f"
      and w': "w' = set_task ix (tk_spawned_update (\<lambda>_. Sp_finished Join_panicked)) (drop_future f w)"
    by (auto simp: task_panic_def split: spawned.splits future.splits)
  then show ?case
    using op_step.block [of ix "rt_part w" f "Sp_finished Join_panicked"] panic.hyps(1)
    by (auto simp: rt_part_moves intro!: r_into_rtranclp)
next
  case (select ix w w')
  then show ?case
    using op_step.select [of ix "rt_part w" "rt_part w'"] by (simp add: rt_part_moves r_into_rtranclp)
next
  case (cancel ix w iroh w')
  then show ?case
    using op_step.select_cancelled [of ix "rt_part w"] by (auto simp: task_cancel_def rt_part_moves intro!: r_into_rtranclp)
next
  case (complete ix w w')
  note moves = op_step.complete [of ix "rt_part w"] op_step.give_up [of ix "rt_part w"]
  show ?case
    using complete moves
    by (auto simp: supervisor_complete_def rt_part_moves prod_eq_iff
        split: supervisor.splits phase.splits prod.splits bool.splits intro!: r_into_rtranclp)
next
  case (bind ix w w')
  note moves = op_step.complete [of ix "rt_part w"] op_step.give_up [of ix "rt_part w"]
  show ?case
    using bind moves
    by (auto simp: bind_complete_def rt_part_moves prod_eq_iff case_prod_beta
        split: supervisor.splits phase.splits bool.splits if_splits intro!: r_into_rtranclp)
next
  case (send ix w w')
  then show ?case
    using op_step.send [of ix "rt_part w" "rt_part w'"] by (simp add: rt_part_moves r_into_rtranclp)
next
  case (finish ix w iroh w')
  then show ?case
    using op_step.finish [of ix "rt_part w"] by (auto simp: task_finish_def rt_part_moves intro!: r_into_rtranclp)
qed

theorem nif_step_refines: "nif_step api w w' \<Longrightarrow> op_step\<^sup>*\<^sup>* (rt_part w) (rt_part w')"
  by (cases rule: nif_step.cases)
     (auto dest: endpoint_step_refines connection_step_refines stream_step_refines task_step_refines)

lemma nif_steps_refine: "(nif_step api)\<^sup>*\<^sup>* w w' \<Longrightarrow> op_step\<^sup>*\<^sup>* (rt_part w) (rt_part w')"
  by (induction rule: rtranclp_induct) (auto dest: nif_step_refines)

end
