(* ===== verification/Demo.thy ===== *)
theory Demo
  imports World
begin

text \<open>
  A worked run of the library, for instances of the theorems: process 1 binds an endpoint,
  accepts a connection, opens a bidirectional stream on it and starts a send and a receive.
  Every state is computed by the model's own operations.
\<close>

type_synonym demo_state = "(demo_addr, (bytes, string) builder) nif_state"

definition demo_options :: native_endpoint_options where
  "demo_options =
     \<lparr>opt_profile = At_direct, opt_alpns = [''a''], opt_bind_addrs = [], opt_relays = [],
      opt_max_connections = 2, opt_max_pending_accepts = 1, opt_direct_ip = True\<rparr>"

definition demo_bind_started :: demo_state where
  "demo_bind_started = snd (endpoint_bind_start True https_url_api (\<lambda>_ _. True) (\<lambda>_. ''id'') 1 1 [0] demo_options
     (initial {1}))"

definition demo_bind_finished :: demo_state where
  "demo_bind_finished = the (task_poll demo_iroh (E_bound (Some 10)) 0 demo_bind_started)"

definition demo_bind_selected :: demo_state where
  "demo_bind_selected = the (select_result 0 demo_bind_finished)"

definition demo_bound :: demo_state where
  "demo_bound = the (bind_complete 0 demo_bind_selected)"

definition demo_settled :: demo_state where
  "demo_settled = the (task_finish demo_iroh 0 (the (send_operation_result 0 demo_bound)))"

definition demo_accept_started :: demo_state where
  "demo_accept_started = snd (connection_accept_start True demo_api 1 1 2 0 True [] demo_bound)"

definition demo_handshaking :: demo_state where
  "demo_handshaking = the (task_poll demo_iroh (E_incoming (Some True)) 1 demo_accept_started)"

definition demo_connected :: demo_state where
  "demo_connected = the (task_poll demo_iroh (E_handshake (Some 20)) 1 demo_handshaking)"

definition demo_stream_opening :: demo_state where
  "demo_stream_opening = snd (stream_start Open_bi True 1 1 3 0 demo_connected)"

definition demo_stream_opened :: demo_state where
  "demo_stream_opened = the (task_poll demo_iroh (E_stream (Some (30, 31))) 2 demo_stream_opening)"

definition demo_send_started :: demo_state where
  "demo_send_started = snd (stream_send_start True 1 4 0 [1, 2, 3] True 2 demo_stream_opened)"

section \<open>The states, computed\<close>

lemma demo_bind_started_eq:
  "demo_bind_started =
     (initial {1})\<lparr>rt_runtime := Some True, rt_operations := [OperationResource_new],
       rt_tasks := [\<lparr>tk_caller = 1, tk_ref = 1,
         tk_supervisor = Sup_bind \<lparr>bc_endpoint_id = ''id'', bc_profile = Direct, bc_direct_ip = True,
            bc_max_pending_accepts = 1, bc_max_connections = 2\<rparr>,
         tk_spawned = Sp_running (Fut_bind [Preset Preset_Minimal, Relay_mode RelayMode_Disabled,
            Clear_address_lookup, Secret_key [0], Alpns [as_bytes ''a'']]), tk_phase = Selecting\<rparr>],
       rt_active_operations := 1, ep_identities := mutex_new {''id''}\<rparr>"
  by (simp add: demo_bind_started_def endpoint_bind_start_def runtime_def initial_def demo_options_def parse_config_def
      MAX_ALPNS_def alpn_invalid_def MAX_ALPN_BYTES_def as_bytes_def MAX_BIND_ADDRS_def profile_of_atom_def
      parse_relay_map_def reserve_identity_def endpoint_builder_def profile_builder_def spawn_operation_def
      bind_profile_def mutex_set_def mutex_new_def Let_def)

definition demo_capture :: bind_capture where
  "demo_capture = \<lparr>bc_endpoint_id = ''id'', bc_profile = Direct, bc_direct_ip = True,
     bc_max_pending_accepts = 1, bc_max_connections = 2\<rparr>"

definition demo_bind_task :: "(demo_addr, (bytes, string) builder) task" where
  "demo_bind_task = \<lparr>tk_caller = 1, tk_ref = 1, tk_supervisor = Sup_bind demo_capture, tk_spawned = Sp_joined,
     tk_phase = Sending (Inr (R_endpoint 0))\<rparr>"

lemmas demo_moves =
  task_poll_def poll_def select_result_def set_task_def bind_complete_def should_complete_def
  operation_complete_eq bind_result_message_def initial_def

lemma demo_bound_eq:
  "demo_bound =
     (initial {1})\<lparr>rt_runtime := Some True,
       rt_operations := [OperationResource_new\<lparr>op_state := COMPLETED\<rparr>], rt_tasks := [demo_bind_task],
       rt_active_operations := 1, ep_identities := mutex_new {''id''},
       ep_endpoints := [EndpointResource_new demo_capture 10 1], ep_active_endpoints := 1\<rparr>"
  by (simp add: demo_bound_def demo_bind_selected_def demo_bind_finished_def demo_bind_started_eq demo_bind_task_def demo_capture_def
      demo_moves)

lemma demo_settled_eq:
  "demo_settled =
     demo_bound\<lparr>rt_tasks := [demo_bind_task\<lparr>tk_phase := Terminated\<rparr>], rt_active_operations := 0,
       rt_mailbox := [(1, 1, Inr (R_endpoint 0))]\<rparr>"
  by (simp add: demo_settled_def demo_bound_eq initial_def demo_bind_task_def send_operation_result_def
      task_finish_def supervisor_finish_def set_task_def drop_joined_def Let_def)

definition demo_endpoint_task :: "reference \<Rightarrow> atom \<Rightarrow> ('a, 'b) spawned \<Rightarrow> ('a, 'b) task" where
  "demo_endpoint_task r name sp = \<lparr>tk_caller = 1, tk_ref = r, tk_supervisor = Sup_endpoint name, tk_spawned = sp,
     tk_phase = Selecting\<rparr>"

lemma demo_accept_started_eq:
  "demo_accept_started =
     demo_bound\<lparr>rt_operations := rt_operations demo_bound @ [OperationResource_new],
       rt_tasks := [demo_bind_task, demo_endpoint_task 2 At_connection_accept (Sp_running (Fut_accept 10 0 True {} 1))],
       rt_active_operations := 2,
       ep_endpoints := [(EndpointResource_new demo_capture 10 1)\<lparr>er_pending_accepts := 1\<rparr>]\<rparr>"
  by (simp add: demo_accept_started_def connection_accept_start_def demo_bound_eq initial_def demo_capture_def
      EndpointResource_begin_accept_def EndpointResource_new_def fetch_update_def set_endpoint_def
      EndpointResource_endpoint_def start_endpoint_operation_def runtime_def spawn_operation_def demo_endpoint_task_def
      Let_def)

definition demo_connection :: connection_resource where
  "demo_connection = ConnectionResource_new demo_iroh 20 0 1 Incoming"

lemma demo_connected_eq:
  "demo_connected =
     demo_accept_started\<lparr>
       rt_tasks := [demo_bind_task, demo_endpoint_task 2 At_connection_accept (Sp_finished (Join_result (Inr (R_connection 0))))],
       ep_endpoints := [(EndpointResource_new demo_capture 10 1)\<lparr>er_active_connections := 1\<rparr>],
       cn_connections := [demo_connection], cn_active_connections := 1\<rparr>"
  by (simp add: demo_connected_def demo_handshaking_def demo_accept_started_eq demo_bound_eq demo_moves demo_endpoint_task_def
      poll_accept_def poll_accepting_def wrap_connection_def EndpointResource_claim_connection_def fetch_update_def
      set_endpoint_def AcceptPermit_drop_def EndpointResource_finish_accept_def checked_sub_def finish_block_def
      EndpointResource_new_def demo_capture_def demo_connection_def Let_def)

lemma demo_stream_opened_eq:
  "demo_stream_opened =
     demo_connected\<lparr>rt_operations := rt_operations demo_connected @ [OperationResource_new],
       rt_tasks := rt_tasks demo_connected @ [demo_endpoint_task 3 At_stream_open_bi (Sp_finished (Join_result (Inr (R_stream 0))))],
       rt_active_operations := 3,
       st_streams := [StreamResource_new (Some 30) (Some 31) 0 0 1], st_active_streams := 1\<rparr>"
  by (simp add: demo_stream_opened_def demo_stream_opening_def demo_connected_eq demo_accept_started_eq demo_bound_eq demo_moves
      stream_start_def connection_value_def ConnectionResource_connection_def demo_connection_def
      ConnectionResource_new_def start_endpoint_operation_def runtime_def spawn_operation_def demo_endpoint_task_def
      poll_stream_def wrap_stream_def finish_block_def demo_iroh_def Let_def)

lemma demo_send_started_eq:
  "demo_send_started =
     demo_stream_opened\<lparr>rt_operations := rt_operations demo_stream_opened @ [OperationResource_new],
       rt_tasks := rt_tasks demo_stream_opened
         @ [demo_endpoint_task 4 At_stream_send (Sp_running (Fut_send 0 30 [1, 2, 3] 0 0 True 2))],
       rt_active_operations := 4,
       st_streams := [(StreamResource_new (Some 30) (Some 31) 0 0 1)\<lparr>sr_send := mutex_new None, sr_send_busy := True\<rparr>],
       st_queued_bytes := 3, st_peak_queued_bytes := 3\<rparr>"
  by (simp add: demo_send_started_def stream_send_start_def start_stream_send_def take_send_def compare_exchange_def
      demo_stream_opened_eq demo_connected_eq demo_accept_started_eq demo_bound_eq initial_def StreamResource_new_def set_stream_def
      QueueGuard_new_def data_len_def usize_of_def start_endpoint_operation_def runtime_def spawn_operation_def
      demo_endpoint_task_def mutex_set_def mutex_new_def Let_def)

section \<open>They are reachable\<close>

lemma reachable_task: "reachable api w \<Longrightarrow> task_step w w' \<Longrightarrow> reachable api w'"
  by (blast intro: reachable.step nif_step.task)

lemma demo_bound_reachable: "reachable api demo_bound"
proof -
  have "reachable api demo_bind_started"
    unfolding demo_bind_started_def
    by (rule reachable.step [OF reachable.start], rule nif_step.endpoint, rule endpoint_step.endpoint_bind_start)
  moreover have "task_step demo_bind_started demo_bind_finished"
    by (rule task_step.poll [where ix = 0 and iroh = demo_iroh and event = "E_bound (Some 10)"]) (simp_all add: demo_bind_finished_def demo_bind_started_eq demo_moves)
  moreover have "task_step demo_bind_finished demo_bind_selected"
    by (rule task_step.select [of 0])
       (simp_all add: demo_bind_selected_def demo_bind_finished_def demo_bind_started_eq demo_moves)
  moreover have "task_step demo_bind_selected demo_bound"
    by (rule task_step.bind [of 0])
       (simp_all add: demo_bound_def demo_bind_selected_def demo_bind_finished_def demo_bind_started_eq demo_moves)
  ultimately show ?thesis by (blast intro: reachable_task)
qed

lemma demo_settled_reachable: "reachable api demo_settled"
proof -
  obtain w where w: "send_operation_result 0 demo_bound = Some w"
    by (simp add: demo_bound_eq initial_def demo_bind_task_def send_operation_result_def Let_def)
  have "task_step demo_bound w"
    by (rule task_step.send [OF _ w]) (simp add: demo_bound_eq)
  moreover have "task_step w demo_settled"
    by (rule task_step.finish [where ix = 0 and iroh = demo_iroh])
       (use w in \<open>auto simp: demo_settled_def demo_bound_eq initial_def demo_bind_task_def send_operation_result_def
          task_finish_def supervisor_finish_def set_task_def Let_def\<close>)
  ultimately show ?thesis using demo_bound_reachable by (blast intro: reachable_task)
qed

lemma demo_accept_started_reachable: "reachable demo_api demo_accept_started"
  unfolding demo_accept_started_def
  by (rule reachable.step [OF demo_bound_reachable], rule nif_step.connection, rule connection_step.connection_accept_start)
     (simp add: live_endpoint_def demo_bound_eq EndpointResource_new_def)

lemma demo_connected_reachable: "reachable demo_api demo_connected"
proof -
  have "task_step demo_accept_started demo_handshaking"
    by (rule task_step.poll [where ix = 1 and iroh = demo_iroh and event = "E_incoming (Some True)"])
       (simp_all add: demo_handshaking_def demo_accept_started_eq demo_bound_eq demo_moves demo_endpoint_task_def poll_accept_def)
  moreover have "task_step demo_handshaking demo_connected"
    by (rule task_step.poll [where ix = 1 and iroh = demo_iroh and event = "E_handshake (Some 20)"])
       (simp_all add: demo_connected_def demo_handshaking_def demo_accept_started_eq demo_bound_eq demo_moves demo_endpoint_task_def
          poll_accept_def poll_accepting_def finish_block_def case_prod_beta Let_def)
  ultimately show ?thesis using demo_accept_started_reachable by (blast intro: reachable_task)
qed

lemma demo_stream_opened_reachable: "reachable demo_api demo_stream_opened"
proof -
  have "reachable demo_api demo_stream_opening"
    unfolding demo_stream_opening_def
    by (rule reachable.step [OF demo_connected_reachable], rule nif_step.stream, rule stream_step.stream_start)
       (simp add: live_connection_def demo_connected_eq demo_connection_def ConnectionResource_new_def)
  moreover have "task_step demo_stream_opening demo_stream_opened"
    by (rule task_step.poll [where ix = 2 and iroh = demo_iroh and event = "E_stream (Some (30, 31))"])
       (simp_all add: demo_stream_opened_def demo_stream_opening_def demo_connected_eq demo_accept_started_eq demo_bound_eq demo_moves
      stream_start_def connection_value_def ConnectionResource_connection_def demo_connection_def
      ConnectionResource_new_def start_endpoint_operation_def runtime_def spawn_operation_def demo_endpoint_task_def
      poll_stream_def wrap_stream_def finish_block_def demo_iroh_def Let_def)
  ultimately show ?thesis by (blast intro: reachable_task)
qed

lemma demo_send_started_reachable: "reachable demo_api demo_send_started"
  unfolding demo_send_started_def
  by (rule reachable.step [OF demo_stream_opened_reachable], rule nif_step.stream, rule stream_step.stream_send_start)
     (simp add: live_stream_def demo_stream_opened_eq StreamResource_new_def)

end
