(* ===== verification/Delivery.thy ===== *)
theory Delivery
  imports World_Refinement Demo
begin

text \<open>
  What callers see of operations, for every reachable state of the library: one message per
  completed operation, none for a cancelled one, termination after cancellation, and an exact
  activity counter. The facts come from the operation protocol through the refinement.
\<close>

section \<open>The protocol invariant on the library\<close>

lemma op_inv_rt_part [simp]: "op_inv (rt_part w) = op_inv w"
  by (simp add: protocol_defs)

lemma op_inv_initial: "op_inv (initial alive)"
  by (simp add: protocol_defs initial_def)

lemma op_inv_nif_steps: "(nif_step api)\<^sup>*\<^sup>* w w' \<Longrightarrow> op_inv w \<Longrightarrow> op_inv w'"
  using op_inv_steps [OF nif_steps_refine] by simp

lemma op_inv_reachable: "reachable api w \<Longrightarrow> op_inv w"
proof (induction rule: reachable.induct)
  case (start alive)
  show ?case by (rule op_inv_initial)
next
  case (step w w')
  then show ?case using op_inv_nif_steps [of api w w'] by blast
qed

lemma reachable_lengths: "reachable api w \<Longrightarrow> length (rt_operations w) = length (rt_tasks w)"
  by (auto dest!: op_inv_reachable simp: op_inv_def dest: list_all2_lengthD)

section \<open>A worked run\<close>

text \<open>The smoke operation of process 1 under reference 7, from its start to its end.\<close>

definition smoke_started :: demo_state where
  "smoke_started = snd (operation_start True 1 7 At_ok 5 (initial {1}))"

definition smoke_selected :: demo_state where
  "smoke_selected = the (select_result 0 (the (task_poll demo_iroh E_elapsed 0 smoke_started)))"

definition smoke_sent :: demo_state where
  "smoke_sent = the (send_operation_result 0 (the (supervisor_complete 0 smoke_selected)))"

definition smoke_cancelled :: demo_state where
  "smoke_cancelled = snd (operation_cancel 0 smoke_started)"

lemmas smoke_defs =
  smoke_started_def smoke_selected_def smoke_sent_def smoke_cancelled_def initial_def operation_start_def
  runtime_def spawn_operation_def task_poll_def poll_def select_result_def set_task_def
  supervisor_complete_def should_complete_def operation_complete_eq smoke_result_def
  send_operation_result_def operation_cancel_def OperationResource_cancel_eq

lemma smoke_started_reachable: "reachable api smoke_started"
  unfolding smoke_started_def
  by (rule reachable.step [OF reachable.start], rule nif_step.endpoint, rule endpoint_step.operation_start)

lemma smoke_selected_reachable: "reachable api smoke_selected"
proof -
  obtain w where w: "task_poll demo_iroh E_elapsed 0 smoke_started = Some w"
    by (simp add: smoke_defs)
  have "reachable api w"
    by (rule reachable.step [OF smoke_started_reachable], rule nif_step.task, rule task_step.poll [OF _ w])
       (simp add: smoke_defs)
  moreover have "task_step w smoke_selected"
    using w by (intro task_step.select [of 0]) (auto simp: smoke_defs)
  ultimately show ?thesis by (blast intro: reachable.step nif_step.task)
qed

lemma smoke_sent_reachable: "reachable api smoke_sent"
proof -
  obtain w where w: "supervisor_complete 0 smoke_selected = Some w"
    by (simp add: smoke_defs)
  have "reachable api w"
    by (rule reachable.step [OF smoke_selected_reachable], rule nif_step.task, rule task_step.complete [OF _ w])
       (simp add: smoke_defs)
  moreover have "task_step w smoke_sent"
    using w by (intro task_step.send [of 0]) (auto simp: smoke_defs)
  ultimately show ?thesis by (blast intro: reachable.step nif_step.task)
qed

lemma smoke_cancelled_reachable: "reachable api smoke_cancelled"
  unfolding smoke_cancelled_def
  by (rule reachable.step [OF smoke_started_reachable], rule nif_step.endpoint, rule endpoint_step.operation_cancel)
     (simp add: smoke_defs)

section \<open>Messages\<close>

text \<open>
  C1. Exactly one message per operation: in every reachable state, a live caller whose
  reference is not shared by another operation has received one message under it if the
  operation's exchange to \<open>COMPLETED\<close> succeeded and its supervisor has passed the send, and
  none otherwise; in particular never two, and none for a cancelled operation.
\<close>

theorem operation_message_exactly_once:
  assumes "reachable api w" and "ix < length (rt_tasks w)"
    and "tk_caller (rt_tasks w ! ix) \<in> rt_alive w"
    and "\<forall>j<length (rt_tasks w). tk_caller (rt_tasks w ! j) = tk_caller (rt_tasks w ! ix)
           \<and> tk_ref (rt_tasks w ! j) = tk_ref (rt_tasks w ! ix) \<longrightarrow> j = ix"
  shows "sent_messages (tk_caller (rt_tasks w ! ix)) (tk_ref (rt_tasks w ! ix)) w
       = of_bool (op_state (rt_operations w ! ix) = COMPLETED \<and> past_send (tk_phase (rt_tasks w ! ix)))"
proof -
  let ?p = "tk_caller (rt_tasks w ! ix)" and ?r = "tk_ref (rt_tasks w ! ix)"
  have "int (sent_messages ?p ?r w) = reported_operations ?p ?r w"
    using op_inv_reachable [OF assms(1)] assms(3) by (simp add: op_inv_def)
  also have "\<dots> = of_bool (reports ?p ?r (rt_operations w ! ix, rt_tasks w ! ix))"
    using assms(2,4) reachable_lengths [OF assms(1)] by (intro reported_operations_unique) auto
  finally have "int (sent_messages ?p ?r w)
      = int (of_bool (op_state (rt_operations w ! ix) = COMPLETED \<and> past_send (tk_phase (rt_tasks w ! ix))))"
    by (simp add: reports_def)
  then show ?thesis by (simp only: of_nat_eq_iff)
qed

theorem operation_message_exactly_once_witness: "sent_messages 1 7 smoke_sent = 1"
  using operation_message_exactly_once [OF smoke_sent_reachable, of 0]
  by (simp add: smoke_defs past_send_def)

text \<open>
  C2. A won cancellation silences the operation for good: once \<open>operation_cancel\<close> has answered
  true, the operation is \<open>CANCELLED\<close> in every later state, and no message under its reference
  has been or will be sent, whatever its block and its supervisor do.
\<close>

theorem cancelled_operation_silent:
  assumes "reachable api w" and "ix < length (rt_operations w)"
    and "operation_cancel ix w = (True, w1)" and "(nif_step api)\<^sup>*\<^sup>* w1 w2"
    and "\<forall>j<length (rt_tasks w2). tk_caller (rt_tasks w2 ! j) = tk_caller (rt_tasks w ! ix)
           \<and> tk_ref (rt_tasks w2 ! j) = tk_ref (rt_tasks w ! ix) \<longrightarrow> j = ix"
  shows "op_state (rt_operations w2 ! ix) = CANCELLED
    \<and> sent_messages (tk_caller (rt_tasks w ! ix)) (tk_ref (rt_tasks w ! ix)) w2 = 0"
proof -
  let ?p = "tk_caller (rt_tasks w ! ix)" and ?r = "tk_ref (rt_tasks w ! ix)"
  have w1: "op_state (rt_operations w1 ! ix) = CANCELLED" "rt_tasks w1 = rt_tasks w"
      "length (rt_operations w1) = length (rt_operations w)"
    using assms(2,3) by (auto simp: operation_cancel_def OperationResource_cancel_eq split: if_splits)
  have ix: "ix < length (rt_tasks w1)"
    using assms(2) reachable_lengths [OF assms(1)] by (simp add: w1)
  note steps = nif_steps_refine [OF assms(4)]
  have settled: "op_state (rt_operations w2 ! ix) = CANCELLED"
    using op_steps_state_stable [OF steps, of ix] assms(2) by (simp add: w1)
  have task: "tk_caller (rt_tasks w2 ! ix) = ?p" "tk_ref (rt_tasks w2 ! ix) = ?r" "ix < length (rt_tasks w2)"
    using op_steps_task_stable [OF steps, of ix] ix by (auto simp: w1)
  have "nif_step api w w1"
    using endpoint_step.operation_cancel [OF assms(2)] assms(3) by (metis nif_step.endpoint snd_conv)
  then have inv: "op_inv w2"
    using op_inv_nif_steps [OF assms(4)] op_inv_reachable [OF reachable.step [OF assms(1)]] by blast
  have "reported_operations ?p ?r w2 = of_bool (reports ?p ?r (rt_operations w2 ! ix, rt_tasks w2 ! ix))"
    using inv task assms(5) by (intro reported_operations_unique) (auto simp: op_inv_def dest: list_all2_lengthD)
  also have "\<dots> = 0" by (simp add: reports_def settled)
  finally have "int (sent_messages ?p ?r w2) \<le> 0"
    using inv by (simp add: op_inv_def) (metis of_nat_le_0_iff)
  then show ?thesis using settled by simp
qed

theorem cancelled_operation_silent_witness:
  "op_state (rt_operations smoke_cancelled ! 0) = CANCELLED \<and> sent_messages 1 7 smoke_cancelled = 0"
  using cancelled_operation_silent [OF smoke_started_reachable [of demo_api], of 0 smoke_cancelled smoke_cancelled]
  by (simp add: smoke_defs)

section \<open>Termination and activity\<close>

lemma supervisor_gives_up:
  assumes "tk_phase (rt_tasks w ! ix) = Selected result" and "op_state (rt_operations w ! ix) = CANCELLED"
    and "ix < length (rt_tasks w)"
  shows "\<exists>w'. (supervisor_complete ix w = Some w' \<or> bind_complete ix w = Some w')
    \<and> rt_part w' = set_task ix (tk_phase_update (\<lambda>_. Finishing result)) (rt_part w)"
proof -
  have lost: "should_complete ix w = (False, w)"
    using assms(2) by (simp add: should_complete_def operation_complete_eq)
  show ?thesis
    using assms
    by (cases "tk_supervisor (rt_tasks w ! ix)")
       (auto simp: supervisor_complete_def bind_complete_def lost rt_part_moves)
qed

text \<open>
  C9. A cancelled operation ends: when an operation has been cancelled while its supervisor
  waits, three moves of the supervisor are enabled one after the other and end it. They drop
  the block with everything it owns, send nothing and lower the activity counter by one.
\<close>

theorem cancelled_operation_terminates:
  assumes "reachable api w" and "ix < length (rt_tasks w)"
    and "op_state (rt_operations w ! ix) = CANCELLED" and "tk_phase (rt_tasks w ! ix) = Selecting"
  shows "\<exists>w1 w2 w3. task_cancel iroh ix w = Some w1
    \<and> (supervisor_complete ix w1 = Some w2 \<or> bind_complete ix w1 = Some w2)
    \<and> task_finish iroh ix w2 = Some w3
    \<and> tk_phase (rt_tasks w3 ! ix) = Terminated \<and> tk_spawned (rt_tasks w3 ! ix) = Sp_joined
    \<and> rt_active_operations w3 = rt_active_operations w - 1 \<and> rt_mailbox w3 = rt_mailbox w"
proof -
  have permit: "op_cancelled (rt_operations w ! ix)"
    using op_inv_nth [OF op_inv_reachable [OF assms(1)] assms(2)] assms(3,4) by (simp add: op_ok_def)
  obtain s w' where sel: "select_cancelled ix w = Some (s, w')"
    using assms(4) permit by (simp add: select_cancelled_def)
  let ?w1 = "drop_spawned iroh s w'"
  have w1: "task_cancel iroh ix w = Some ?w1" by (simp add: task_cancel_def sel)
  have part1: "rt_part ?w1 = rt_part w'" by simp
  note f1 = rt_part_eqD [OF part1]
  have sel1: "rt_tasks w' = (rt_tasks w)[ix := (rt_tasks w ! ix)\<lparr>tk_spawned := Sp_joined, tk_phase := Selected None\<rparr>]"
      "rt_operations w' = (rt_operations w)[ix := (rt_operations w ! ix)\<lparr>op_cancelled := False\<rparr>]"
      "rt_active_operations w' = rt_active_operations w" "rt_mailbox w' = rt_mailbox w"
    using sel assms(4) permit by (auto simp: select_cancelled_def set_task_def)
  have ix: "ix < length (rt_operations w)"
    using assms(2) reachable_lengths [OF assms(1)] by simp
  obtain w2 where w2: "supervisor_complete ix ?w1 = Some w2 \<or> bind_complete ix ?w1 = Some w2"
      "rt_part w2 = set_task ix (tk_phase_update (\<lambda>_. Finishing None)) (rt_part ?w1)"
    using supervisor_gives_up [of ?w1 ix None] f1 sel1 assms(2,3) ix by auto
  then have f2: "rt_part w2 = set_task ix (tk_phase_update (\<lambda>_. Finishing None)) (rt_part w')"
    by simp
  have t2: "rt_tasks w2 = (rt_tasks w)[ix := (rt_tasks w ! ix)\<lparr>tk_spawned := Sp_joined, tk_phase := Finishing None\<rparr>]"
      "rt_active_operations w2 = rt_active_operations w" "rt_mailbox w2 = rt_mailbox w"
    using arg_cong [OF f2, of rt_tasks] arg_cong [OF f2, of rt_active_operations]
      arg_cong [OF f2, of rt_mailbox] assms(2) by (simp_all add: sel1 set_task_def)
  obtain w3 where w3: "supervisor_finish ix w2 = Some (None, w3)"
    using assms(2) by (simp add: supervisor_finish_def t2)
  then have "task_finish iroh ix w2 = Some w3"
    by (simp add: task_finish_def drop_joined_def)
  moreover have "tk_phase (rt_tasks w3 ! ix) = Terminated" "tk_spawned (rt_tasks w3 ! ix) = Sp_joined"
      "rt_active_operations w3 = rt_active_operations w - 1" "rt_mailbox w3 = rt_mailbox w"
    using w3 assms(2) by (auto simp: supervisor_finish_def set_task_def t2)
  ultimately show ?thesis using w1 w2(1) by blast
qed

theorem cancelled_operation_terminates_witness:
  "\<exists>w1 w2 w3. task_cancel demo_iroh 0 smoke_cancelled = Some w1
    \<and> (supervisor_complete 0 w1 = Some w2 \<or> bind_complete 0 w1 = Some w2)
    \<and> task_finish demo_iroh 0 w2 = Some w3
    \<and> tk_phase (rt_tasks w3 ! 0) = Terminated \<and> tk_spawned (rt_tasks w3 ! 0) = Sp_joined
    \<and> rt_active_operations w3 = rt_active_operations smoke_cancelled - 1
    \<and> rt_mailbox w3 = rt_mailbox smoke_cancelled"
  by (rule cancelled_operation_terminates [OF smoke_cancelled_reachable [of demo_api]])
     (simp_all add: smoke_defs)

lemma running_operations_length:
  "running_operations w = of_nat (length (filter (\<lambda>t. tk_phase t \<noteq> Terminated) (rt_tasks w)))"
  by (simp add: running_operations_def total_of_bool)

text \<open>
  C27. The activity counter is exact: in every reachable state with fewer than \<open>2^64\<close>
  operations, \<open>operation_snapshot\<close> is the number of operations whose supervisor has not ended,
  so the counter never leaks and never wraps below zero.
\<close>

theorem operation_snapshot_exact:
  assumes "reachable api w" and "length (rt_tasks w) < 2 ^ 64"
  shows "unat (operation_snapshot w) = length (filter (\<lambda>t. tk_phase t \<noteq> Terminated) (rt_tasks w))"
proof -
  let ?n = "length (filter (\<lambda>t. tk_phase t \<noteq> Terminated) (rt_tasks w))"
  have "operation_snapshot w = of_nat ?n"
    using op_inv_reachable [OF assms(1)] by (simp add: op_inv_def operation_snapshot_def running_operations_length)
  moreover have "?n < 2 ^ 64"
    using assms(2) length_filter_le le_less_trans by blast
  ultimately show ?thesis by (simp add: unat_of_nat_usize)
qed

theorem operation_snapshot_exact_witness: "unat (operation_snapshot smoke_sent) = 1"
  using operation_snapshot_exact [OF smoke_sent_reachable [of demo_api]] by (simp add: smoke_defs)

text \<open>
  C28. No cancelled block is ever reported: a supervisor that goes on to send its message had
  selected the result of a finished block. The arms of the three supervisors that build a
  message from the cancellation branch of the \<open>select!\<close> are unreachable.
\<close>

theorem message_needs_finished_block:
  assumes "reachable api w" and "ix < length (rt_tasks w)"
    and "supervisor_complete ix w = Some w' \<or> bind_complete ix w = Some w'"
    and "tk_phase (rt_tasks w' ! ix) = Sending m"
  shows "\<exists>j. tk_phase (rt_tasks w ! ix) = Selected (Some j)"
proof -
  obtain result where phase: "tk_phase (rt_tasks w ! ix) = Selected result"
    using assms(3)
    by (auto simp: supervisor_complete_def bind_complete_def split: supervisor.splits phase.splits)
  have "result \<noteq> None"
  proof
    assume "result = None"
    then have "op_state (rt_operations w ! ix) = CANCELLED"
      using op_inv_nth [OF op_inv_reachable [OF assms(1)] assms(2)] phase by (simp add: op_ok_def)
    then have "rt_part w' = set_task ix (tk_phase_update (\<lambda>_. Finishing result)) (rt_part w)"
      using assms(3) phase
      by (auto simp: supervisor_complete_def bind_complete_def should_complete_def operation_complete_eq
          rt_part_moves split: supervisor.splits)
    then have "rt_tasks w' = rt_tasks (set_task ix (tk_phase_update (\<lambda>_. Finishing result)) (rt_part w))"
      by (metis rt_part_sel(4))
    then show False using assms(2,4) by (simp add: set_task_def)
  qed
  then show ?thesis using phase by blast
qed

theorem message_needs_finished_block_witness:
  "\<exists>j. tk_phase (rt_tasks smoke_selected ! 0) = Selected (Some j)"
  by (rule message_needs_finished_block [OF smoke_selected_reachable [of demo_api], of _ _ "Inr (R_atom At_completed)",
        where w' = "the (supervisor_complete 0 smoke_selected)"])
     (simp_all add: smoke_defs)

end
