(* ===== verification/Operation_Contract.thy ===== *)
theory Operation_Contract
  imports Delivery
begin

text \<open>
  What the library promises to a process that starts operations, as a machine over calls: a call
  waits, is withdrawn, or is answered, and an answer is delivered to a live process. The library
  is an implementation of that machine.
\<close>

section \<open>The machine over calls\<close>

datatype call_view =
    Waiting
  | Withdrawn
  | Answering "res_val nif_result"
  | Answered

record call_spec =
  cs_alive :: "pid set"
  cs_calls :: "(pid \<times> reference \<times> call_view) list"
  cs_inbox :: "message list"

inductive call_step :: "call_spec \<Rightarrow> call_spec \<Rightarrow> bool" where
  start: "p \<in> cs_alive s \<Longrightarrow> call_step s (s\<lparr>cs_calls := cs_calls s @ [(p, r, Waiting)]\<rparr>)"
| withdraw:
    "i < length (cs_calls s) \<Longrightarrow> cs_calls s ! i = (p, r, Waiting)
       \<Longrightarrow> call_step s (s\<lparr>cs_calls := (cs_calls s)[i := (p, r, Withdrawn)]\<rparr>)"
| answer:
    "i < length (cs_calls s) \<Longrightarrow> cs_calls s ! i = (p, r, Waiting)
       \<Longrightarrow> call_step s (s\<lparr>cs_calls := (cs_calls s)[i := (p, r, Answering m)]\<rparr>)"
| deliver:
    "i < length (cs_calls s) \<Longrightarrow> cs_calls s ! i = (p, r, Answering m)
       \<Longrightarrow> call_step s (s\<lparr>cs_calls := (cs_calls s)[i := (p, r, Answered)],
                        cs_inbox := cs_inbox s @ (if p \<in> cs_alive s then [(p, r, m)] else [])\<rparr>)"
| exit: "call_step s (s\<lparr>cs_alive := cs_alive s - {p}\<rparr>)"

section \<open>The calls of a state of the library\<close>

definition view_of :: "operation_resource \<Rightarrow> ('a, 'b) task \<Rightarrow> call_view" where
  "view_of p t =
     (if op_state p = RUNNING then Waiting
      else if op_state p = CANCELLED then Withdrawn
      else (case tk_phase t of Sending m \<Rightarrow> Answering m | _ \<Rightarrow> Answered))"

definition call_of :: "operation_resource \<times> ('a, 'b) task \<Rightarrow> pid \<times> reference \<times> call_view" where
  "call_of = (\<lambda>(p, t). (tk_caller t, tk_ref t, view_of p t))"

definition calls_of :: "('a, 'b, 'z) rt_state_scheme \<Rightarrow> call_spec" where
  "calls_of w = \<lparr>cs_alive = rt_alive w, cs_calls = map call_of (zip (rt_operations w) (rt_tasks w)),
                 cs_inbox = rt_mailbox w\<rparr>"

lemma calls_of_rt_part [simp]: "calls_of (rt_part w) = calls_of w"
  by (simp add: calls_of_def)

lemma zip_update_both: "zip (xs[i := x]) (ys[i := y]) = (zip xs ys)[i := (x, y)]"
  by (simp add: update_zip)

section \<open>The simulation\<close>

text \<open>One operation moves: the machine makes the same step, or none when the view stays.\<close>

lemma calls_of_update:
  assumes len: "length (rt_operations s) = length (rt_tasks s)" and ix: "ix < length (rt_tasks s)"
    and ops: "rt_operations s' = (rt_operations s)[ix := p]"
    and tasks: "rt_tasks s' = (rt_tasks s)[ix := t]"
    and alive: "rt_alive s' = rt_alive s" and mailbox: "rt_mailbox s' = rt_mailbox s @ ms"
  shows "calls_of s' = (calls_of s)\<lparr>cs_calls := (cs_calls (calls_of s))[ix := call_of (p, t)],
           cs_inbox := cs_inbox (calls_of s) @ ms\<rparr>"
    and "ix < length (cs_calls (calls_of s))"
    and "cs_calls (calls_of s) ! ix = call_of (rt_operations s ! ix, rt_tasks s ! ix)"
  using len ix by (simp_all add: calls_of_def ops tasks alive mailbox zip_update_both map_update)

lemma calls_of_stutter:
  assumes "length (rt_operations s) = length (rt_tasks s)" "ix < length (rt_tasks s)"
    "rt_operations s' = (rt_operations s)[ix := p]" "rt_tasks s' = (rt_tasks s)[ix := t]"
    "rt_alive s' = rt_alive s" "rt_mailbox s' = rt_mailbox s"
    "call_of (p, t) = call_of (rt_operations s ! ix, rt_tasks s ! ix)"
  shows "calls_of s' = calls_of s"
proof -
  note u = calls_of_update[OF assms(1-5), of "[]"]
  have "calls_of s' = (calls_of s)\<lparr>cs_calls := (cs_calls (calls_of s))[ix := cs_calls (calls_of s) ! ix]\<rparr>"
    using u assms(6,7) by simp
  then show ?thesis by simp
qed

lemma op_step_calls:
  assumes step: "op_step s s'" and inv: "op_inv s"
  shows "call_step\<^sup>=\<^sup>= (calls_of s) (calls_of s')"
proof -
  have len: "length (rt_operations s) = length (rt_tasks s)"
    using inv by (auto simp: op_inv_def dest: list_all2_lengthD)
  note ok = op_inv_nth(1)[OF inv]
  note upd = calls_of_update[OF len] and same = calls_of_stutter[OF len]
  let ?p = "\<lambda>ix. rt_operations s ! ix" and ?t = "\<lambda>ix. rt_tasks s ! ix"
  from step show ?thesis
  proof cases
    case (init_runtime x)
    then show ?thesis by (simp add: calls_of_def)
  next
    case (spawn caller r sv f)
    then have "calls_of s' = (calls_of s)\<lparr>cs_calls := cs_calls (calls_of s) @ [(caller, r, Waiting)]\<rparr>"
      using len by (simp add: calls_of_def spawn_operation_def call_of_def view_of_def)
    then show ?thesis using call_step.start[of caller "calls_of s" r] spawn(2) by (simp add: calls_of_def)
  next
    case (exit p)
    then show ?thesis using call_step.exit[of "calls_of s" p] by (simp add: calls_of_def)
  next
    case (cancel ix)
    show ?thesis
    proof (cases "op_state (?p ix) = RUNNING")
      case True
      note u = upd[of ix s' "snd (OperationResource_cancel (?p ix))" "?t ix" "[]"]
      show ?thesis
        using call_step.withdraw[of ix "calls_of s" "tk_caller (?t ix)" "tk_ref (?t ix)"] u True cancel len
        by (simp add: operation_cancel_def OperationResource_cancel_eq call_of_def view_of_def)
    next
      case False
      then have "calls_of s' = calls_of s"
        using cancel len by (simp add: operation_cancel_def OperationResource_cancel_eq)
      then show ?thesis by simp
    qed
  next
    case (block ix f sp)
    have "calls_of s' = calls_of s"
      by (rule same[of ix _ "?p ix" "(?t ix)\<lparr>tk_spawned := sp\<rparr>"])
        (use block in \<open>simp_all add: set_task_def call_of_def view_of_def\<close>)
    then show ?thesis by simp
  next
    case (select ix)
    then obtain j where j: "tk_phase (?t ix) = Selecting"
      "s' = set_task ix (\<lambda>t. t\<lparr>tk_spawned := Sp_joined, tk_phase := Selected (Some j)\<rparr>) s"
      by (auto simp: select_result_def split: phase.splits spawned.splits)
    have "calls_of s' = calls_of s"
      by (rule same[of ix _ "?p ix" "(?t ix)\<lparr>tk_spawned := Sp_joined, tk_phase := Selected (Some j)\<rparr>"])
        (use select j in \<open>simp_all add: set_task_def call_of_def view_of_def\<close>)
    then show ?thesis by simp
  next
    case (select_cancelled ix sp)
    have "calls_of s' = calls_of s"
      by (rule same[of ix _ "(?p ix)\<lparr>op_cancelled := False\<rparr>"
            "(?t ix)\<lparr>tk_spawned := Sp_joined, tk_phase := Selected None\<rparr>"])
        (use select_cancelled in
          \<open>auto simp: select_cancelled_def set_task_def call_of_def view_of_def split: if_splits\<close>)
    then show ?thesis by simp
  next
    case (complete ix result u m)
    then have run: "op_state (?p ix) = RUNNING" by (auto simp: should_complete_def operation_complete_eq split: if_splits)
    note u = upd[of ix s' "(?p ix)\<lparr>op_state := COMPLETED\<rparr>" "(?t ix)\<lparr>tk_phase := Sending m\<rparr>" "[]"]
    have "s' = set_task ix (tk_phase_update (\<lambda>_. Sending m))
        (s\<lparr>rt_operations := (rt_operations s)[ix := (?p ix)\<lparr>op_state := COMPLETED\<rparr>]\<rparr>)"
      using complete run by (auto simp: should_complete_def operation_complete_eq)
    then show ?thesis
      using call_step.answer[of ix "calls_of s" "tk_caller (?t ix)" "tk_ref (?t ix)" m] u run complete(2)
      by (simp add: set_task_def call_of_def view_of_def)
  next
    case (give_up ix result u)
    have "calls_of s' = calls_of s"
      by (rule same[of ix _ "?p ix" "(?t ix)\<lparr>tk_phase := Finishing result\<rparr>"])
        (use give_up ok[of ix] in
          \<open>auto simp: should_complete_def operation_complete_eq set_task_def call_of_def view_of_def op_ok_def
            split: if_splits\<close>)
    then show ?thesis by simp
  next
    case (send ix)
    then obtain m where m: "tk_phase (?t ix) = Sending m"
      by (auto simp: send_operation_result_def Let_def split: phase.splits)
    with ok[of ix] send have settled: "op_state (?p ix) = COMPLETED" by (simp add: op_ok_def)
    let ?ms = "if tk_caller (?t ix) \<in> rt_alive s then [(tk_caller (?t ix), tk_ref (?t ix), m)] else []"
    let ?rest = "if tk_caller (?t ix) \<in> rt_alive s then None else Some (Join_result m)"
    note u = upd[of ix s' "?p ix" "(?t ix)\<lparr>tk_phase := Finishing ?rest\<rparr>" ?ms]
    show ?thesis
      using call_step.deliver[of ix "calls_of s" "tk_caller (?t ix)" "tk_ref (?t ix)" m] u settled m send
      by (auto simp: send_operation_result_def Let_def set_task_def call_of_def view_of_def calls_of_def
          split: if_splits)
  next
    case (finish ix j)
    have "calls_of s' = calls_of s"
      by (rule same[of ix _ "?p ix" "(?t ix)\<lparr>tk_phase := Terminated\<rparr>"])
        (use finish ok[of ix] in
          \<open>auto simp: supervisor_finish_def set_task_def call_of_def view_of_def op_ok_def split: phase.splits\<close>)
    then show ?thesis by simp
  qed
qed

lemma op_steps_calls:
  "op_step\<^sup>*\<^sup>* s s' \<Longrightarrow> op_inv s \<Longrightarrow> call_step\<^sup>*\<^sup>* (calls_of s) (calls_of s')"
proof (induction rule: rtranclp_induct)
  case (step s' s'')
  then have "call_step\<^sup>=\<^sup>= (calls_of s') (calls_of s'')"
    using op_step_calls op_inv_steps by blast
  with step show ?case by auto
qed simp

lemma reachable_calls: "reachable api w \<Longrightarrow> nif_step api w w' \<Longrightarrow> call_step\<^sup>*\<^sup>* (calls_of w) (calls_of w')"
  using op_steps_calls[OF nif_step_refines] op_inv_reachable by fastforce

lemma reachable_calls_from_start:
  "reachable api w \<Longrightarrow> \<exists>alive. call_step\<^sup>*\<^sup>* \<lparr>cs_alive = alive, cs_calls = [], cs_inbox = []\<rparr> (calls_of w)"
proof (induction rule: reachable.induct)
  case (start alive)
  then show ?case by (auto simp: calls_of_def initial_def)
next
  case (step w w')
  then show ?case using reachable_calls rtranclp_trans by meson
qed

text \<open>
  C14. The library implements the machine over calls: every reachable state is, seen through its
  calls, a state the machine reaches from no calls at all, and whatever a NIF call, a monitor
  callback, the collection of a resource or a task does there is a sequence of steps of the
  machine. A call is started by a live process, then withdrawn or answered but never both, and
  its answer is put into the inbox of its process once, if it lives.
\<close>

theorem library_refines_calls:
  assumes "reachable api w" and "nif_step api w w'"
  shows "(\<exists>alive. call_step\<^sup>*\<^sup>* \<lparr>cs_alive = alive, cs_calls = [], cs_inbox = []\<rparr> (calls_of w))
    \<and> call_step\<^sup>*\<^sup>* (calls_of w) (calls_of w')"
  using reachable_calls_from_start[OF assms(1)] reachable_calls[OF assms] by simp

theorem library_refines_calls_witness:
  "calls_of smoke_started = \<lparr>cs_alive = {1}, cs_calls = [(1, 7, Waiting)], cs_inbox = []\<rparr>
    \<and> calls_of smoke_cancelled = \<lparr>cs_alive = {1}, cs_calls = [(1, 7, Withdrawn)], cs_inbox = []\<rparr>
    \<and> call_step\<^sup>*\<^sup>* (calls_of smoke_started) (calls_of smoke_cancelled)"
proof -
  have "nif_step demo_api smoke_started smoke_cancelled"
    unfolding smoke_cancelled_def
    by (rule nif_step.endpoint, rule endpoint_step.operation_cancel) (simp add: smoke_defs)
  from library_refines_calls[OF smoke_started_reachable this] show ?thesis
    by (simp add: calls_of_def smoke_defs call_of_def view_of_def)
qed

end
