(* ===== verification/Task_Rules.thy ===== *)
theory Task_Rules
  imports World_Refinement
begin

text \<open>
  Properties of single operations: a client says what holds of the block a NIF starts, of what a
  resumption makes of it, of its output and of the message built from it; what follows for every
  task and every message of every reachable state is proved once.
\<close>

locale task_rules =
  fixes block :: "supervisor \<Rightarrow> ('a, ('key, 'url) builder) future \<Rightarrow> bool"
    and yields :: "supervisor \<Rightarrow> joined \<Rightarrow> bool"
    and answers :: "supervisor \<Rightarrow> res_val nif_result \<Rightarrow> bool"
  assumes block_smoke: "block (Sup_smoke kind) (Fut_sleep delay)"
    and block_bind: "block (Sup_bind c) (Fut_bind builder)"
    and block_close: "block (Sup_endpoint At_endpoint_close) (Fut_close endpoint)"
    and block_online: "block (Sup_endpoint At_endpoint_online) (Fut_online profile value)"
    and block_connect: "\<not> connect_alpn_invalid alpn
          \<Longrightarrow> block (Sup_endpoint At_connection_connect) (Fut_connect h target alpn endpoint owner)"
    and block_accept: "block (Sup_endpoint At_connection_accept) (Fut_accept h endpoint allow_all allowed owner)"
    and block_closed: "block (Sup_endpoint At_connection_closed) (Fut_closed h connection)"
    and block_stream: "block (Sup_endpoint (stream_op_atom sop)) (Fut_stream sop h connection owner)"
    and block_send: "data \<noteq> [] \<Longrightarrow> chunk_size \<noteq> 0
          \<Longrightarrow> block (Sup_endpoint At_stream_send) (Fut_send stream h data 0 0 send_all chunk_size)"
    and block_recv: "max_bytes \<noteq> 0 \<Longrightarrow> max_bytes \<le> MAX_RECV_BYTES
          \<Longrightarrow> block (Sup_endpoint At_stream_recv) (Fut_recv stream h max_bytes)"
    and block_datagram_send: "data \<noteq> []
          \<Longrightarrow> block (Sup_endpoint At_datagram_send) (Fut_datagram_send h connection data wait)"
    and block_datagram_recv: "block (Sup_endpoint At_datagram_recv) (Fut_datagram_recv h connection)"
    and block_poll: "poll iroh event f w = Some (Inl f', w') \<Longrightarrow> block sv f \<Longrightarrow> block sv f'"
    and output_poll: "poll iroh event f (w :: ('a, ('key, 'url) builder) nif_state) = Some (Inr j, w')
          \<Longrightarrow> block sv f \<Longrightarrow> yields sv j"
    and output_panic: "yields sv Join_panicked"
    and message_smoke: "answers (Sup_smoke kind) (smoke_result kind)"
    and message_endpoint: "pred_option (yields (Sup_endpoint name)) result
          \<Longrightarrow> answers (Sup_endpoint name) (endpoint_operation_result name result)"
    and message_bind: "pred_option (yields (Sup_bind c)) bound
          \<Longrightarrow> answers (Sup_bind c) (fst (bind_result_message caller c bound (w :: ('a, ('key, 'url) builder) nif_state)))"
begin

fun spawned_ok :: "supervisor \<Rightarrow> ('a, ('key, 'url) builder) spawned \<Rightarrow> bool" where
  "spawned_ok sv (Sp_running f) = block sv f"
| "spawned_ok sv (Sp_finished j) = yields sv j"
| "spawned_ok sv Sp_joined = True"

fun phase_ok :: "supervisor \<Rightarrow> phase \<Rightarrow> bool" where
  "phase_ok sv (Selected result) = pred_option (yields sv) result"
| "phase_ok sv (Sending m) = answers sv m"
| "phase_ok sv _ = True"

definition task_ok :: "('a, ('key, 'url) builder) task \<Rightarrow> bool" where
  "task_ok t \<longleftrightarrow> spawned_ok (tk_supervisor t) (tk_spawned t) \<and> phase_ok (tk_supervisor t) (tk_phase t)"

definition message_ok :: "('a, ('key, 'url) builder) task list \<Rightarrow> message \<Rightarrow> bool" where
  "message_ok ts = (\<lambda>(p, r, m). \<exists>t\<in>set ts. tk_caller t = p \<and> tk_ref t = r \<and> answers (tk_supervisor t) m)"

definition tasks_ok :: "('a, ('key, 'url) builder) rt_state \<Rightarrow> bool" where
  "tasks_ok s \<longleftrightarrow> list_all task_ok (rt_tasks s) \<and> list_all (message_ok (rt_tasks s)) (rt_mailbox s)"

lemma message_ok_append: "message_ok ts m \<Longrightarrow> message_ok (ts @ us) m"
  by (auto simp: message_ok_def)

lemma message_ok_update:
  assumes "message_ok ts m" and "tk_caller t = tk_caller (ts ! i)" "tk_ref t = tk_ref (ts ! i)"
    "tk_supervisor t = tk_supervisor (ts ! i)"
  shows "message_ok (ts[i := t]) m"
proof (cases "i < length ts")
  case True
  obtain p r v where m: "m = (p, r, v)" by (cases m)
  with assms(1) obtain j where j: "j < length ts" "tk_caller (ts ! j) = p" "tk_ref (ts ! j) = r"
      "answers (tk_supervisor (ts ! j)) v"
    by (auto simp: message_ok_def in_set_conv_nth)
  then have "ts[i := t] ! j \<in> set (ts[i := t])" by (intro nth_mem) simp
  moreover have "tk_caller (ts[i := t] ! j) = p" "tk_ref (ts[i := t] ! j) = r"
      "answers (tk_supervisor (ts[i := t] ! j)) v"
    using j True assms(2-4) by (cases "i = j"; simp)+
  ultimately show ?thesis by (auto simp: message_ok_def m)
qed (use assms in \<open>simp add: list_update_beyond\<close>)

section \<open>Starting\<close>

lemma tasks_ok_runtime [simp]: "tasks_ok (rt_part (snd (runtime builds w))) = tasks_ok (rt_part w)"
  by (simp add: tasks_ok_def runtime_def Let_def)

lemma tasks_ok_spawn:
  "tasks_ok (rt_part w) \<Longrightarrow> block sv f \<Longrightarrow> tasks_ok (rt_part (snd (spawn_operation caller r sv f w)))"
  by (auto simp: tasks_ok_def spawn_operation_def task_ok_def list_all_iff intro: message_ok_append)

lemma tasks_ok_start:
  assumes "tasks_ok (rt_part w)" and "block (Sup_endpoint name) f"
  shows "tasks_ok (rt_part (snd (start_endpoint_operation builds caller r name f w)))"
  using assms
  by (auto simp: start_endpoint_operation_def case_prod_beta intro!: tasks_ok_spawn split: sum.splits)

lemma endpoint_step_tasks:
  assumes "endpoint_step w w'" and "tasks_ok (rt_part w)"
  shows "tasks_ok (rt_part w')"
  using assms
proof (induction rule: endpoint_step.induct)
  case (operation_start w builds caller r kind delay)
  then show ?case
    by (auto simp: operation_start_def case_prod_beta Let_def intro!: tasks_ok_spawn block_smoke split: sum.splits)
next
  case (endpoint_bind_start w builds api bind_addr_ok public_id caller r key options)
  then show ?case
    by (auto simp: endpoint_bind_start_def case_prod_beta Let_def intro!: tasks_ok_spawn block_bind split: sum.splits)
next
  case (process_exit w p)
  then show ?case by (simp add: tasks_ok_def)
next
  case (operation_cancel ix w)
  then show ?case by (simp add: tasks_ok_def operation_cancel_def case_prod_beta)
next
  case (operation_down ix w)
  then show ?case by (simp add: tasks_ok_def operation_cancel_def case_prod_beta)
qed (auto simp: endpoint_close_start_def endpoint_await_online_start_def endpoint_abort_def Let_def
       intro: tasks_ok_start block_close block_online)

lemma connection_step_tasks:
  assumes "connection_step api w w'" and "tasks_ok (rt_part w)"
  shows "tasks_ok (rt_part w')"
  using assms
proof (induction rule: connection_step.induct)
  case (connection_connect_start ix w builds caller owner r target alpn)
  then show ?case
    by (auto simp: connection_connect_start_def intro!: tasks_ok_start block_connect split: sum.splits option.splits)
next
  case (connection_accept_start ix w builds caller owner r allow_all allowed)
  then show ?case
    by (auto simp: connection_accept_start_def case_prod_beta Let_def
        intro!: tasks_ok_start block_accept split: sum.splits option.splits bool.splits)
qed (auto simp: connection_close_def connection_closed_start_def intro: tasks_ok_start block_closed)

lemma stream_step_tasks:
  assumes "stream_step w w'" and "tasks_ok (rt_part w)"
  shows "tasks_ok (rt_part w')"
  using assms
proof (induction rule: stream_step.induct)
  case (stream_send_start ix w builds caller r data send_all chunk_size)
  then show ?case
    by (auto simp: stream_send_start_def start_stream_send_def case_prod_beta Let_def
        intro!: tasks_ok_start block_send split: sum.splits)
next
  case (stream_send_iodata_start ix w builds caller r iolist expected max_bytes)
  then show ?case
    by (auto simp: stream_send_iodata_start_def start_stream_send_def case_prod_beta Let_def
        intro!: tasks_ok_start block_send split: sum.splits option.splits)
next
  case (stream_recv_start ix w builds caller r max_bytes)
  then show ?case
    by (auto simp: stream_recv_start_def case_prod_beta Let_def not_less
        intro!: tasks_ok_start block_recv split: sum.splits)
qed (auto simp: stream_start_def datagram_send_start_def datagram_recv_start_def case_prod_beta Let_def
       intro!: tasks_ok_start block_stream block_datagram_send block_datagram_recv split: sum.splits bool.splits)

section \<open>Running\<close>

lemma tasks_ok_nth: "tasks_ok s \<Longrightarrow> ix < length (rt_tasks s) \<Longrightarrow> task_ok (rt_tasks s ! ix)"
  by (simp add: tasks_ok_def list_all_length)

lemma tasks_ok_set_task:
  assumes "tasks_ok s" and "ix < length (rt_tasks s)" and "task_ok (g (rt_tasks s ! ix))"
    and "tk_caller (g (rt_tasks s ! ix)) = tk_caller (rt_tasks s ! ix)"
      "tk_ref (g (rt_tasks s ! ix)) = tk_ref (rt_tasks s ! ix)"
      "tk_supervisor (g (rt_tasks s ! ix)) = tk_supervisor (rt_tasks s ! ix)"
  shows "tasks_ok (set_task ix g s)"
  using assms message_ok_update[of "rt_tasks s" _ "g (rt_tasks s ! ix)" ix]
  by (auto simp: tasks_ok_def set_task_def list_all_length nth_list_update list_all_iff[of "message_ok _"])

lemma tasks_ok_updates [simp]:
  "tasks_ok (rt_part (rt_operations_update g w)) = tasks_ok (rt_part w)"
  "tasks_ok (rt_part (rt_active_operations_update k w)) = tasks_ok (rt_part w)"
  by (simp_all add: tasks_ok_def)

lemma tasks_ok_should_complete [simp]:
  "tasks_ok (rt_part (snd (should_complete ix w))) = tasks_ok (rt_part w)"
  "rt_tasks (snd (should_complete ix w)) = rt_tasks w"
  by (simp_all add: should_complete_def case_prod_beta tasks_ok_def)

lemma task_step_tasks:
  assumes "task_step w w'" and "tasks_ok (rt_part w)"
  shows "tasks_ok (rt_part w')"
  using assms
proof (induction rule: task_step.induct)
  case (poll ix w iroh event w')
  then obtain f r w1 where f: "tk_spawned (rt_tasks w ! ix) = Sp_running f" "poll iroh event f w = Some (r, w1)"
      and w': "w' = set_task ix (tk_spawned_update
                 (\<lambda>_. case r of Inl f' \<Rightarrow> Sp_running f' | Inr j \<Rightarrow> Sp_finished j)) w1"
    by (auto simp: task_poll_def split: spawned.splits option.splits sum.splits)
  note rt = rt_frame_poll [OF f(2)]
  have ok: "task_ok (rt_tasks w ! ix)" using tasks_ok_nth [OF poll.prems] poll.hyps(1) by simp
  moreover have "rt_tasks w1 = rt_tasks w" using rt_part_eqD [OF rt] by blast
  ultimately show ?case
    using poll.prems poll.hyps(1) f block_poll [of iroh event f w] output_poll [of iroh event f w]
    unfolding w' rt_part_moves rt
    by (intro tasks_ok_set_task) (auto simp: task_ok_def split: sum.splits)
next
  case (panic ix w w')
  then obtain f where f: "tk_spawned (rt_tasks w ! ix) = Sp_running f"
      "w' = set_task ix (tk_spawned_update (\<lambda>_. Sp_finished Join_panicked)) (drop_future f w)"
    by (auto simp: task_panic_def split: spawned.splits future.splits)
  have "task_ok (rt_tasks w ! ix)" using tasks_ok_nth [OF panic.prems] panic.hyps(1) by simp
  then show ?case
    using panic.prems panic.hyps(1) output_panic
    by (auto simp: f(2) rt_part_moves task_ok_def intro!: tasks_ok_set_task)
next
  case (select ix w w')
  have "task_ok (rt_tasks w ! ix)" using tasks_ok_nth [OF select.prems] select.hyps(1) by simp
  then show ?case
    using select
    by (auto simp: select_result_def rt_part_moves task_ok_def intro!: tasks_ok_set_task
        split: spawned.splits phase.splits)
next
  case (cancel ix w iroh w')
  then show ?case
    by (auto simp: task_cancel_def select_cancelled_def rt_part_moves task_ok_def intro!: tasks_ok_set_task
        split: if_splits)
next
  case (complete ix w w')
  have "task_ok (rt_tasks w ! ix)" using tasks_ok_nth [OF complete.prems] complete.hyps(1) by simp
  then show ?case
    using complete
    by (auto simp: supervisor_complete_def case_prod_beta rt_part_moves task_ok_def
        intro!: tasks_ok_set_task message_smoke message_endpoint
        split: supervisor.splits phase.splits bool.splits if_splits)
next
  case (bind ix w w')
  have "task_ok (rt_tasks w ! ix)" using tasks_ok_nth [OF bind.prems] bind.hyps(1) by simp
  then show ?case
    using bind
    by (auto simp: bind_complete_def case_prod_beta rt_part_moves task_ok_def
        intro!: tasks_ok_set_task message_bind
        split: supervisor.splits phase.splits bool.splits if_splits)
next
  case (send ix w w')
  then obtain m where m: "tk_phase (rt_tasks w ! ix) = Sending m"
    by (auto simp: send_operation_result_def Let_def split: phase.splits)
  let ?t = "rt_tasks w ! ix" and ?g = "\<lambda>rest t. t\<lparr>tk_phase := Finishing rest\<rparr>"
  have ok: "task_ok ?t" using tasks_ok_nth [OF send.prems] send.hyps(1) by simp
  have next_ok: "tasks_ok (set_task ix (?g rest) (rt_part w))" for rest
    using send.prems send.hyps(1) ok by (intro tasks_ok_set_task) (auto simp: task_ok_def)
  have "message_ok ((rt_tasks w)[ix := ?g rest ?t]) (tk_caller ?t, tk_ref ?t, m)" for rest
    using ok m send.hyps(1) by (auto simp: message_ok_def task_ok_def intro!: bexI[OF _ set_update_memI])
  with send.hyps(2) m next_ok show ?case
    by (auto simp: send_operation_result_def Let_def rt_part_moves set_task_def tasks_ok_def)
next
  case (finish ix w iroh w')
  have "task_ok (rt_tasks w ! ix)" using tasks_ok_nth [OF finish.prems] finish.hyps(1) by simp
  then show ?case
    using finish
    by (auto simp: task_finish_def supervisor_finish_def rt_part_moves task_ok_def intro!: tasks_ok_set_task
        split: phase.splits)
qed

lemma tasks_ok_reachable: "reachable api w \<Longrightarrow> tasks_ok (rt_part w)"
proof (induction rule: reachable.induct)
  case (start alive)
  show ?case by (simp add: tasks_ok_def initial_def)
next
  case (step w w')
  from step.hyps(2) step.IH show ?case
    by (cases rule: nif_step.cases)
       (auto dest: endpoint_step_tasks connection_step_tasks stream_step_tasks task_step_tasks)
qed

lemma running_block:
  "reachable api w \<Longrightarrow> ix < length (rt_tasks w) \<Longrightarrow> tk_spawned (rt_tasks w ! ix) = Sp_running f
     \<Longrightarrow> block (tk_supervisor (rt_tasks w ! ix)) f"
  using tasks_ok_nth [OF tasks_ok_reachable, of api w ix] by (simp add: task_ok_def)

lemma sent_message:
  "reachable api (w :: ('a, ('key, 'url) builder) nif_state) \<Longrightarrow> (p, r, m) \<in> set (rt_mailbox w)
     \<Longrightarrow> \<exists>t\<in>set (rt_tasks w). tk_caller t = p \<and> tk_ref t = r \<and> answers (tk_supervisor t) m"
  using tasks_ok_reachable [of api w] by (auto simp: tasks_ok_def list_all_iff message_ok_def)

end

end
