(* ===== verification/Message_Types.thy ===== *)
theory Message_Types
  imports Task_Rules Delivery
begin

text \<open>
  The types of messages. The term that a supervisor sends carries no type of its own, and the
  Elixir side matches on the shape it expects of the operation it has started: a message is either
  a value of the operation's type or an error that names the operation.
\<close>

section \<open>What an operation may answer\<close>

fun operation_name :: "supervisor \<Rightarrow> atom" where
  "operation_name (Sup_smoke _) = At_native_smoke"
| "operation_name (Sup_bind _) = At_endpoint_bind"
| "operation_name (Sup_endpoint name) = name"

definition stream_operations :: "atom list" where
  "stream_operations = [At_stream_open_uni, At_stream_open_bi, At_stream_accept_uni, At_stream_accept_bi]"

fun value_of_operation :: "atom \<Rightarrow> res_val \<Rightarrow> bool" where
  "value_of_operation name (R_atom a) =
     ((name, a) \<in> {(At_native_smoke, At_completed), (At_endpoint_close, At_closed), (At_endpoint_online, At_ok),
                    (At_connection_closed, At_closed), (At_datagram_send, At_ok)})"
| "value_of_operation name (R_endpoint _) = (name = At_endpoint_bind)"
| "value_of_operation name (R_connection _) = (name = At_connection_connect \<or> name = At_connection_accept)"
| "value_of_operation name (R_stream _) = (name \<in> set stream_operations)"
| "value_of_operation name (R_count _) = (name = At_stream_send)"
| "value_of_operation name (R_read _) = (name = At_stream_recv)"
| "value_of_operation name (R_binary _) = (name = At_datagram_recv)"

fun result_of_operation :: "atom \<Rightarrow> res_val nif_result \<Rightarrow> bool" where
  "result_of_operation name (Inl e) = (err_operation e = name \<and> err_context e = Map.empty)"
| "result_of_operation name (Inr v) = value_of_operation name v"

section \<open>The blocks\<close>

fun block_operation :: "('a, 'b) future \<Rightarrow> atom" where
  "block_operation (Fut_sleep _) = At_native_smoke"
| "block_operation (Fut_bind _) = At_endpoint_bind"
| "block_operation (Fut_close _) = At_endpoint_close"
| "block_operation (Fut_closing _ _) = At_endpoint_close"
| "block_operation (Fut_online _ _) = At_endpoint_online"
| "block_operation (Fut_connect _ _ _ _ _) = At_connection_connect"
| "block_operation (Fut_accept _ _ _ _ _) = At_connection_accept"
| "block_operation (Fut_accepting _ _ _ _ _) = At_connection_accept"
| "block_operation (Fut_closed _ _) = At_connection_closed"
| "block_operation (Fut_stream kind _ _ _) = stream_op_atom kind"
| "block_operation (Fut_send _ _ _ _ _ _ _) = At_stream_send"
| "block_operation (Fut_recv _ _ _) = At_stream_recv"
| "block_operation (Fut_datagram_send _ _ _ _) = At_datagram_send"
| "block_operation (Fut_datagram_recv _ _) = At_datagram_recv"

fun output_of_operation :: "atom \<Rightarrow> joined \<Rightarrow> bool" where
  "output_of_operation name (Join_result r) = result_of_operation name r"
| "output_of_operation name _ = True"

lemma err_operation_simps [simp]:
  "err_operation (endpoint_error c p m) = p" "err_context (endpoint_error c p m) = Map.empty"
  "err_operation (connection_error c p m) = p" "err_context (connection_error c p m) = Map.empty"
  "err_operation (stream_error p c m) = p" "err_context (stream_error p c m) = Map.empty"
  by (simp_all add: endpoint_error_def connection_error_def stream_error_def native_error_def)

lemma stream_op_atom_stream: "stream_op_atom kind \<in> set stream_operations"
  by (cases kind) (simp_all add: stream_operations_def)

lemma wrapped_results:
  "result_of_operation name (map_result R_connection (fst (wrap_connection iroh c e owner role name w)))
     \<longleftrightarrow> (\<exists>x. fst (wrap_connection iroh c e owner role name w) = Inl x)
         \<or> name = At_connection_connect \<or> name = At_connection_accept"
  "result_of_operation name (map_result R_stream (fst (wrap_stream iroh s r c owner name w)))
     \<longleftrightarrow> (\<exists>x. fst (wrap_stream iroh s r c owner name w) = Inl x) \<or> name \<in> set stream_operations"
  by (auto simp: wrap_connection_def wrap_stream_def case_prod_beta Let_def split: option.splits bool.splits)

lemma poll_same_operation:
  "poll iroh event f w = Some (Inl f', w') \<Longrightarrow> block_operation f' = block_operation f"
  by (cases f)
     (auto simp: poll_def poll_close_def poll_closing_def poll_online_def poll_connect_def poll_accept_def
        poll_accepting_def poll_closed_def poll_stream_def poll_send_def poll_send_all_def poll_send_once_def
        poll_send_reset_def poll_recv_def poll_datagram_send_def poll_datagram_recv_def case_prod_beta Let_def
        split: lib_event.splits option.splits if_splits bool.splits)

lemma poll_output:
  "poll iroh event f w = Some (Inr j, w') \<Longrightarrow> output_of_operation (block_operation f) j"
  by (cases f)
     (auto simp: poll_def poll_close_def poll_closing_def poll_online_def poll_connect_def poll_accept_def
        poll_accepting_def poll_closed_def poll_stream_def poll_send_def poll_send_all_def poll_send_once_def
        poll_send_reset_def poll_recv_def poll_datagram_send_def poll_datagram_recv_def finish_block_def
        wrapped_results stream_op_atom_stream case_prod_beta Let_def
        split: lib_event.splits option.splits if_splits bool.splits)

interpretation typed: task_rules "\<lambda>sv f. block_operation f = operation_name sv"
    "\<lambda>sv. output_of_operation (operation_name sv)" "\<lambda>sv. result_of_operation (operation_name sv)"
proof unfold_locales
  show "block_operation f = operation_name sv \<Longrightarrow> output_of_operation (operation_name sv) j"
    if "poll iroh event f w = Some (Inr j, w')" for iroh event f w j w' sv
    using poll_output [OF that] by simp
  show "result_of_operation (operation_name (Sup_smoke kind)) (smoke_result kind)" for kind
    by (simp add: smoke_result_def guarded_def native_error_def)
  show "result_of_operation (operation_name (Sup_endpoint name)) (endpoint_operation_result name result)"
    if "pred_option (output_of_operation (operation_name (Sup_endpoint name))) result" for name result
    using that by (auto simp: endpoint_operation_result_def native_error_def split: option.splits joined.splits)
  show "result_of_operation (operation_name (Sup_bind c)) (fst (bind_result_message caller c bound w))" for c caller bound w
    by (auto simp: bind_result_message_def Let_def split: option.splits joined.splits)
qed (auto simp: poll_same_operation)

text \<open>
  C16. Messages are well typed: in every reachable state every message in a mailbox answers an
  operation its receiver has started under that reference, and is either an error that names that
  operation and has no context, or a value of the operation's own type: the endpoint of a bind,
  the connection of a connect or accept, the stream of one of the four stream operations, the
  count of a send, the bytes or end of a receive, the bytes of a datagram, or the fixed atom of
  the others.
\<close>

theorem message_well_typed:
  assumes "reachable api w" and "(p, r, m) \<in> set (rt_mailbox w)"
  shows "\<exists>t\<in>set (rt_tasks w). tk_caller t = p \<and> tk_ref t = r
    \<and> result_of_operation (operation_name (tk_supervisor t)) m"
  using typed.sent_message [OF assms] .

theorem message_well_typed_witness:
  "(1, 7, Inr (R_atom At_completed)) \<in> set (rt_mailbox smoke_sent)
    \<and> result_of_operation At_native_smoke (Inr (R_atom At_completed))"
proof -
  have m: "(1, 7, Inr (R_atom At_completed)) \<in> set (rt_mailbox smoke_sent)"
    by (simp add: smoke_defs guarded_def)
  from message_well_typed [OF smoke_sent_reachable [of demo_api] m] m show ?thesis
    by (auto simp: smoke_defs)
qed

end
