(* ===== verification/Holdings.thy ===== *)
theory Holdings
  imports World_Refinement
begin

text \<open>
  What running blocks hold: accept permits, leases of stream halves, datagram permits and
  queued bytes. \<open>holdings\<close> abstracts the library's state to the cells that record them, and
  a second machine, \<open>hold_step\<close>, says how they may change: a block takes what it needs when
  it is spawned and gives all of it back when it stops running, however that happens. The
  library refines this machine.
\<close>

section \<open>The abstraction\<close>

text \<open>Accept permits come with the limit of their endpoint.\<close>

record holdings =
  hd_accepts :: "(usize \<times> usize) list"
  hd_queued :: usize
  hd_send :: "bool list"
  hd_recv :: "bool list"
  hd_datagram_send :: "bool list"
  hd_datagram_recv :: "bool list"

definition holdings :: "('a, 'b, 'z) nif_state_scheme \<Rightarrow> holdings" where
  "holdings w =
     \<lparr>hd_accepts = map (\<lambda>e. (er_pending_accepts e, er_max_pending_accepts e)) (ep_endpoints w),
      hd_queued = st_queued_bytes w,
      hd_send = map sr_send_busy (st_streams w), hd_recv = map sr_recv_busy (st_streams w),
      hd_datagram_send = map cr_datagram_send_busy (cn_connections w),
      hd_datagram_recv = map cr_datagram_recv_busy (cn_connections w)\<rparr>"

text \<open>New resources come with nothing held.\<close>

definition grown :: "holdings \<Rightarrow> holdings \<Rightarrow> bool" where
  "grown h h' \<longleftrightarrow>
     (\<exists>limits m n. h' = h\<lparr>hd_accepts := hd_accepts h @ map (Pair 0) limits,
        hd_send := hd_send h @ replicate m False, hd_recv := hd_recv h @ replicate m False,
        hd_datagram_send := hd_datagram_send h @ replicate n False,
        hd_datagram_recv := hd_datagram_recv h @ replicate n False\<rparr>)"

definition accept_finished :: "usize \<times> usize \<Rightarrow> usize \<times> usize" where
  "accept_finished = (\<lambda>(n, limit). (case checked_sub n 1 of None \<Rightarrow> n | Some m \<Rightarrow> m, limit))"

definition give_back :: "('a, 'b) future \<Rightarrow> holdings \<Rightarrow> holdings" where
  "give_back f h =
     (case f of
        Fut_accept _ e _ _ _ \<Rightarrow> h\<lparr>hd_accepts := (hd_accepts h)[e := accept_finished (hd_accepts h ! e)]\<rparr>
      | Fut_accepting _ e _ _ _ \<Rightarrow> h\<lparr>hd_accepts := (hd_accepts h)[e := accept_finished (hd_accepts h ! e)]\<rparr>
      | Fut_send s _ data _ _ _ _ \<Rightarrow>
          h\<lparr>hd_queued := hd_queued h - data_len data, hd_send := (hd_send h)[s := False]\<rparr>
      | Fut_recv s _ _ \<Rightarrow> h\<lparr>hd_recv := (hd_recv h)[s := False]\<rparr>
      | Fut_datagram_send _ c data _ \<Rightarrow>
          h\<lparr>hd_queued := hd_queued h - data_len data, hd_datagram_send := (hd_datagram_send h)[c := False]\<rparr>
      | Fut_datagram_recv _ c \<Rightarrow> h\<lparr>hd_datagram_recv := (hd_datagram_recv h)[c := False]\<rparr>
      | _ \<Rightarrow> h)"

definition take_up :: "('a, 'b) future \<Rightarrow> holdings \<Rightarrow> holdings option" where
  "take_up f h =
     (case f of
        Fut_accept _ e _ _ _ \<Rightarrow>
          if e < length (hd_accepts h) \<and> fst (hd_accepts h ! e) < snd (hd_accepts h ! e)
          then Some (h\<lparr>hd_accepts := (hd_accepts h)[e := (fst (hd_accepts h ! e) + 1, snd (hd_accepts h ! e))]\<rparr>)
          else None
      | Fut_accepting _ _ _ _ _ \<Rightarrow> None
      | Fut_send s _ data _ _ _ _ \<Rightarrow>
          if s < length (hd_send h) \<and> \<not> hd_send h ! s
          then Some (h\<lparr>hd_queued := hd_queued h + data_len data, hd_send := (hd_send h)[s := True]\<rparr>)
          else None
      | Fut_recv s _ _ \<Rightarrow>
          if s < length (hd_recv h) \<and> \<not> hd_recv h ! s
          then Some (h\<lparr>hd_recv := (hd_recv h)[s := True]\<rparr>) else None
      | Fut_datagram_send _ c data _ \<Rightarrow>
          if c < length (hd_datagram_send h) \<and> \<not> hd_datagram_send h ! c
          then Some (h\<lparr>hd_queued := hd_queued h + data_len data,
                       hd_datagram_send := (hd_datagram_send h)[c := True]\<rparr>)
          else None
      | Fut_datagram_recv _ c \<Rightarrow>
          if c < length (hd_datagram_recv h) \<and> \<not> hd_datagram_recv h ! c
          then Some (h\<lparr>hd_datagram_recv := (hd_datagram_recv h)[c := True]\<rparr>) else None
      | _ \<Rightarrow> Some h)"

text \<open>A block that waits again holds what it held before.\<close>

definition same_hold :: "('a, 'b) future \<Rightarrow> ('a, 'b) future \<Rightarrow> bool" where
  "same_hold f f' \<longleftrightarrow>
     (case f of
        Fut_close _ \<Rightarrow> (\<exists>e h. f' = Fut_closing e h)
      | Fut_accept _ e _ _ _ \<Rightarrow> (\<exists>v a ids p. f' = Fut_accepting v e a ids p)
      | Fut_send s h data _ _ _ _ \<Rightarrow> (\<exists>n k a c. f' = Fut_send s h data n k a c)
      | _ \<Rightarrow> False)"

inductive hold_step ::
  "holdings \<times> ('a, 'b) spawned list \<Rightarrow> holdings \<times> ('a, 'b) spawned list \<Rightarrow> bool" where
  grow: "grown h h' \<Longrightarrow> hold_step (h, sps) (h', sps)"
| spawn: "take_up f h = Some h' \<Longrightarrow> hold_step (h, sps) (h', sps @ [Sp_running f])"
| suspend:
    "ix < length sps \<Longrightarrow> sps ! ix = Sp_running f \<Longrightarrow> same_hold f f' \<Longrightarrow> grown h h'
       \<Longrightarrow> hold_step (h, sps) (h', sps[ix := Sp_running f'])"
| stop:
    "ix < length sps \<Longrightarrow> sps ! ix = Sp_running f \<Longrightarrow> grown h h' \<Longrightarrow> \<forall>g. sp \<noteq> Sp_running g
       \<Longrightarrow> hold_step (h, sps) (give_back f h', sps[ix := sp])"
| join:
    "ix < length sps \<Longrightarrow> \<forall>f. sps ! ix \<noteq> Sp_running f \<Longrightarrow> \<forall>g. sp \<noteq> Sp_running g
       \<Longrightarrow> hold_step (h, sps) (h, sps[ix := sp])"

lemma grown_refl [simp]: "grown h h"
  unfolding grown_def by (rule exI [of _ "[]"], rule exI [of _ 0], rule exI [of _ 0]) simp

section \<open>Calls that leave the holdings alone\<close>

lemma holdings_updates [simp]:
  "holdings (rt_tasks_update a w) = holdings w" "holdings (rt_operations_update b w) = holdings w"
  "holdings (rt_active_operations_update c w) = holdings w" "holdings (rt_mailbox_update d w) = holdings w"
  "holdings (rt_alive_update e w) = holdings w" "holdings (rt_runtime_update f w) = holdings w"
  "holdings (ep_identities_update g w) = holdings w" "holdings (ep_active_endpoints_update c w) = holdings w"
  "holdings (net_log_update i w) = holdings w" "holdings (cn_active_connections_update c w) = holdings w"
  "holdings (st_active_streams_update c w) = holdings w" "holdings (st_peak_queued_bytes_update c w) = holdings w"
  by (simp_all add: holdings_def)

lemma holdings_set_endpoint:
  "er_pending_accepts self = er_pending_accepts (ep_endpoints w ! i)
     \<Longrightarrow> er_max_pending_accepts self = er_max_pending_accepts (ep_endpoints w ! i)
     \<Longrightarrow> holdings (set_endpoint i self w) = holdings w"
  by (simp add: holdings_def set_endpoint_def map_update_same)

lemma holdings_set_connection:
  "cr_datagram_send_busy self = cr_datagram_send_busy (cn_connections w ! i)
     \<Longrightarrow> cr_datagram_recv_busy self = cr_datagram_recv_busy (cn_connections w ! i)
     \<Longrightarrow> holdings (set_connection i self w) = holdings w"
  by (simp add: holdings_def set_connection_def map_update_same)

lemma holdings_set_stream:
  "sr_send_busy self = sr_send_busy (st_streams w ! i) \<Longrightarrow> sr_recv_busy self = sr_recv_busy (st_streams w ! i)
     \<Longrightarrow> holdings (set_stream i self w) = holdings w"
  by (simp add: holdings_def set_stream_def map_update_same)

lemma endpoint_resource_frame [simp]:
  "er_pending_accepts (snd (EndpointResource_take_endpoint r)) = er_pending_accepts r"
  "er_max_pending_accepts (snd (EndpointResource_take_endpoint r)) = er_max_pending_accepts r"
  "er_pending_accepts (EndpointResource_release_connection r) = er_pending_accepts r"
  "er_max_pending_accepts (EndpointResource_release_connection r) = er_max_pending_accepts r"
  "er_pending_accepts (snd (EndpointResource_claim_connection r)) = er_pending_accepts r"
  "er_max_pending_accepts (snd (EndpointResource_claim_connection r)) = er_max_pending_accepts r"
  by (simp_all add: EndpointResource_take_endpoint_def EndpointResource_release_connection_def
      EndpointResource_claim_connection_def Let_def case_prod_beta)

lemma stream_resource_frame [simp]:
  "sr_send_busy (snd (StreamResource_request_reset iroh code r)) = sr_send_busy r"
  "sr_recv_busy (snd (StreamResource_request_reset iroh code r)) = sr_recv_busy r"
  "sr_send_busy (snd (StreamResource_request_stop iroh code r)) = sr_send_busy r"
  "sr_recv_busy (snd (StreamResource_request_stop iroh code r)) = sr_recv_busy r"
  by (simp_all add: StreamResource_request_reset_def StreamResource_request_stop_def Let_def case_prod_beta
      split: option.splits)

lemma holdings_on_stream:
  assumes "\<And>r. sr_send_busy (snd (f r)) = sr_send_busy r" and "\<And>r. sr_recv_busy (snd (f r)) = sr_recv_busy r"
  shows "holdings (on_stream i f w) = holdings w"
  using assms by (simp add: on_stream_def case_prod_beta log_net_def holdings_set_stream)

lemma holdings_endpoint [simp]:
  "holdings (log_net es w) = holdings w"
  "holdings (release_reserved_identity x w) = holdings w"
  "holdings (snd (reserve_identity x w)) = holdings w"
  by (simp_all add: log_net_def release_reserved_identity_def reserve_identity_def split: option.splits)

lemma holdings_endpoint_release [simp]:
  "holdings (EndpointResource_release_identity i w) = holdings w"
  by (simp add: EndpointResource_release_identity_def Let_def holdings_set_endpoint)

lemma holdings_endpoint_abort [simp]: "holdings (snd (EndpointResource_abort i w)) = holdings w"
  by (simp add: EndpointResource_abort_def Let_def case_prod_beta holdings_set_endpoint split: option.splits)

lemma holdings_endpoint_drop [simp]:
  "holdings (EndpointResource_drop i w) = holdings w"
  "holdings (EndpointResource_down i w) = holdings w"
  by (simp_all add: EndpointResource_drop_def EndpointResource_down_def Let_def holdings_set_endpoint)

lemma holdings_connection_close [simp]: "holdings (snd (ConnectionResource_close i w)) = holdings w"
  by (simp add: ConnectionResource_close_def Let_def holdings_set_endpoint holdings_set_connection)

lemma holdings_connection_drop [simp]:
  "holdings (ConnectionResource_drop i w) = holdings w"
  "holdings (ConnectionResource_down i w) = holdings w"
  by (simp_all add: ConnectionResource_drop_def ConnectionResource_down_def Let_def holdings_set_connection)

lemma holdings_stream_requests [simp]:
  "holdings (on_stream i (StreamResource_request_reset iroh code) w) = holdings w"
  "holdings (on_stream i (StreamResource_request_stop iroh code) w) = holdings w"
  by (simp_all add: holdings_on_stream)

lemma holdings_stream_close [simp]: "holdings (snd (StreamResource_close iroh i w)) = holdings w"
  by (simp add: StreamResource_close_def Let_def holdings_set_stream)

lemma holdings_stream_drop [simp]:
  "holdings (StreamResource_drop iroh i w) = holdings w"
  "holdings (StreamResource_down iroh i w) = holdings w"
  by (simp_all add: StreamResource_drop_def StreamResource_down_def Let_def holdings_set_stream)

lemma holdings_stream_calls [simp]:
  "holdings (snd (stream_finish iroh i w)) = holdings w"
  "holdings (snd (stream_reset iroh i code w)) = holdings w"
  "holdings (snd (stream_stop iroh i code w)) = holdings w"
  "holdings (snd (stream_abort iroh i code w)) = holdings w"
  by (simp_all add: stream_finish_def stream_reset_def stream_stop_def stream_abort_def Let_def case_prod_beta
      holdings_set_stream split: option.splits sum.splits)

lemma holdings_drop_value [simp]:
  "holdings (drop_value iroh v w) = holdings w"
  "holdings (drop_joined iroh j w) = holdings w"
  by (simp_all add: drop_value_def drop_joined_def split: res_val.splits option.splits joined.splits sum.splits)

section \<open>Calls that change the holdings\<close>

lemma holdings_AcceptPermit_drop [simp]:
  "holdings (AcceptPermit_drop e w) =
     (holdings w)\<lparr>hd_accepts := (hd_accepts (holdings w))[e := accept_finished (hd_accepts (holdings w) ! e)]\<rparr>"
  by (cases "e < length (ep_endpoints w)")
     (auto simp: AcceptPermit_drop_def holdings_def set_endpoint_def map_update accept_finished_def
        EndpointResource_finish_accept_def fetch_update_def list_update_beyond split: option.splits)

lemma holdings_queue [simp]:
  "holdings (QueueGuard_new n w) = (holdings w)\<lparr>hd_queued := hd_queued (holdings w) + n\<rparr>"
  "holdings (QueueGuard_drop n w) = (holdings w)\<lparr>hd_queued := hd_queued (holdings w) - n\<rparr>"
  by (simp_all add: QueueGuard_new_def QueueGuard_drop_def holdings_def Let_def)

lemma lease_release_flags [simp]:
  "sr_send_busy (snd (SendLease_release h r)) = False" "sr_recv_busy (snd (SendLease_release h r)) = sr_recv_busy r"
  "sr_recv_busy (snd (RecvLease_release h r)) = False" "sr_send_busy (snd (RecvLease_release h r)) = sr_send_busy r"
  by (simp_all add: SendLease_release_def RecvLease_release_def Let_def split: option.splits)

lemma holdings_leases [simp]:
  "holdings (SendLease_drop s h w) = (holdings w)\<lparr>hd_send := (hd_send (holdings w))[s := False]\<rparr>"
  "holdings (RecvLease_drop s h w) = (holdings w)\<lparr>hd_recv := (hd_recv (holdings w))[s := False]\<rparr>"
  by (simp_all add: SendLease_drop_def RecvLease_drop_def on_stream_def case_prod_beta)
     (simp_all add: holdings_def set_stream_def map_update)

lemma holdings_DatagramPermit_drop [simp]:
  "holdings (DatagramPermit_drop c True w)
     = (holdings w)\<lparr>hd_datagram_send := (hd_datagram_send (holdings w))[c := False]\<rparr>"
  "holdings (DatagramPermit_drop c False w)
     = (holdings w)\<lparr>hd_datagram_recv := (hd_datagram_recv (holdings w))[c := False]\<rparr>"
  by (simp_all add: DatagramPermit_drop_def holdings_def set_connection_def Let_def map_update
      ConnectionResource_finish_datagram_send_def ConnectionResource_finish_datagram_recv_def)

lemma holdings_drop_future [simp]: "holdings (drop_future f w) = give_back f (holdings w)"
  by (simp add: drop_future_def give_back_def drop_send_def drop_datagram_send_def split: future.splits)

lemma grownI:
  "h' = h\<lparr>hd_accepts := hd_accepts h @ map (Pair 0) limits, hd_send := hd_send h @ replicate m False,
          hd_recv := hd_recv h @ replicate m False, hd_datagram_send := hd_datagram_send h @ replicate n False,
          hd_datagram_recv := hd_datagram_recv h @ replicate n False\<rparr> \<Longrightarrow> grown h h'"
  by (auto simp: grown_def)

lemma grown_bind_result_message: "grown (holdings w) (holdings (snd (bind_result_message caller c bound w)))"
proof -
  have new: "grown (holdings w) (holdings (w\<lparr>ep_active_endpoints := n,
      ep_endpoints := ep_endpoints w @ [EndpointResource_new c h caller]\<rparr>))" for h n
    by (rule grownI [where limits = "[bc_max_pending_accepts c]" and m = 0 and n = 0])
       (simp add: holdings_def EndpointResource_new_def)
  show ?thesis
    using new by (auto simp: bind_result_message_def Let_def split: option.splits joined.splits)
qed

lemma grown_wrap_connection: "grown (holdings w) (holdings (snd (wrap_connection iroh h e owner role op w)))"
proof -
  have new: "grown (holdings w) (holdings (w'\<lparr>cn_active_connections := n,
      cn_connections := cn_connections w' @ [ConnectionResource_new iroh h e owner role]\<rparr>))"
    if "holdings w' = holdings w" for w' :: "('a, 'b, 'c) nif_state_scheme" and n
    unfolding that [symmetric]
    by (rule grownI [where limits = "[]" and m = 0 and n = 1]) (simp add: holdings_def ConnectionResource_new_def)
  show ?thesis
    using new by (auto simp: wrap_connection_def Let_def case_prod_beta holdings_set_endpoint split: bool.splits)
qed

lemma grown_wrap_stream: "grown (holdings w) (holdings (snd (wrap_stream iroh send recv c owner op w)))"
proof -
  have new: "grown (holdings w) (holdings (w\<lparr>st_active_streams := n,
      st_streams := st_streams w @ [StreamResource_new send recv c i owner]\<rparr>))" for n i
    by (rule grownI [where limits = "[]" and m = 1 and n = 0]) (simp add: holdings_def StreamResource_new_def)
  show ?thesis
    using new by (auto simp: wrap_stream_def Let_def split: option.splits)
qed

section \<open>Resumptions\<close>

definition after_resumption ::
  "('a, 'b) future \<Rightarrow> holdings \<Rightarrow> ('a, 'b) future + joined \<Rightarrow> holdings \<Rightarrow> bool" where
  "after_resumption f h r h' \<longleftrightarrow>
     (\<exists>h1. grown h h1 \<and> (case r of Inl f' \<Rightarrow> same_hold f f' \<and> h' = h1 | Inr _ \<Rightarrow> h' = give_back f h1))"

lemma after_finish: "grown h h1 \<Longrightarrow> give_back f h1 = h' \<Longrightarrow> after_resumption f h (Inr j) h'"
  by (auto simp: after_resumption_def)

lemma after_wait: "grown h h' \<Longrightarrow> same_hold f f' \<Longrightarrow> after_resumption f h (Inl f') h'"
  by (auto simp: after_resumption_def)

lemma hold_poll_send:
  assumes "poll_send iroh event s h data written partial send_all chunk_size w = Some (r, w')"
  shows "after_resumption (Fut_send s h data written partial send_all chunk_size) (holdings w) r (holdings w')"
  using assms
  by (auto simp: poll_send_def poll_send_all_def poll_send_once_def poll_send_reset_def drop_send_def
      Let_def give_back_def same_hold_def holdings_set_stream
      split: lib_event.splits option.splits if_splits intro!: after_finish [OF grown_refl] after_wait)

lemma hold_poll_recv:
  assumes "poll_recv iroh event s h max_bytes w = Some (r, w')"
  shows "after_resumption (Fut_recv s h max_bytes) (holdings w) r (holdings w')"
  using assms
  by (auto simp: poll_recv_def Let_def give_back_def holdings_set_stream
      split: lib_event.splits option.splits if_splits intro!: after_finish [OF grown_refl])

lemma after_accept_drop:
  assumes "grown (holdings w) (holdings w1)"
  shows "after_resumption (Fut_accepting value e allow_all allowed owner) (holdings w) (Inr j)
    (holdings (AcceptPermit_drop e w1))"
  by (rule after_finish [OF assms]) (simp add: give_back_def)

lemma hold_poll_accepting:
  assumes "poll_accepting iroh handshake e allow_all allowed owner w = Some (r, w')"
  shows "after_resumption (Fut_accepting value e allow_all allowed owner) (holdings w) r (holdings w')"
  using assms
  by (auto simp: poll_accepting_def Let_def case_prod_beta simp del: holdings_AcceptPermit_drop
      split: option.splits if_splits intro!: after_accept_drop grown_wrap_connection)

lemma hold_poll:
  assumes "poll iroh event f w = Some (r, w')"
  shows "after_resumption f (holdings w) r (holdings w')"
proof (cases f)
  case (Fut_connect v a alpn e owner)
  then show ?thesis
    using assms by (auto simp: poll_def poll_connect_def give_back_def case_prod_beta
        split: lib_event.splits option.splits intro: after_finish after_finish [OF grown_refl] grown_wrap_connection)
next
  case (Fut_accept v e allow_all allowed owner)
  then show ?thesis
    using assms by (auto simp: poll_def poll_accept_def give_back_def same_hold_def
        split: lib_event.splits option.splits bool.splits intro: after_finish [OF grown_refl] after_wait)
next
  case (Fut_accepting v e allow_all allowed owner)
  then show ?thesis
    using assms by (auto simp: poll_def split: lib_event.splits dest: hold_poll_accepting)
next
  case (Fut_stream kind v c owner)
  then show ?thesis
    using assms by (auto simp: poll_def poll_stream_def give_back_def case_prod_beta
        split: lib_event.splits option.splits intro: after_finish after_finish [OF grown_refl] grown_wrap_stream)
next
  case (Fut_send s h data written partial send_all chunk_size)
  then show ?thesis using assms by (simp add: poll_def hold_poll_send)
next
  case (Fut_recv s h max_bytes)
  then show ?thesis using assms by (simp add: poll_def hold_poll_recv)
next
  case (Fut_datagram_send v c data wait)
  then show ?thesis
    using assms by (auto simp: poll_def poll_datagram_send_def drop_datagram_send_def give_back_def
        split: lib_event.splits if_splits intro!: after_finish [OF grown_refl])
next
  case (Fut_datagram_recv v c)
  then show ?thesis
    using assms by (auto simp: poll_def poll_datagram_recv_def give_back_def
        split: lib_event.splits option.splits intro!: after_finish [OF grown_refl])
qed (use assms in \<open>auto simp: poll_def poll_close_def poll_closing_def poll_online_def poll_closed_def
       give_back_def same_hold_def case_prod_beta holdings_set_endpoint
       split: lib_event.splits if_splits option.splits prod.splits
       intro!: after_finish [OF grown_refl] after_wait\<close>)

section \<open>Calls\<close>

definition hold_state :: "('a, 'b, 'z) nif_state_scheme \<Rightarrow> holdings \<times> ('a, 'b) spawned list" where
  "hold_state w = (holdings w, map tk_spawned (rt_tasks w))"

lemma hold_idle:
  "rt_tasks w' = rt_tasks w \<Longrightarrow> holdings w' = holdings w \<Longrightarrow> hold_step (hold_state w) (hold_state w')"
  using hold_step.grow [OF grown_refl] by (simp add: hold_state_def)

lemma hold_idle_part:
  "rt_part w' = rt_part w \<Longrightarrow> holdings w' = holdings w \<Longrightarrow> hold_step (hold_state w) (hold_state w')"
  by (blast intro: hold_idle dest: rt_part_eqD)

lemma give_back_take_up:
  assumes "take_up f h = Some h'"
  shows "give_back f h' = h"
proof -
  have step: "1 \<le> n + 1 \<and> n + 1 - 1 = n" if "n < m" for n m :: usize
    using that by unat_arith
  show ?thesis
    using assms
    by (auto simp: take_up_def give_back_def accept_finished_def checked_sub_def step list_update_same_conv
        split: future.splits if_splits option.splits)
qed

lemma start_result:
  "(\<exists>e. fst (start_endpoint_operation builds caller r name f w) = Inl e
      \<and> rt_tasks (snd (start_endpoint_operation builds caller r name f w)) = rt_tasks w)
   \<or> (\<exists>ix. fst (start_endpoint_operation builds caller r name f w) = Inr ix
      \<and> map tk_spawned (rt_tasks (snd (start_endpoint_operation builds caller r name f w)))
          = map tk_spawned (rt_tasks w) @ [Sp_running f])"
  by (simp add: start_endpoint_operation_def runtime_def spawn_operation_def Let_def)

lemma start_cases:
  obtains (refused) e where "fst (start_endpoint_operation builds caller r name f w) = Inl e"
      "rt_tasks (snd (start_endpoint_operation builds caller r name f w)) = rt_tasks w"
    | (started) ix where "fst (start_endpoint_operation builds caller r name f w) = Inr ix"
      "map tk_spawned (rt_tasks (snd (start_endpoint_operation builds caller r name f w)))
         = map tk_spawned (rt_tasks w) @ [Sp_running f]"
  using start_result [of builds caller r name f w] by blast

lemma holdings_start [simp]: "holdings (snd (start_endpoint_operation builds caller r name f w)) = holdings w"
  by (simp add: start_endpoint_operation_def runtime_def spawn_operation_def Let_def)

text \<open>A block is started after what it holds has been taken; a refused start gives it back.\<close>

lemma hold_start:
  assumes "take_up f (holdings w) = Some (holdings w1)" and "rt_tasks w1 = rt_tasks w"
    and "\<And>w2. rt_tasks (undo w2) = rt_tasks w2" and "\<And>w2. holdings (undo w2) = give_back f (holdings w2)"
  shows "hold_step (hold_state w)
    (hold_state (snd (case start_endpoint_operation builds caller r name f w1 of
        (Inl e, w2) \<Rightarrow> (Inl e, undo w2) | (Inr ix, w2) \<Rightarrow> (Inr ix, w2))))"
proof (cases rule: start_cases [of builds caller r name f w1])
  case (refused e)
  then show ?thesis
    using hold_step.grow [OF grown_refl, of "holdings w" "map tk_spawned (rt_tasks w)"] assms
      give_back_take_up [OF assms(1)]
    by (simp add: hold_state_def case_prod_beta)
next
  case (started ix)
  then show ?thesis
    using hold_step.spawn [OF assms(1), of "map tk_spawned (rt_tasks w)"] assms(2)
    by (simp add: hold_state_def case_prod_beta)
qed

lemma hold_start_free:
  assumes "take_up f (holdings w) = Some (holdings w)"
  shows "hold_step (hold_state w) (hold_state (snd (start_endpoint_operation builds caller r name f w)))"
proof (cases rule: start_cases [of builds caller r name f w])
  case (refused e)
  then show ?thesis by (intro hold_idle) simp_all
next
  case (started ix)
  then show ?thesis
    using hold_step.spawn [OF assms, of "map tk_spawned (rt_tasks w)"] by (simp add: hold_state_def)
qed

lemma spawned_spawn [simp]:
  "map tk_spawned (rt_tasks (snd (spawn_operation caller r sv f w))) = map tk_spawned (rt_tasks w) @ [Sp_running f]"
  by (simp add: spawn_operation_def)

lemma holdings_moves [simp]:
  "holdings (snd (spawn_operation caller r sv f w)) = holdings w"
  "holdings (snd (operation_cancel i w)) = holdings w"
  "holdings (set_task i g w) = holdings w"
  "holdings (snd (should_complete i w)) = holdings w"
  "holdings (snd (runtime builds w)) = holdings w"
  by (simp_all add: spawn_operation_def operation_cancel_def set_task_def should_complete_def runtime_def
      Let_def case_prod_beta)

lemma tasks_runtime [simp]: "rt_tasks (snd (runtime builds w)) = rt_tasks w"
  by (simp add: runtime_def Let_def)

lemma tasks_cancel [simp]: "rt_tasks (snd (operation_cancel i w)) = rt_tasks w"
  by (simp add: operation_cancel_def Let_def case_prod_beta)

lemma tasks_of_part: "rt_part w' = rt_part w \<Longrightarrow> rt_tasks w' = rt_tasks w"
  by (blast dest: rt_part_eqD)

lemma tasks_frames [simp]:
  "rt_tasks (release_reserved_identity x w) = rt_tasks w"
  "rt_tasks (snd (reserve_identity x w)) = rt_tasks w"
  "rt_tasks (set_endpoint e self w) = rt_tasks w"
  "rt_tasks (AcceptPermit_drop e w) = rt_tasks w"
  "rt_tasks (snd (bind_result_message caller c bound w)) = rt_tasks w"
  by (rule tasks_of_part, simp)+

lemma tasks_frames_io [simp]:
  "rt_tasks (set_connection c conn w) = rt_tasks w"
  "rt_tasks (set_stream s str w) = rt_tasks w"
  "rt_tasks (QueueGuard_new n w) = rt_tasks w"
  "rt_tasks (QueueGuard_drop n w) = rt_tasks w"
  "rt_tasks (SendLease_drop s h w) = rt_tasks w"
  "rt_tasks (drop_send s h data w) = rt_tasks w"
  "rt_tasks (RecvLease_drop s h w) = rt_tasks w"
  "rt_tasks (DatagramPermit_drop c b w) = rt_tasks w"
  "rt_tasks (drop_datagram_send c data w) = rt_tasks w"
  "rt_tasks (drop_future f w) = rt_tasks w"
  "rt_tasks (drop_joined iroh j w) = rt_tasks w"
  "rt_tasks (drop_spawned iroh sp w) = rt_tasks w"
  by (rule tasks_of_part, simp)+

lemma hold_spawn_free:
  assumes "take_up f (holdings w) = Some (holdings w)" and "rt_tasks w1 = rt_tasks w" and "holdings w1 = holdings w"
  shows "hold_step (hold_state w) (hold_state (snd (spawn_operation caller r sv f w1)))"
  using hold_step.spawn [OF assms(1), of "map tk_spawned (rt_tasks w)"] assms(2,3) by (simp add: hold_state_def)

lemma endpoint_step_hold:
  assumes "endpoint_step w w'"
  shows "hold_step (hold_state w) (hold_state w')"
  using assms
proof (induction rule: endpoint_step.induct)
  case (operation_start w builds caller r kind delay)
  show ?case
    by (auto simp: operation_start_def case_prod_beta Let_def take_up_def intro: hold_idle hold_spawn_free
        split: sum.splits)
next
  case (endpoint_bind_start w builds api bind_addr_ok public_id caller r key options)
  show ?case
    by (auto simp: endpoint_bind_start_def case_prod_beta Let_def take_up_def intro: hold_idle hold_spawn_free
        split: sum.splits)
next
  case (process_exit w p)
  show ?case by (rule hold_idle) simp_all
next
  case (endpoint_close_start ix w builds caller r)
  show ?case by (simp add: endpoint_close_start_def hold_start_free take_up_def)
next
  case (endpoint_await_online_start ix w builds caller r)
  show ?case by (simp add: endpoint_await_online_start_def Let_def hold_start_free take_up_def)
qed (auto simp: endpoint_abort_def intro: hold_idle_part hold_idle)

lemma begin_accept_holdings:
  assumes "EndpointResource_begin_accept (ep_endpoints w ! e) = (True, self)" and "e < length (ep_endpoints w)"
  shows "take_up (Fut_accept v e a ids p) (holdings w) = Some (holdings (set_endpoint e self w))"
  using assms
  by (auto simp: EndpointResource_begin_accept_def fetch_update_def take_up_def holdings_def set_endpoint_def
      map_update split: if_splits)

lemma hold_accept_start:
  assumes e: "e < length (ep_endpoints w)"
  shows "hold_step (hold_state w)
    (hold_state (snd (connection_accept_start builds api caller owner r e allow_all allowed w)))"
proof (cases "fst (EndpointResource_begin_accept (ep_endpoints w ! e))")
  case True
  then obtain self where b: "EndpointResource_begin_accept (ep_endpoints w ! e) = (True, self)"
    by (cases "EndpointResource_begin_accept (ep_endpoints w ! e)") auto
  note taken = begin_accept_holdings [OF b e]
  have closed: "holdings (AcceptPermit_drop e (set_endpoint e self w)) = holdings w"
    using give_back_take_up [OF taken] by (simp add: give_back_def)
  have start: "hold_step (hold_state w)
      (hold_state (snd (case start_endpoint_operation builds caller r At_connection_accept (Fut_accept v e a ids p) (set_endpoint e self w) of
          (Inl err, w2) \<Rightarrow> (Inl err, AcceptPermit_drop e w2) | (Inr ix, w2) \<Rightarrow> (Inr ix, w2))))" for v a ids p
    by (rule hold_start [OF taken]) (simp_all add: give_back_def drop_send_def drop_datagram_send_def)
  show ?thesis
    using b closed
    by (auto simp: connection_accept_start_def Let_def 
        split: sum.splits option.splits intro: hold_idle simp: start)
next
  case False
  then show ?thesis
    by (auto simp: connection_accept_start_def case_prod_beta split: sum.splits bool.splits intro: hold_idle)
qed

lemma connection_step_hold:
  assumes "connection_step api w w'"
  shows "hold_step (hold_state w) (hold_state w')"
  using assms
proof (induction rule: connection_step.induct)
  case (connection_connect_start e w builds caller owner r target alpn)
  show ?case
    by (auto simp: connection_connect_start_def take_up_def intro: hold_idle hold_start_free
        split: sum.splits option.splits)
next
  case (connection_accept_start e w builds caller owner r allow_all allowed)
  then show ?case by (intro hold_accept_start) (simp add: live_endpoint_def)
next
  case (connection_closed_start c w builds caller r)
  show ?case by (simp add: connection_closed_start_def hold_start_free take_up_def)
qed (auto simp: connection_close_def intro: hold_idle_part)

lemma take_send_holdings:
  assumes "take_send op (st_streams w ! s) = (res, self)" and "s < length (st_streams w)"
  shows "(case res of
      Inl e \<Rightarrow> holdings (set_stream s self w) = holdings w
    | Inr h \<Rightarrow> take_up (Fut_send s h data n k a c) (holdings w)
        = Some (holdings (QueueGuard_new (data_len data) (set_stream s self w))))"
  using assms
  by (auto simp: take_send_def compare_exchange_def take_up_def holdings_def set_stream_def map_update
      QueueGuard_new_def Let_def case_prod_beta list_update_same_conv split: if_splits option.splits sum.splits)

lemma take_recv_holdings:
  assumes "take_recv op (st_streams w ! s) = (res, self)" and "s < length (st_streams w)"
  shows "(case res of
      Inl e \<Rightarrow> holdings (set_stream s self w) = holdings w
    | Inr h \<Rightarrow> take_up (Fut_recv s h n) (holdings w) = Some (holdings (set_stream s self w)))"
  using assms
  by (auto simp: take_recv_def compare_exchange_def take_up_def holdings_def set_stream_def map_update
      Let_def case_prod_beta list_update_same_conv split: if_splits option.splits sum.splits)

lemma hold_send_start:
  assumes s: "s < length (st_streams w)"
  shows "hold_step (hold_state w) (hold_state (snd (start_stream_send builds caller r s data send_all chunk w)))"
proof -
  obtain res self where t: "take_send At_stream_send (st_streams w ! s) = (res, self)"
    by (cases "take_send At_stream_send (st_streams w ! s)")
  show ?thesis
  proof (cases res)
    case (Inl e)
    then show ?thesis
      using t take_send_holdings [OF t s] by (auto simp: start_stream_send_def intro: hold_idle)
  next
    case (Inr h)
    note taken = take_send_holdings [OF t s, of data 0 0 send_all chunk, unfolded Inr sum.case]
    have start: "hold_step (hold_state w)
      (hold_state (snd (case start_endpoint_operation builds caller r At_stream_send (Fut_send s h data 0 0 send_all chunk) (QueueGuard_new (data_len data) (set_stream s self w)) of
          (Inl e, w2) \<Rightarrow> (Inl e, drop_send s h data w2) | (Inr ix, w2) \<Rightarrow> (Inr ix, w2))))"
    by (rule hold_start [OF taken]) (simp_all add: give_back_def drop_send_def drop_datagram_send_def)
  show ?thesis
      using t Inr
      by (auto simp: start_stream_send_def Let_def intro: hold_idle simp: start)
  qed
qed

lemma hold_recv_start:
  assumes s: "s < length (st_streams w)"
  shows "hold_step (hold_state w) (hold_state (snd (stream_recv_start builds caller r s max_bytes w)))"
proof -
  obtain res self where t: "take_recv At_stream_recv (st_streams w ! s) = (res, self)"
    by (cases "take_recv At_stream_recv (st_streams w ! s)")
  show ?thesis
  proof (cases res)
    case (Inl e)
    then show ?thesis
      using t take_recv_holdings [OF t s] by (auto simp: stream_recv_start_def intro: hold_idle)
  next
    case (Inr h)
    note taken = take_recv_holdings [OF t s, of max_bytes, unfolded Inr sum.case]
    have start: "hold_step (hold_state w)
      (hold_state (snd (case start_endpoint_operation builds caller r At_stream_recv (Fut_recv s h max_bytes) (set_stream s self w) of
          (Inl e, w2) \<Rightarrow> (Inl e, RecvLease_drop s h w2) | (Inr ix, w2) \<Rightarrow> (Inr ix, w2))))"
    by (rule hold_start [OF taken]) (simp_all add: give_back_def drop_send_def drop_datagram_send_def)
  show ?thesis
      using t Inr
      by (auto simp: stream_recv_start_def simp del: holdings_leases intro: hold_idle simp: start)
  qed
qed

lemma begin_datagram_holdings:
  assumes "c < length (cn_connections w)"
  shows "ConnectionResource_begin_datagram_send (cn_connections w ! c) = (True, self) \<Longrightarrow>
      take_up (Fut_datagram_send v c data wait) (holdings w)
        = Some (holdings (QueueGuard_new (data_len data) (set_connection c self w)))"
    and "ConnectionResource_begin_datagram_recv (cn_connections w ! c) = (True, self) \<Longrightarrow>
      take_up (Fut_datagram_recv v c) (holdings w) = Some (holdings (set_connection c self w))"
  using assms
  by (auto simp: ConnectionResource_begin_datagram_send_def ConnectionResource_begin_datagram_recv_def
      compare_exchange_def take_up_def holdings_def set_connection_def map_update QueueGuard_new_def Let_def
      case_prod_beta list_update_same_conv split: if_splits)

lemma hold_datagram_send_start:
  assumes c: "c < length (cn_connections w)"
  shows "hold_step (hold_state w) (hold_state (snd (datagram_send_start builds iroh caller r c data wait w)))"
proof (cases "fst (ConnectionResource_begin_datagram_send (cn_connections w ! c))")
  case True
  then obtain self where b: "ConnectionResource_begin_datagram_send (cn_connections w ! c) = (True, self)"
    by (cases "ConnectionResource_begin_datagram_send (cn_connections w ! c)") auto
  note taken = begin_datagram_holdings(1) [OF c b]
  have start: "hold_step (hold_state w)
      (hold_state (snd (case start_endpoint_operation builds caller r At_datagram_send (Fut_datagram_send v c data wait) (QueueGuard_new (data_len data) (set_connection c self w)) of
          (Inl e, w2) \<Rightarrow> (Inl e, drop_datagram_send c data w2) | (Inr ix, w2) \<Rightarrow> (Inr ix, w2))))" for v
    by (rule hold_start [OF taken]) (simp_all add: give_back_def drop_send_def drop_datagram_send_def)
  show ?thesis
    using b
    by (auto simp: datagram_send_start_def Let_def split: sum.splits intro: hold_idle simp: start)
next
  case False
  then show ?thesis
    by (auto simp: datagram_send_start_def Let_def case_prod_beta split: sum.splits bool.splits intro: hold_idle)
qed

lemma hold_datagram_recv_start:
  assumes c: "c < length (cn_connections w)"
  shows "hold_step (hold_state w) (hold_state (snd (datagram_recv_start builds caller r c w)))"
proof (cases "fst (ConnectionResource_begin_datagram_recv (cn_connections w ! c))")
  case True
  then obtain self where b: "ConnectionResource_begin_datagram_recv (cn_connections w ! c) = (True, self)"
    by (cases "ConnectionResource_begin_datagram_recv (cn_connections w ! c)") auto
  note taken = begin_datagram_holdings(2) [OF c b]
  have start: "hold_step (hold_state w)
      (hold_state (snd (case start_endpoint_operation builds caller r At_datagram_recv (Fut_datagram_recv v c) (set_connection c self w) of
          (Inl e, w2) \<Rightarrow> (Inl e, DatagramPermit_drop c False w2) | (Inr ix, w2) \<Rightarrow> (Inr ix, w2))))" for v
    by (rule hold_start [OF taken]) (simp_all add: give_back_def drop_send_def drop_datagram_send_def)
  show ?thesis
    using b
    by (auto simp: datagram_recv_start_def simp del: holdings_DatagramPermit_drop split: sum.splits
        intro: hold_idle simp: start)
next
  case False
  then show ?thesis
    by (auto simp: datagram_recv_start_def case_prod_beta split: sum.splits bool.splits intro: hold_idle)
qed

lemma stream_step_hold:
  assumes "stream_step w w'"
  shows "hold_step (hold_state w) (hold_state w')"
  using assms
proof (induction rule: stream_step.induct)
  case (stream_start c w kind builds caller owner r)
  show ?case
    by (auto simp: stream_start_def take_up_def split: sum.splits intro: hold_idle hold_start_free)
next
  case (stream_send_start s w builds caller r data send_all chunk_size)
  then show ?case by (simp add: stream_send_start_def hold_send_start live_stream_def)
next
  case (stream_send_iodata_start s w builds caller r iolist expected max_bytes)
  then show ?case
    by (auto simp: stream_send_iodata_start_def live_stream_def split: option.splits
        intro: hold_idle hold_send_start)
qed (auto simp: live_stream_def live_connection_def
       intro: hold_idle_part hold_recv_start hold_datagram_send_start hold_datagram_recv_start)

section \<open>Tasks and the whole library\<close>

lemma spawned_set_task:
  "i < length (rt_tasks w) \<Longrightarrow>
     map tk_spawned (rt_tasks (set_task i g w)) = (map tk_spawned (rt_tasks w))[i := tk_spawned (g (rt_tasks w ! i))]"
  by (simp add: set_task_def map_update)

lemma hold_phase:
  assumes "rt_tasks w' = (rt_tasks w)[i := t]" and "tk_spawned t = tk_spawned (rt_tasks w ! i)"
    and "grown (holdings w) (holdings w')"
  shows "hold_step (hold_state w) (hold_state w')"
  using hold_step.grow [OF assms(3), of "map tk_spawned (rt_tasks w)"] assms(1,2)
  by (simp add: hold_state_def map_update_same)

lemma hold_stop:
  assumes "i < length (rt_tasks w)" and "tk_spawned (rt_tasks w ! i) = Sp_running f"
    and "grown (holdings w) h" and "holdings w' = give_back f h"
    and "map tk_spawned (rt_tasks w') = (map tk_spawned (rt_tasks w))[i := sp]" and "\<forall>g. sp \<noteq> Sp_running g"
  shows "hold_step (hold_state w) (hold_state w')"
  using hold_step.stop [of i "map tk_spawned (rt_tasks w)" f "holdings w" h sp] assms
  by (simp add: hold_state_def)

lemma hold_task_poll:
  assumes "i < length (rt_tasks w)" and "task_poll iroh event i w = Some w'"
  shows "hold_step (hold_state w) (hold_state w')"
proof -
  obtain f r w1 where f: "tk_spawned (rt_tasks w ! i) = Sp_running f" "poll iroh event f w = Some (r, w1)"
      and w': "w' = set_task i (tk_spawned_update
                 (\<lambda>_. case r of Inl f' \<Rightarrow> Sp_running f' | Inr j \<Rightarrow> Sp_finished j)) w1"
    using assms(2) by (auto simp: task_poll_def split: spawned.splits option.splits sum.splits)
  have tasks: "rt_tasks w1 = rt_tasks w"
    using rt_frame_poll [OF f(2)] by (rule tasks_of_part)
  obtain h where h: "grown (holdings w) h"
      "case r of Inl f' \<Rightarrow> same_hold f f' \<and> holdings w1 = h | Inr _ \<Rightarrow> holdings w1 = give_back f h"
    using hold_poll [OF f(2)] by (auto simp: after_resumption_def)
  show ?thesis
  proof (cases r)
    case (Inl f')
    then show ?thesis
      using hold_step.suspend [of i "map tk_spawned (rt_tasks w)" f f' "holdings w" h] h f(1) assms(1)
      by (simp add: hold_state_def w' spawned_set_task tasks)
  next
    case (Inr j)
    then show ?thesis
      using h assms(1) f(1) by (intro hold_stop [where f = f and h = h and sp = "Sp_finished j"])
        (simp_all add: w' spawned_set_task tasks)
  qed
qed

lemma tasks_should_complete [simp]: "rt_tasks (snd (should_complete i w)) = rt_tasks w"
  by (simp add: should_complete_def case_prod_beta)

lemma hold_task_cancel:
  assumes i: "i < length (rt_tasks w)" and "task_cancel iroh i w = Some w'"
  shows "hold_step (hold_state w) (hold_state w')"
proof -
  obtain sp w1 where sp: "select_cancelled i w = Some (sp, w1)" "w' = drop_spawned iroh sp w1"
    using assms(2) by (auto simp: task_cancel_def)
  then have w1: "sp = tk_spawned (rt_tasks w ! i)" "holdings w1 = holdings w"
      "map tk_spawned (rt_tasks w1) = (map tk_spawned (rt_tasks w))[i := Sp_joined]"
    using i by (auto simp: select_cancelled_def set_task_def map_update split: if_splits)
  show ?thesis
  proof (cases sp)
    case (Sp_running f)
    then show ?thesis
      using i w1 sp(2) by (intro hold_stop [where f = f and h = "holdings w" and sp = Sp_joined])
        (simp_all add: drop_spawned_def)
  next
    case (Sp_finished j)
    then show ?thesis
      using hold_step.join [of i "map tk_spawned (rt_tasks w)" Sp_joined "holdings w"] i w1 sp(2)
      by (simp add: hold_state_def drop_spawned_def)
  next
    case Sp_joined
    then show ?thesis
      using hold_step.join [of i "map tk_spawned (rt_tasks w)" Sp_joined "holdings w"] i w1 sp(2)
      by (simp add: hold_state_def drop_spawned_def)
  qed
qed

lemma task_step_hold:
  assumes "task_step w w'"
  shows "hold_step (hold_state w) (hold_state w')"
  using assms
proof (induction rule: task_step.induct)
  case (poll i w iroh event w')
  then show ?case by (rule hold_task_poll)
next
  case (panic i w w')
  then obtain f where f: "tk_spawned (rt_tasks w ! i) = Sp_running f"
      and w': "w' = set_task i (tk_spawned_update (\<lambda>_. Sp_finished Join_panicked)) (drop_future f w)"
    by (auto simp: task_panic_def split: spawned.splits future.splits)
  show ?case
    by (rule hold_stop [OF panic.hyps(1) f grown_refl, where sp = "Sp_finished Join_panicked"])
       (simp_all add: w' spawned_set_task panic.hyps(1))
next
  case (select i w w')
  then show ?case
    using hold_step.join [of i "map tk_spawned (rt_tasks w)" Sp_joined "holdings w"]
    by (auto simp: select_result_def hold_state_def spawned_set_task split: phase.splits spawned.splits)
next
  case (cancel i w iroh w')
  then show ?case by (rule hold_task_cancel)
next
  case (complete i w w')
  then obtain p where "w' = set_task i (tk_phase_update (\<lambda>_. p)) (snd (should_complete i w))"
    by (auto simp: supervisor_complete_def case_prod_beta split: supervisor.splits phase.splits bool.splits if_splits)
  then show ?case
    by (intro hold_phase [where i = i and t = "(rt_tasks w ! i)\<lparr>tk_phase := p\<rparr>"]) (simp_all add: set_task_def)
next
  case (bind i w w')
  then obtain p w1 where w': "w' = set_task i (tk_phase_update (\<lambda>_. p)) w1"
      and w1: "rt_tasks w1 = rt_tasks w" "grown (holdings w) (holdings w1)"
    using grown_bind_result_message [of "snd (should_complete i w)"]
    by (auto simp: bind_complete_def case_prod_beta split: supervisor.splits phase.splits bool.splits if_splits)
  then show ?case
    by (intro hold_phase [where i = i and t = "(rt_tasks w ! i)\<lparr>tk_phase := p\<rparr>"]) (simp_all add: set_task_def)
next
  case (send i w w')
  then obtain p where "rt_tasks w' = (rt_tasks w)[i := (rt_tasks w ! i)\<lparr>tk_phase := p\<rparr>]" "holdings w' = holdings w"
    by (auto simp: send_operation_result_def set_task_def Let_def split: phase.splits if_splits)
  then show ?case
    by (intro hold_phase [where i = i and t = "(rt_tasks w ! i)\<lparr>tk_phase := p\<rparr>"]) simp_all
next
  case (finish i w iroh w')
  then obtain p where "rt_tasks w' = (rt_tasks w)[i := (rt_tasks w ! i)\<lparr>tk_phase := p\<rparr>]" "holdings w' = holdings w"
    by (auto simp: task_finish_def supervisor_finish_def set_task_def split: phase.splits)
  then show ?case
    by (intro hold_phase [where i = i and t = "(rt_tasks w ! i)\<lparr>tk_phase := p\<rparr>"]) simp_all
qed

theorem nif_step_hold: "nif_step api w w' \<Longrightarrow> hold_step (hold_state w) (hold_state w')"
  by (cases rule: nif_step.cases)
     (auto dest: endpoint_step_hold connection_step_hold stream_step_hold task_step_hold)

lemma hold_state_initial: "hold_state (initial alive) = (\<lparr>hd_accepts = [], hd_queued = 0, hd_send = [], hd_recv = [],
    hd_datagram_send = [], hd_datagram_recv = []\<rparr>, [])"
  by (simp add: hold_state_def holdings_def initial_def)

end
