(* ===== verification/Ledger.thy ===== *)
theory Ledger
  imports Holdings Delivery
begin

text \<open>
  Exact accounting. A ledger compares a cell of the library with the sum of what the running
  blocks hold of it; the contract asks only how the cell reacts to taking, giving back and
  growing, and yields that the two agree in every reachable state. It is interpreted on the
  accept permits of an endpoint, the two leases of a stream, the two datagram permits of a
  connection, and the queued bytes.
\<close>

section \<open>The contract\<close>

definition spawned_held :: "(('a, 'b) future \<Rightarrow> 'n) \<Rightarrow> ('a, 'b) spawned \<Rightarrow> 'n::zero" where
  "spawned_held held sp = (case sp of Sp_running f \<Rightarrow> held f | _ \<Rightarrow> 0)"

definition no_holdings :: holdings where
  "no_holdings = \<lparr>hd_accepts = [], hd_queued = 0, hd_send = [], hd_recv = [], hd_datagram_send = [],
     hd_datagram_recv = []\<rparr>"

locale ledger =
  fixes held :: "('a, 'b) future \<Rightarrow> 'n::ab_group_add"
    and count :: "holdings \<Rightarrow> 'n"
    and nonneg :: "'n \<Rightarrow> bool"
  assumes nonneg_zero: "nonneg 0"
    and nonneg_add: "nonneg a \<Longrightarrow> nonneg b \<Longrightarrow> nonneg (a + b)"
    and nonneg_held: "nonneg (held f)"
    and count_none: "count no_holdings = 0"
    and count_grown: "grown h h' \<Longrightarrow> count h' = count h"
    and count_take_up: "take_up f h = Some h' \<Longrightarrow> count h' = count h + held f"
    and count_give_back: "nonneg (count h - held f) \<Longrightarrow> count (give_back f h) = count h - held f"
    and held_same: "same_hold f f' \<Longrightarrow> held f' = held f"
begin

definition balanced :: "holdings \<times> ('a, 'b) spawned list \<Rightarrow> bool" where
  "balanced = (\<lambda>(h, sps). count h = total (spawned_held held) sps)"

lemma nonneg_total: "nonneg (total (spawned_held held) sps)"
  by (induction sps) (auto simp: spawned_held_def nonneg_zero nonneg_held split: spawned.splits intro!: nonneg_add)

lemma nonneg_rest:
  assumes "i < length sps" and "sps ! i = Sp_running f"
  shows "nonneg (total (spawned_held held) sps - held f)"
proof -
  have "total (spawned_held held) (sps[i := Sp_joined]) = total (spawned_held held) sps - held f"
    using assms by (simp add: total_update spawned_held_def)
  then show ?thesis using nonneg_total [of "sps[i := Sp_joined]"] by simp
qed

lemma balanced_step: "hold_step x y \<Longrightarrow> balanced x \<Longrightarrow> balanced y"
proof (induction rule: hold_step.induct)
  case (grow h h' sps)
  then show ?case by (simp add: balanced_def count_grown)
next
  case (spawn f h h' sps)
  then show ?case by (simp add: balanced_def count_take_up spawned_held_def)
next
  case (suspend i sps f f' h h')
  then show ?case
    by (simp add: balanced_def count_grown total_update spawned_held_def held_same)
next
  case (stop i sps f h h' sp)
  have "count h' = total (spawned_held held) sps"
    using stop by (simp add: balanced_def count_grown)
  then have "count (give_back f h') = total (spawned_held held) sps - held f"
    using nonneg_rest [OF stop.hyps(1,2)] by (simp add: count_give_back)
  moreover have "spawned_held held sp = 0"
    using stop.hyps(4) by (cases sp) (auto simp: spawned_held_def)
  ultimately show ?case
    using stop.hyps(1,2) by (simp add: balanced_def total_update spawned_held_def)
next
  case (join i sps sp h)
  then have "spawned_held held sp = 0" "spawned_held held (sps ! i) = 0"
    by (cases sp; cases "sps ! i"; auto simp: spawned_held_def)+
  then show ?case
    using join by (simp add: balanced_def total_update)
qed

lemma balanced_steps: "hold_step\<^sup>*\<^sup>* (no_holdings, []) x \<Longrightarrow> balanced x"
proof (induction rule: rtranclp_induct)
  case base
  show ?case by (simp add: balanced_def count_none)
next
  case (step x y)
  then show ?case by (blast intro: balanced_step)
qed

end

section \<open>The library's ledgers\<close>

lemma reachable_hold: "reachable api w \<Longrightarrow> hold_step\<^sup>*\<^sup>* (no_holdings, []) (hold_state w)"
proof (induction rule: reachable.induct)
  case (start alive)
  show ?case by (simp add: hold_state_initial no_holdings_def)
next
  case (step w w')
  then show ?case using nif_step_hold [of api w w'] by simp
qed

text \<open>The content of one cell of a table, 0 outside the table.\<close>

definition cell :: "('c \<Rightarrow> int) \<Rightarrow> 'c list \<Rightarrow> nat \<Rightarrow> int" where
  "cell g xs i = (if i < length xs then g (xs ! i) else 0)"

lemma cell_update: "cell g (xs[j := v]) i = (if i = j \<and> i < length xs then g v else cell g xs i)"
  by (simp add: cell_def)

lemma cell_append_zero: "(\<And>y. y \<in> set ys \<Longrightarrow> g y = 0) \<Longrightarrow> cell g (xs @ ys) i = cell g xs i"
  by (auto simp: cell_def nth_append)

definition accepts_held :: "endpoint_ix \<Rightarrow> ('a, 'b) future \<Rightarrow> int" where
  "accepts_held e f =
     (case f of Fut_accept _ e' _ _ _ \<Rightarrow> of_bool (e' = e) | Fut_accepting _ e' _ _ _ \<Rightarrow> of_bool (e' = e) | _ \<Rightarrow> 0)"

definition send_held :: "stream_ix \<Rightarrow> ('a, 'b) future \<Rightarrow> int" where
  "send_held s f = (case f of Fut_send s' _ _ _ _ _ _ \<Rightarrow> of_bool (s' = s) | _ \<Rightarrow> 0)"

definition recv_held :: "stream_ix \<Rightarrow> ('a, 'b) future \<Rightarrow> int" where
  "recv_held s f = (case f of Fut_recv s' _ _ \<Rightarrow> of_bool (s' = s) | _ \<Rightarrow> 0)"

definition datagram_send_held :: "connection_ix \<Rightarrow> ('a, 'b) future \<Rightarrow> int" where
  "datagram_send_held c f = (case f of Fut_datagram_send _ c' _ _ \<Rightarrow> of_bool (c' = c) | _ \<Rightarrow> 0)"

definition datagram_recv_held :: "connection_ix \<Rightarrow> ('a, 'b) future \<Rightarrow> int" where
  "datagram_recv_held c f = (case f of Fut_datagram_recv _ c' \<Rightarrow> of_bool (c' = c) | _ \<Rightarrow> 0)"

definition bytes_held :: "('a, 'b) future \<Rightarrow> usize" where
  "bytes_held f =
     (case f of Fut_send _ _ data _ _ _ _ \<Rightarrow> data_len data | Fut_datagram_send _ _ data _ \<Rightarrow> data_len data | _ \<Rightarrow> 0)"

lemma grown_cells:
  assumes "grown h h'"
  shows "cell (\<lambda>x. uint (fst x)) (hd_accepts h') i = cell (\<lambda>x. uint (fst x)) (hd_accepts h) i"
    and "cell of_bool (hd_send h') i = cell of_bool (hd_send h) i"
    and "cell of_bool (hd_recv h') i = cell of_bool (hd_recv h) i"
    and "cell of_bool (hd_datagram_send h') i = cell of_bool (hd_datagram_send h) i"
    and "cell of_bool (hd_datagram_recv h') i = cell of_bool (hd_datagram_recv h) i"
    and "hd_queued h' = hd_queued h"
  using assms by (auto simp: grown_def intro!: cell_append_zero)

lemma uint_step: "n < m \<Longrightarrow> uint (n + 1) = uint n + 1" for n m :: usize
  by uint_arith

lemma uint_step_down: "1 \<le> n \<Longrightarrow> uint (n - 1) = uint n - 1" for n :: usize
  by uint_arith

lemma uint_not_positive: "\<not> 1 \<le> n \<Longrightarrow> uint n = 0" for n :: usize
  by uint_arith

interpretation accepts: ledger "accepts_held e" "\<lambda>h. cell (\<lambda>x. uint (fst x)) (hd_accepts h) e" "\<lambda>n. 0 \<le> n"
  for e
proof unfold_locales
  fix f f' :: "('a, 'b) future" and h h'
  show "0 \<le> accepts_held e f" by (simp add: accepts_held_def split: future.splits)
  show "cell (\<lambda>x. uint (fst x)) (hd_accepts no_holdings) e = 0" by (simp add: cell_def no_holdings_def)
  show "take_up f h = Some h' \<Longrightarrow> cell (\<lambda>x. uint (fst x)) (hd_accepts h') e
      = cell (\<lambda>x. uint (fst x)) (hd_accepts h) e + accepts_held e f"
    by (auto simp: take_up_def accepts_held_def cell_def nth_list_update uint_step split: future.splits if_splits)
  show "0 \<le> cell (\<lambda>x. uint (fst x)) (hd_accepts h) e - accepts_held e f \<Longrightarrow>
      cell (\<lambda>x. uint (fst x)) (hd_accepts (give_back f h)) e
        = cell (\<lambda>x. uint (fst x)) (hd_accepts h) e - accepts_held e f"
    by (auto simp: give_back_def accepts_held_def accept_finished_def checked_sub_def cell_def case_prod_beta
        nth_list_update uint_step_down uint_not_positive split: future.splits if_splits)
  show "same_hold f f' \<Longrightarrow> accepts_held e f' = accepts_held e f"
    by (auto simp: same_hold_def accepts_held_def split: future.splits)
qed (simp_all add: grown_cells)

lemma flag_cell:
  "cell of_bool (xs[j := b]) i = (if i = j \<and> i < length xs then of_bool b else cell of_bool xs i)"
  "i < length xs \<Longrightarrow> \<not> xs ! i \<Longrightarrow> cell of_bool xs i = 0"
  "1 \<le> cell of_bool xs i \<longleftrightarrow> i < length xs \<and> xs ! i"
  "i < length xs \<Longrightarrow> xs ! i \<Longrightarrow> cell of_bool xs i = 1"
  by (simp_all add: cell_def)

interpretation sends: ledger "send_held s" "\<lambda>h. cell of_bool (hd_send h) s" "\<lambda>n. 0 \<le> n" for s
proof unfold_locales
  fix f f' :: "('a, 'b) future" and h h'
  show "0 \<le> send_held s f" by (simp add: send_held_def split: future.splits)
  show "cell of_bool (hd_send no_holdings) s = 0" by (simp add: cell_def no_holdings_def)
  show "take_up f h = Some h' \<Longrightarrow> cell of_bool (hd_send h') s = cell of_bool (hd_send h) s + send_held s f"
    by (auto simp: take_up_def send_held_def flag_cell split: future.splits if_splits)
  show "0 \<le> cell of_bool (hd_send h) s - send_held s f \<Longrightarrow>
      cell of_bool (hd_send (give_back f h)) s = cell of_bool (hd_send h) s - send_held s f"
    by (auto simp: give_back_def send_held_def flag_cell split: future.splits if_splits)
  show "same_hold f f' \<Longrightarrow> send_held s f' = send_held s f"
    by (auto simp: same_hold_def send_held_def split: future.splits)
qed (simp_all add: grown_cells)

interpretation receives: ledger "recv_held s" "\<lambda>h. cell of_bool (hd_recv h) s" "\<lambda>n. 0 \<le> n" for s
proof unfold_locales
  fix f f' :: "('a, 'b) future" and h h'
  show "0 \<le> recv_held s f" by (simp add: recv_held_def split: future.splits)
  show "cell of_bool (hd_recv no_holdings) s = 0" by (simp add: cell_def no_holdings_def)
  show "take_up f h = Some h' \<Longrightarrow> cell of_bool (hd_recv h') s = cell of_bool (hd_recv h) s + recv_held s f"
    by (auto simp: take_up_def recv_held_def flag_cell split: future.splits if_splits)
  show "0 \<le> cell of_bool (hd_recv h) s - recv_held s f \<Longrightarrow>
      cell of_bool (hd_recv (give_back f h)) s = cell of_bool (hd_recv h) s - recv_held s f"
    by (auto simp: give_back_def recv_held_def flag_cell split: future.splits if_splits)
  show "same_hold f f' \<Longrightarrow> recv_held s f' = recv_held s f"
    by (auto simp: same_hold_def recv_held_def split: future.splits)
qed (simp_all add: grown_cells)

interpretation datagram_sends: ledger "datagram_send_held c" "\<lambda>h. cell of_bool (hd_datagram_send h) c" "\<lambda>n. 0 \<le> n" for c
proof unfold_locales
  fix f f' :: "('a, 'b) future" and h h'
  show "0 \<le> datagram_send_held c f" by (simp add: datagram_send_held_def split: future.splits)
  show "cell of_bool (hd_datagram_send no_holdings) c = 0" by (simp add: cell_def no_holdings_def)
  show "take_up f h = Some h' \<Longrightarrow> cell of_bool (hd_datagram_send h') c = cell of_bool (hd_datagram_send h) c + datagram_send_held c f"
    by (auto simp: take_up_def datagram_send_held_def flag_cell split: future.splits if_splits)
  show "0 \<le> cell of_bool (hd_datagram_send h) c - datagram_send_held c f \<Longrightarrow>
      cell of_bool (hd_datagram_send (give_back f h)) c = cell of_bool (hd_datagram_send h) c - datagram_send_held c f"
    by (auto simp: give_back_def datagram_send_held_def flag_cell split: future.splits if_splits)
  show "same_hold f f' \<Longrightarrow> datagram_send_held c f' = datagram_send_held c f"
    by (auto simp: same_hold_def datagram_send_held_def split: future.splits)
qed (simp_all add: grown_cells)

interpretation datagram_receives: ledger "datagram_recv_held c" "\<lambda>h. cell of_bool (hd_datagram_recv h) c" "\<lambda>n. 0 \<le> n" for c
proof unfold_locales
  fix f f' :: "('a, 'b) future" and h h'
  show "0 \<le> datagram_recv_held c f" by (simp add: datagram_recv_held_def split: future.splits)
  show "cell of_bool (hd_datagram_recv no_holdings) c = 0" by (simp add: cell_def no_holdings_def)
  show "take_up f h = Some h' \<Longrightarrow> cell of_bool (hd_datagram_recv h') c = cell of_bool (hd_datagram_recv h) c + datagram_recv_held c f"
    by (auto simp: take_up_def datagram_recv_held_def flag_cell split: future.splits if_splits)
  show "0 \<le> cell of_bool (hd_datagram_recv h) c - datagram_recv_held c f \<Longrightarrow>
      cell of_bool (hd_datagram_recv (give_back f h)) c = cell of_bool (hd_datagram_recv h) c - datagram_recv_held c f"
    by (auto simp: give_back_def datagram_recv_held_def flag_cell split: future.splits if_splits)
  show "same_hold f f' \<Longrightarrow> datagram_recv_held c f' = datagram_recv_held c f"
    by (auto simp: same_hold_def datagram_recv_held_def split: future.splits)
qed (simp_all add: grown_cells)

interpretation queue: ledger bytes_held hd_queued "\<lambda>_. True"
  by unfold_locales
     (auto simp: take_up_def give_back_def bytes_held_def same_hold_def no_holdings_def grown_cells
        split: future.splits if_splits)

section \<open>Balances of reachable states\<close>

definition accepts_on :: "endpoint_ix \<Rightarrow> ('a, 'b) task \<Rightarrow> bool" where
  "accepts_on e t =
     (case tk_spawned t of
        Sp_running (Fut_accept _ e' _ _ _) \<Rightarrow> e' = e | Sp_running (Fut_accepting _ e' _ _ _) \<Rightarrow> e' = e | _ \<Rightarrow> False)"

definition sends_on :: "stream_ix \<Rightarrow> ('a, 'b) task \<Rightarrow> bool" where
  "sends_on s t = (case tk_spawned t of Sp_running (Fut_send s' _ _ _ _ _ _) \<Rightarrow> s' = s | _ \<Rightarrow> False)"

definition receives_on :: "stream_ix \<Rightarrow> ('a, 'b) task \<Rightarrow> bool" where
  "receives_on s t = (case tk_spawned t of Sp_running (Fut_recv s' _ _) \<Rightarrow> s' = s | _ \<Rightarrow> False)"

definition datagram_sends_on :: "connection_ix \<Rightarrow> ('a, 'b) task \<Rightarrow> bool" where
  "datagram_sends_on c t = (case tk_spawned t of Sp_running (Fut_datagram_send _ c' _ _) \<Rightarrow> c' = c | _ \<Rightarrow> False)"

definition datagram_receives_on :: "connection_ix \<Rightarrow> ('a, 'b) task \<Rightarrow> bool" where
  "datagram_receives_on c t = (case tk_spawned t of Sp_running (Fut_datagram_recv _ c') \<Rightarrow> c' = c | _ \<Rightarrow> False)"

definition queued_data :: "('a, 'b) task \<Rightarrow> bytes" where
  "queued_data t =
     (case tk_spawned t of
        Sp_running (Fut_send _ _ data _ _ _ _) \<Rightarrow> data | Sp_running (Fut_datagram_send _ _ data _) \<Rightarrow> data | _ \<Rightarrow> [])"

lemma held_of_task:
  "spawned_held (accepts_held e) (tk_spawned t) = of_bool (accepts_on e t)"
  "spawned_held (send_held s) (tk_spawned t) = of_bool (sends_on s t)"
  "spawned_held (recv_held s) (tk_spawned t) = of_bool (receives_on s t)"
  "spawned_held (datagram_send_held c) (tk_spawned t) = of_bool (datagram_sends_on c t)"
  "spawned_held (datagram_recv_held c) (tk_spawned t) = of_bool (datagram_receives_on c t)"
  "spawned_held bytes_held (tk_spawned t) = data_len (queued_data t)"
  by (auto simp: spawned_held_def accepts_held_def send_held_def recv_held_def datagram_send_held_def
      datagram_recv_held_def bytes_held_def accepts_on_def sends_on_def receives_on_def datagram_sends_on_def
      datagram_receives_on_def queued_data_def data_len_def usize_of_def split: spawned.splits future.splits)

lemma total_map: "total f (map g xs) = total (\<lambda>x. f (g x)) xs"
  by (simp add: total_def o_def)

lemma balance_of_tasks:
  assumes "reachable api w"
  shows "e < length (ep_endpoints w) \<Longrightarrow>
      uint (er_pending_accepts (ep_endpoints w ! e)) = int (length (filter (accepts_on e) (rt_tasks w)))"
    and "s < length (st_streams w) \<Longrightarrow>
      of_bool (sr_send_busy (st_streams w ! s)) = int (length (filter (sends_on s) (rt_tasks w)))"
    and "s < length (st_streams w) \<Longrightarrow>
      of_bool (sr_recv_busy (st_streams w ! s)) = int (length (filter (receives_on s) (rt_tasks w)))"
    and "c < length (cn_connections w) \<Longrightarrow>
      of_bool (cr_datagram_send_busy (cn_connections w ! c)) = int (length (filter (datagram_sends_on c) (rt_tasks w)))"
    and "c < length (cn_connections w) \<Longrightarrow>
      of_bool (cr_datagram_recv_busy (cn_connections w ! c)) = int (length (filter (datagram_receives_on c) (rt_tasks w)))"
    and "st_queued_bytes w = total (\<lambda>t. data_len (queued_data t)) (rt_tasks w)"
  using accepts.balanced_steps [OF reachable_hold [OF assms], of e]
    sends.balanced_steps [OF reachable_hold [OF assms], of s]
    receives.balanced_steps [OF reachable_hold [OF assms], of s]
    datagram_sends.balanced_steps [OF reachable_hold [OF assms], of c]
    datagram_receives.balanced_steps [OF reachable_hold [OF assms], of c]
    queue.balanced_steps [OF reachable_hold [OF assms]]
  unfolding accepts.balanced_def sends.balanced_def receives.balanced_def datagram_sends.balanced_def
    datagram_receives.balanced_def queue.balanced_def hold_state_def
  by (simp_all add: holdings_def total_map held_of_task total_of_bool cell_def)

definition within_limits :: "(usize \<times> usize) list \<Rightarrow> bool" where
  "within_limits xs \<longleftrightarrow> (\<forall>x\<in>set xs. fst x \<le> snd x)"

lemma within_limits_update: "within_limits xs \<Longrightarrow> fst v \<le> snd v \<Longrightarrow> within_limits (xs[i := v])"
  using set_update_subset_insert [of xs i v] by (auto simp: within_limits_def)

lemma within_limits_grown: "grown h h' \<Longrightarrow> within_limits (hd_accepts h) \<Longrightarrow> within_limits (hd_accepts h')"
  by (fastforce simp: grown_def within_limits_def)

lemma within_limits_finished:
  assumes "within_limits xs"
  shows "within_limits (xs[i := accept_finished (xs ! i)])"
proof (cases "i < length xs")
  case True
  have down: "m - 1 \<le> l" if "1 \<le> m" "m \<le> l" for m l :: usize
    using that by unat_arith
  have "fst (accept_finished (xs ! i)) \<le> snd (accept_finished (xs ! i))"
    using assms True down by (auto simp: within_limits_def accept_finished_def checked_sub_def case_prod_beta)
  then show ?thesis using assms by (intro within_limits_update)
qed (use assms in \<open>simp add: list_update_beyond\<close>)

lemma within_limits_give_back: "within_limits (hd_accepts h) \<Longrightarrow> within_limits (hd_accepts (give_back f h))"
  by (simp add: give_back_def within_limits_finished split: future.splits)

lemma within_limits_take_up:
  assumes "take_up f h = Some h'" and "within_limits (hd_accepts h)"
  shows "within_limits (hd_accepts h')"
proof -
  have up: "m + 1 \<le> l" if "m < l" for m l :: usize
    using that by unat_arith
  show ?thesis
    using assms by (auto simp: take_up_def up split: future.splits if_splits intro!: within_limits_update)
qed

lemma within_limits_step: "hold_step x y \<Longrightarrow> within_limits (hd_accepts (fst x)) \<Longrightarrow> within_limits (hd_accepts (fst y))"
  by (induction rule: hold_step.induct)
     (simp_all add: within_limits_grown within_limits_take_up within_limits_give_back)

lemma within_limits_steps: "hold_step\<^sup>*\<^sup>* (no_holdings, []) x \<Longrightarrow> within_limits (hd_accepts (fst x))"
proof (induction rule: rtranclp_induct)
  case base
  show ?case by (simp add: no_holdings_def within_limits_def)
next
  case (step x y)
  show ?case by (rule within_limits_step [OF step.hyps(2) step.IH])
qed

lemma accept_limits:
  assumes "reachable api w" and "e < length (ep_endpoints w)"
  shows "er_pending_accepts (ep_endpoints w ! e) \<le> er_max_pending_accepts (ep_endpoints w ! e)"
  using within_limits_steps [OF reachable_hold [OF assms(1)]] assms(2)
  by (auto simp: within_limits_def hold_state_def holdings_def)

lemma of_bool_eq_int: "of_bool b = int n \<longleftrightarrow> n = of_bool b"
  by (cases b) auto

text \<open>
  C6. Accept permits are exact: the pending-accept counter of an endpoint is the number of
  accept blocks that are running on it, and never exceeds the endpoint's limit. A permit is
  returned however the block ends: with a connection, refused, cancelled, aborted or panicked.
\<close>

theorem accept_permits_exact:
  assumes "reachable api w" and "e < length (ep_endpoints w)"
  shows "unat (er_pending_accepts (ep_endpoints w ! e)) = length (filter (accepts_on e) (rt_tasks w))
    \<and> er_pending_accepts (ep_endpoints w ! e) \<le> er_max_pending_accepts (ep_endpoints w ! e)"
  using balance_of_tasks(1) [OF assms] accept_limits [OF assms] by (simp add: unat_eq_nat_uint)

theorem accept_permits_exact_witness:
  "length (filter (accepts_on 0) (rt_tasks demo_accept_started)) = 1"
  using accept_permits_exact [OF demo_accept_started_reachable, of 0]
  by (simp add: demo_accept_started_eq)

text \<open>
  C5. Exclusive use: each half of a stream and each datagram direction of a connection is used
  by at most one running block, and its busy flag is set exactly while there is one.
\<close>

theorem exclusive_use:
  assumes "reachable api w" and "s < length (st_streams w)" and "c < length (cn_connections w)"
  shows "length (filter (sends_on s) (rt_tasks w)) = of_bool (sr_send_busy (st_streams w ! s))
    \<and> length (filter (receives_on s) (rt_tasks w)) = of_bool (sr_recv_busy (st_streams w ! s))
    \<and> length (filter (datagram_sends_on c) (rt_tasks w)) = of_bool (cr_datagram_send_busy (cn_connections w ! c))
    \<and> length (filter (datagram_receives_on c) (rt_tasks w)) = of_bool (cr_datagram_recv_busy (cn_connections w ! c))"
  using balance_of_tasks(2,3) [OF assms(1,2)] balance_of_tasks(4,5) [OF assms(1,3)]
  by (simp add: of_bool_eq_int)

theorem exclusive_use_witness: "length (filter (sends_on 0) (rt_tasks demo_send_started)) = 1"
  using exclusive_use [OF demo_send_started_reachable, of 0 0]
  by (simp add: demo_send_started_eq demo_stream_opened_eq demo_connected_eq)

lemma total_data_len:
  "total (\<lambda>t. data_len (queued_data t)) ts = of_nat (sum_list (map (\<lambda>t. length (queued_data t)) ts))"
  by (induction ts) (simp_all add: data_len_def usize_of_def)

text \<open>
  C29. Queue accounting is exact: as long as the bytes in flight fit the address space, the
  queued-byte counter is the total length of the data owned by running sends and datagram
  sends.
\<close>

theorem queued_bytes_exact:
  assumes "reachable api w"
    and "sum_list (map (\<lambda>t. length (queued_data t)) (rt_tasks w)) < 2 ^ 64"
  shows "unat (st_queued_bytes w) = sum_list (map (\<lambda>t. length (queued_data t)) (rt_tasks w))"
  using balance_of_tasks(6) [OF assms(1)] assms(2) by (simp add: total_data_len unat_of_nat_usize)

theorem queued_bytes_exact_witness: "unat (st_queued_bytes demo_send_started) = 3"
  using queued_bytes_exact [OF demo_send_started_reachable]
  by (simp add: demo_send_started_eq demo_stream_opened_eq demo_connected_eq queued_data_def demo_endpoint_task_def
      demo_bind_task_def)

lemma terminated_holds_nothing:
  assumes "reachable api w" and "t \<in> set (rt_tasks w)" and "tk_phase t \<noteq> Selecting"
  shows "tk_spawned t = Sp_joined"
proof -
  obtain i where i: "i < length (rt_tasks w)" "t = rt_tasks w ! i"
    using assms(2) by (auto simp: in_set_conv_nth)
  then show ?thesis
    using op_inv_nth(1) [OF op_inv_reachable [OF assms(1)] i(1)] assms(3)
    by (auto simp: op_ok_def split: phase.splits)
qed

text \<open>
  C8. Nothing leaks: once every operation has ended, in whatever mixture of results,
  cancellations, panics and process exits, no accept permit, lease, datagram permit or
  queued byte is left behind.
\<close>

theorem quiescent_holds_nothing:
  assumes "reachable api w" and "\<forall>t\<in>set (rt_tasks w). tk_phase t = Terminated"
  shows "st_queued_bytes w = 0
    \<and> (\<forall>e\<in>set (ep_endpoints w). er_pending_accepts e = 0)
    \<and> (\<forall>s\<in>set (st_streams w). \<not> sr_send_busy s \<and> \<not> sr_recv_busy s)
    \<and> (\<forall>c\<in>set (cn_connections w). \<not> cr_datagram_send_busy c \<and> \<not> cr_datagram_recv_busy c)"
proof -
  have joined: "tk_spawned t = Sp_joined" if "t \<in> set (rt_tasks w)" for t
    using terminated_holds_nothing [OF assms(1) that] assms(2) that by simp
  have none: "filter P (rt_tasks w) = []" if "\<And>t. tk_spawned t = Sp_joined \<Longrightarrow> \<not> P t" for P
    using that joined by (simp add: filter_empty_conv)
  have "st_queued_bytes w = total (\<lambda>_. 0) (rt_tasks w)"
    unfolding balance_of_tasks(6) [OF assms(1)]
    by (rule total_cong) (simp add: joined queued_data_def data_len_def usize_of_def)
  moreover have "er_pending_accepts e = 0" if "e \<in> set (ep_endpoints w)" for e
    using that balance_of_tasks(1) [OF assms(1)] none [of "accepts_on _"]
    by (auto simp: in_set_conv_nth accepts_on_def uint_0_iff)
  moreover have "\<not> sr_send_busy s \<and> \<not> sr_recv_busy s" if "s \<in> set (st_streams w)" for s
    using that balance_of_tasks(2,3) [OF assms(1)] none [of "sends_on _"] none [of "receives_on _"]
    by (auto simp: in_set_conv_nth sends_on_def receives_on_def)
  moreover have "\<not> cr_datagram_send_busy c \<and> \<not> cr_datagram_recv_busy c" if "c \<in> set (cn_connections w)" for c
    using that balance_of_tasks(4,5) [OF assms(1)] none [of "datagram_sends_on _"] none [of "datagram_receives_on _"]
    by (auto simp: in_set_conv_nth datagram_sends_on_def datagram_receives_on_def)
  ultimately show ?thesis by (simp add: total_def)
qed

theorem quiescent_holds_nothing_witness:
  "st_queued_bytes demo_settled = 0 \<and> er_pending_accepts (ep_endpoints demo_settled ! 0) = 0"
proof -
  have "\<forall>t\<in>set (rt_tasks demo_settled). tk_phase t = Terminated"
    "ep_endpoints demo_settled ! 0 \<in> set (ep_endpoints demo_settled)"
    by (simp_all add: demo_settled_eq demo_bound_eq)
  then show ?thesis
    using quiescent_holds_nothing [OF demo_settled_reachable [of demo_api]] by blast
qed

end
