(* ===== verification/References.thy ===== *)
theory References
  imports Ledger
begin

text \<open>
  References are valid: every resource that a suspended block or an undelivered result refers
  to exists. Tables only grow, and a block can name only resources its caller held or that it
  has just created.
\<close>

definition in_range :: "holdings \<Rightarrow> resource \<Rightarrow> bool" where
  "in_range h r =
     (case r of
        Res_endpoint e \<Rightarrow> e < length (hd_accepts h)
      | Res_connection c \<Rightarrow> c < length (hd_datagram_send h)
      | Res_stream s \<Rightarrow> s < length (hd_send h))"

definition refs_ok :: "('a, 'b, 'z) nif_state_scheme \<Rightarrow> bool" where
  "refs_ok w \<longleftrightarrow> (\<forall>t\<in>set (rt_tasks w). \<forall>r\<in>task_refs t. in_range (holdings w) r)"

lemma in_range_grown: "grown h h' \<Longrightarrow> in_range h r \<Longrightarrow> in_range h' r"
  by (auto simp: grown_def in_range_def split: resource.splits)

lemma in_range_give_back [simp]: "in_range (give_back f h) r = in_range h r"
  by (auto simp: give_back_def in_range_def split: future.splits resource.splits)

lemma in_range_take_up: "take_up f h = Some h' \<Longrightarrow> in_range h' r = in_range h r"
  by (auto simp: take_up_def in_range_def split: future.splits resource.splits if_splits)

lemma in_range_step: "hold_step x y \<Longrightarrow> in_range (fst x) r \<Longrightarrow> in_range (fst y) r"
  by (induction rule: hold_step.induct) (auto simp: in_range_take_up dest: in_range_grown)

lemma in_range_nif_step: "nif_step api w w' \<Longrightarrow> in_range (holdings w) r \<Longrightarrow> in_range (holdings w') r"
  using in_range_step [OF nif_step_hold, of api w w' r] by (simp add: hold_state_def)

lemma in_range_state:
  "in_range (holdings w) (Res_endpoint e) \<longleftrightarrow> e < length (ep_endpoints w)"
  "in_range (holdings w) (Res_connection c) \<longleftrightarrow> c < length (cn_connections w)"
  "in_range (holdings w) (Res_stream s) \<longleftrightarrow> s < length (st_streams w)"
  by (simp_all add: in_range_def holdings_def)

section \<open>What a call adds\<close>

text \<open>The references of the tasks \<open>ts\<close> are old or were in range before.\<close>

definition refs_from :: "('a, 'b, 'z) nif_state_scheme \<Rightarrow> ('a, 'b) task list \<Rightarrow> bool" where
  "refs_from w ts \<longleftrightarrow>
     (\<forall>t'\<in>set ts. \<forall>r\<in>task_refs t'. (\<exists>t\<in>set (rt_tasks w). r \<in> task_refs t) \<or> in_range (holdings w) r)"

lemma refs_from_same [simp]: "refs_from w (rt_tasks w)"
  by (auto simp: refs_from_def)

lemma refs_from_part: "rt_part w' = rt_part w \<Longrightarrow> refs_from w (rt_tasks w')"
  using tasks_of_part [of w' w] by simp

lemma task_refs_new [simp]:
  "task_refs \<lparr>tk_caller = p, tk_ref = r, tk_supervisor = sv, tk_spawned = Sp_running f, tk_phase = Selecting\<rparr>
     = future_refs f"
  by (simp add: task_refs_def spawned_refs_def phase_refs_def)

lemma spawn_refs:
  assumes "rt_tasks w1 = rt_tasks w" and "\<And>x. x \<in> future_refs f \<Longrightarrow> in_range (holdings w) x"
  shows "refs_from w (rt_tasks (snd (spawn_operation caller r sv f w1)))"
  using assms by (auto simp: spawn_operation_def refs_from_def)

lemma start_refs:
  assumes "rt_tasks w1 = rt_tasks w" and "\<And>x. x \<in> future_refs f \<Longrightarrow> in_range (holdings w) x"
  shows "refs_from w (rt_tasks (snd (start_endpoint_operation builds caller r name f w1)))"
  using assms spawn_refs [of "snd (runtime builds w1)" w f]
  by (auto simp: start_endpoint_operation_def case_prod_beta Let_def split: sum.splits)

lemma endpoint_step_refs:
  assumes "endpoint_step w w'"
  shows "refs_from w (rt_tasks w')"
  using assms
proof (induction rule: endpoint_step.induct)
  case (operation_start w builds caller r kind delay)
  show ?case
    by (auto simp: operation_start_def case_prod_beta Let_def split: sum.splits intro!: spawn_refs)
next
  case (endpoint_bind_start w builds api bind_addr_ok public_id caller r key options)
  show ?case
    by (auto simp: endpoint_bind_start_def case_prod_beta Let_def split: sum.splits intro!: spawn_refs)
next
  case (endpoint_close_start e w builds caller r)
  then show ?case
    by (auto simp: endpoint_close_start_def live_endpoint_def in_range_state intro!: start_refs)
next
  case (endpoint_await_online_start e w builds caller r)
  then show ?case by (auto simp: endpoint_await_online_start_def Let_def intro!: start_refs)
qed (auto simp: endpoint_abort_def intro: refs_from_part)

lemma connection_step_refs:
  assumes "connection_step api w w'"
  shows "refs_from w (rt_tasks w')"
  using assms
proof (induction rule: connection_step.induct)
  case (connection_connect_start e w builds caller owner r target alpn)
  then show ?case
    by (auto simp: connection_connect_start_def live_endpoint_def in_range_state split: sum.splits option.splits
        intro!: start_refs)
next
  case (connection_accept_start e w builds caller owner r allow_all allowed)
  then show ?case
    by (auto simp: connection_accept_start_def live_endpoint_def in_range_state case_prod_beta Let_def
        split: sum.splits option.splits bool.splits intro!: start_refs)
next
  case (connection_closed_start c w builds caller r)
  then show ?case
    by (auto simp: connection_closed_start_def live_connection_def in_range_state intro!: start_refs)
qed (auto simp: connection_close_def intro: refs_from_part)

lemma stream_step_refs:
  assumes "stream_step w w'"
  shows "refs_from w (rt_tasks w')"
  using assms
proof (induction rule: stream_step.induct)
  case (stream_send_iodata_start s w builds caller r iolist expected max_bytes)
  then show ?case
    by (auto simp: stream_send_iodata_start_def start_stream_send_def live_stream_def in_range_state case_prod_beta
        Let_def split: sum.splits option.splits intro!: start_refs)
next
  case (stream_send_start s w builds caller r data send_all chunk_size)
  then show ?case
    by (auto simp: stream_send_start_def start_stream_send_def live_stream_def in_range_state case_prod_beta
        Let_def split: sum.splits intro!: start_refs)
next
  case (stream_recv_start s w builds caller r max_bytes)
  then show ?case
    by (auto simp: stream_recv_start_def live_stream_def in_range_state case_prod_beta
        Let_def split: sum.splits intro!: start_refs)
qed (auto simp: stream_start_def datagram_send_start_def datagram_recv_start_def live_connection_def in_range_state
       case_prod_beta Let_def split: sum.splits bool.splits intro: refs_from_part intro!: start_refs)

section \<open>What a task adds\<close>

lemma joined_refs_simps [simp]:
  "joined_refs (Join_result (Inl e)) = {}" "joined_refs (Join_result (Inr v)) = value_refs v"
  "joined_refs (Join_bound b) = {}" "joined_refs Join_elapsed = {}" "joined_refs Join_panicked = {}"
  by (simp_all add: joined_refs_def result_refs_def)

lemma wrap_connection_refs:
  "r \<in> joined_refs (Join_result (map_result R_connection (fst (wrap_connection iroh h e owner role op w))))
     \<Longrightarrow> in_range (holdings (snd (wrap_connection iroh h e owner role op w))) r"
  by (auto simp: wrap_connection_def case_prod_beta Let_def in_range_state set_endpoint_def
      split: bool.splits if_splits)

lemma wrap_stream_refs:
  "r \<in> joined_refs (Join_result (map_result R_stream (fst (wrap_stream iroh send recv c owner op w))))
     \<Longrightarrow> in_range (holdings (snd (wrap_stream iroh send recv c owner op w))) r"
  by (auto simp: wrap_stream_def Let_def in_range_state split: option.splits if_splits)

lemma in_range_accept_drop [simp]: "in_range (holdings (AcceptPermit_drop e w)) r = in_range (holdings w) r"
  by (auto simp: in_range_def split: resource.splits)

lemma poll_refs_join:
  assumes "poll iroh event f w = Some (Inr j, w')" and "r \<in> joined_refs j"
  shows "in_range (holdings w') r"
  using assms
  by (auto simp: poll_def poll_close_def poll_closing_def poll_online_def poll_connect_def poll_accept_def
      poll_accepting_def poll_closed_def poll_stream_def poll_send_def poll_send_all_def poll_send_once_def
      poll_send_reset_def poll_recv_def poll_datagram_send_def poll_datagram_recv_def case_prod_beta Let_def
      simp del: holdings_AcceptPermit_drop
      split: future.splits lib_event.splits option.splits if_splits bool.splits prod.splits
      intro!: wrap_connection_refs wrap_stream_refs)

lemma poll_refs_wait:
  assumes "poll iroh event f w = Some (Inl f', w')"
  shows "future_refs f' \<subseteq> future_refs f"
  using assms
  by (auto simp: poll_def poll_close_def poll_closing_def poll_online_def poll_connect_def poll_accept_def
      poll_accepting_def poll_closed_def poll_stream_def poll_send_def poll_send_all_def poll_send_once_def
      poll_send_reset_def poll_recv_def poll_datagram_send_def poll_datagram_recv_def case_prod_beta Let_def
      split: future.splits lib_event.splits option.splits if_splits bool.splits prod.splits)

lemma bind_result_refs:
  "r \<in> result_refs (fst (bind_result_message caller c bound w))
     \<Longrightarrow> in_range (holdings (snd (bind_result_message caller c bound w))) r"
  by (auto simp: bind_result_message_def result_refs_def Let_def in_range_state
      split: option.splits joined.splits if_splits)

text \<open>
  A step of the task \<open>i\<close> that replaces it by \<open>t'\<close>, whose references it had before or are in
  range now.
\<close>

definition refs_task :: "op_ix \<Rightarrow> ('a, 'b, 'z) nif_state_scheme \<Rightarrow> ('a, 'b, 'z) nif_state_scheme \<Rightarrow> bool" where
  "refs_task i w w' \<longleftrightarrow>
     rt_tasks w' = (rt_tasks w)[i := rt_tasks w' ! i]
     \<and> (\<forall>r\<in>task_refs (rt_tasks w' ! i). r \<in> task_refs (rt_tasks w ! i) \<or> in_range (holdings w') r)"

lemma task_poll_refs:
  assumes i: "i < length (rt_tasks w)" and "task_poll iroh event i w = Some w'"
  shows "refs_task i w w'"
proof -
  obtain f r w1 where f: "tk_spawned (rt_tasks w ! i) = Sp_running f" "poll iroh event f w = Some (r, w1)"
      and w': "w' = set_task i (tk_spawned_update
                 (\<lambda>_. case r of Inl f' \<Rightarrow> Sp_running f' | Inr j \<Rightarrow> Sp_finished j)) w1"
    using assms(2) by (auto simp: task_poll_def split: spawned.splits option.splits sum.splits)
  have tasks: "rt_tasks w1 = rt_tasks w"
    using rt_frame_poll [OF f(2)] by (rule tasks_of_part)
  show ?thesis
  proof (cases r)
    case (Inl f')
    then show ?thesis
      using poll_refs_wait [of iroh event f w f' w1] f i
      by (auto simp: refs_task_def w' set_task_def tasks task_refs_def spawned_refs_def)
  next
    case (Inr j)
    then show ?thesis
      using poll_refs_join [of iroh event f w j w1] f i
      by (auto simp: refs_task_def w' set_task_def tasks task_refs_def spawned_refs_def)
  qed
qed

lemma operation_result_refs:
  "result_refs (smoke_result kind) = {}"
  "result_refs (endpoint_operation_result name result) \<subseteq> phase_refs (Selected result)"
  by (auto simp: result_refs_def smoke_result_def endpoint_operation_result_def phase_refs_def joined_refs_def
      split: option.splits joined.splits)

lemma phase_refs_sending:
  "phase_refs (Sending m) = result_refs m" "phase_refs (Finishing result) = phase_refs (Selected result)"
  by (simp_all add: phase_refs_def)

lemma task_step_refs:
  assumes "task_step w w'"
  shows "\<exists>i<length (rt_tasks w). refs_task i w w'"
  using assms
proof (induction rule: task_step.induct)
  case (poll i w iroh event w')
  then show ?case using task_poll_refs by blast
next
  case (panic i w w')
  then have "refs_task i w w'"
    by (auto simp: refs_task_def task_panic_def set_task_def task_refs_def spawned_refs_def split: spawned.splits future.splits)
  then show ?case using panic by blast
next
  case (select i w w')
  then have "refs_task i w w'"
    by (auto simp: refs_task_def select_result_def set_task_def task_refs_def spawned_refs_def phase_refs_def
          split: spawned.splits phase.splits)
  then show ?case using select by blast
next
  case (cancel i w iroh w')
  then have "refs_task i w w'"
    by (auto simp: refs_task_def task_cancel_def select_cancelled_def set_task_def task_refs_def spawned_refs_def phase_refs_def
          split: if_splits)
  then show ?case using cancel by blast
next
  case (complete i w w')
  then have "refs_task i w w'"
    by (auto simp: refs_task_def supervisor_complete_def case_prod_beta set_task_def task_refs_def phase_refs_sending
          operation_result_refs(1) split: supervisor.splits phase.splits bool.splits if_splits
          dest: subsetD [OF operation_result_refs(2)])
  then show ?case using complete by blast
next
  case (bind i w w')
  then have "refs_task i w w'"
    by (auto simp: refs_task_def bind_complete_def case_prod_beta set_task_def task_refs_def phase_refs_def
          split: supervisor.splits phase.splits bool.splits if_splits dest: bind_result_refs)
  then show ?case using bind by blast
next
  case (send i w w')
  then have "refs_task i w w'"
    by (auto simp: refs_task_def send_operation_result_def set_task_def task_refs_def phase_refs_def Let_def joined_refs_def
          split: phase.splits if_splits)
  then show ?case using send by blast
next
  case (finish i w iroh w')
  then have "refs_task i w w'"
    by (auto simp: refs_task_def task_finish_def supervisor_finish_def set_task_def task_refs_def phase_refs_def
          split: phase.splits)
  then show ?case using finish by blast
qed

lemma refs_ok_step:
  assumes step: "nif_step api w w'" and ok: "refs_ok w"
  shows "refs_ok w'"
proof -
  have calls: ?thesis if "refs_from w (rt_tasks w')"
    using that ok in_range_nif_step [OF step] unfolding refs_ok_def refs_from_def by blast
  have tasks: ?thesis if i: "i < length (rt_tasks w)" and "refs_task i w w'" for i
  proof -
    have "set (rt_tasks w') \<subseteq> insert (rt_tasks w' ! i) (set (rt_tasks w))"
      using that(2) set_update_subset_insert unfolding refs_task_def by metis
    then show ?thesis
      using that(2) ok in_range_nif_step [OF step] nth_mem [OF i] unfolding refs_ok_def refs_task_def by blast
  qed
  show ?thesis
    using step
    by (cases rule: nif_step.cases)
       (auto dest: endpoint_step_refs connection_step_refs stream_step_refs task_step_refs intro: calls tasks)
qed

lemma refs_ok_reachable: "reachable api w \<Longrightarrow> refs_ok w"
proof (induction rule: reachable.induct)
  case (start alive)
  show ?case by (simp add: refs_ok_def initial_def)
next
  case (step w w')
  then show ?case by (blast intro: refs_ok_step)
qed

lemma reachable_ref:
  assumes "reachable api w" and "i < length (rt_tasks w)" and "r \<in> task_refs (rt_tasks w ! i)"
  shows "in_range (holdings w) r"
  using refs_ok_reachable [OF assms(1)] assms(2,3) by (auto simp: refs_ok_def)

end
