(* ===== verification/Admission.thy ===== *)
theory Admission
  imports Message_Types References "HOL-Library.Sublist"
begin

text \<open>
  Admission of incoming connections, end to end: from the allowlist a process gives to
  \<open>connection_accept_start\<close>, over the handshake, the check and the supervisor, to the connection in
  the message it receives.
\<close>

section \<open>The peers of the connection table\<close>

text \<open>Who is at the other end of each connection, and which side dialled, never changes.\<close>

definition peers :: "('a, 'b, 'z) conn_state_scheme \<Rightarrow> (string \<times> ConnectionRole) list" where
  "peers w = map (\<lambda>c. (cr_remote_id c, cr_role c)) (cn_connections w)"

lemma peers_updates [simp]:
  "peers (rt_tasks_update a w) = peers w" "peers (rt_operations_update b w) = peers w"
  "peers (rt_active_operations_update c w) = peers w" "peers (rt_mailbox_update d w) = peers w"
  "peers (rt_alive_update e w) = peers w" "peers (rt_runtime_update f w) = peers w"
  "peers (ep_identities_update g w) = peers w" "peers (ep_active_endpoints_update c w) = peers w"
  "peers (ep_endpoints_update h w) = peers w" "peers (net_log_update i w) = peers w"
  "peers (cn_active_connections_update c w) = peers w"
  by (simp_all add: peers_def)

lemma peers_stream_updates [simp]:
  "peers (st_streams_update a w) = peers w" "peers (st_active_streams_update c w) = peers w"
  "peers (st_queued_bytes_update c w) = peers w" "peers (st_peak_queued_bytes_update c w) = peers w"
  by (simp_all add: peers_def)

lemma peers_set_connection:
  "cr_remote_id self = cr_remote_id (cn_connections w ! i) \<Longrightarrow> cr_role self = cr_role (cn_connections w ! i)
     \<Longrightarrow> peers (set_connection i self w) = peers w"
  by (simp add: peers_def set_connection_def map_update_same)

lemma peers_endpoint [simp]:
  "peers (log_net es w) = peers w"
  "peers (set_endpoint e self w) = peers w"
  "peers (release_reserved_identity x w) = peers w"
  "peers (snd (reserve_identity x w)) = peers w"
  by (simp_all add: log_net_def set_endpoint_def release_reserved_identity_def reserve_identity_def split: option.splits)

lemma peers_endpoint_release [simp]: "peers (EndpointResource_release_identity i w) = peers w"
  by (simp add: EndpointResource_release_identity_def Let_def)

lemma peers_endpoint_abort [simp]: "peers (snd (EndpointResource_abort i w)) = peers w"
  by (simp add: EndpointResource_abort_def Let_def case_prod_beta split: option.splits)

lemma peers_endpoint_drop [simp]:
  "peers (EndpointResource_drop i w) = peers w"
  "peers (EndpointResource_down i w) = peers w"
  "peers (AcceptPermit_drop i w) = peers w"
  "peers (snd (bind_result_message caller c bound w)) = peers w"
  by (simp_all add: EndpointResource_drop_def EndpointResource_down_def AcceptPermit_drop_def
      bind_result_message_def Let_def split: option.splits joined.splits)

lemma peers_connection [simp]:
  "peers (snd (ConnectionResource_close k w)) = peers w"
  "peers (ConnectionResource_drop k w) = peers w"
  "peers (ConnectionResource_down k w) = peers w"
proof -
  show close: "peers (snd (ConnectionResource_close k w)) = peers w" for w :: "('a, 'b, 'z) conn_state_scheme"
    by (simp add: ConnectionResource_close_def Let_def peers_set_connection)
  show "peers (ConnectionResource_drop k w) = peers w" "peers (ConnectionResource_down k w) = peers w"
    by (simp_all add: ConnectionResource_drop_def ConnectionResource_down_def Let_def peers_set_connection close)
qed

lemma peers_stream [simp]:
  "peers (set_stream s self w) = peers w"
  "peers (on_stream s f w) = peers w"
  "peers (snd (StreamResource_close iroh s w)) = peers w"
  "peers (StreamResource_drop iroh s w) = peers w"
  "peers (StreamResource_down iroh s w) = peers w"
  "peers (SendLease_drop s h w) = peers w"
  "peers (RecvLease_drop s h w) = peers w"
  "peers (snd (wrap_stream iroh send recv c owner name w)) = peers w"
  by (simp_all add: set_stream_def on_stream_def StreamResource_close_def StreamResource_drop_def
      StreamResource_down_def SendLease_drop_def RecvLease_drop_def wrap_stream_def Let_def case_prod_beta
      split: option.splits)

lemma peers_io [simp]:
  "peers (QueueGuard_new n w) = peers w"
  "peers (QueueGuard_drop n w) = peers w"
  "peers (DatagramPermit_drop c b w) = peers w"
  "peers (drop_send s h data w) = peers w"
  "peers (drop_datagram_send c data w) = peers w"
  by (simp_all add: QueueGuard_new_def QueueGuard_drop_def DatagramPermit_drop_def drop_send_def
      drop_datagram_send_def ConnectionResource_finish_datagram_send_def
      ConnectionResource_finish_datagram_recv_def Let_def peers_set_connection)

lemma peers_drop [simp]:
  "peers (drop_future f w) = peers w"
  "peers (drop_joined iroh j w) = peers w"
  "peers (drop_spawned iroh sp w) = peers w"
  by (simp_all add: drop_future_def drop_joined_def drop_value_def drop_spawned_def
      split: future.splits option.splits joined.splits sum.splits res_val.splits spawned.splits)

lemma peers_moves [simp]:
  "peers (snd (start_endpoint_operation builds caller r name f w)) = peers w"
  "peers (snd (spawn_operation caller r sv f w)) = peers w"
  "peers (snd (operation_cancel i w)) = peers w"
  "peers (set_task i g w) = peers w"
  "peers (snd (should_complete i w)) = peers w"
  "peers (snd (runtime builds w)) = peers w"
  by (simp_all add: start_endpoint_operation_def spawn_operation_def operation_cancel_def set_task_def
      should_complete_def runtime_def Let_def case_prod_beta)

lemma peers_wrap_connection:
  "peers (snd (wrap_connection iroh h e owner role name w)) = peers w
     \<and> (\<exists>x. fst (wrap_connection iroh h e owner role name w) = Inl x)
   \<or> peers (snd (wrap_connection iroh h e owner role name w)) = peers w @ [(api_remote_id iroh h, role)]
     \<and> fst (wrap_connection iroh h e owner role name w) \<in> insert (Inr (length (peers w))) (range Inl)"
  by (auto simp: wrap_connection_def Let_def case_prod_beta peers_def[of "cn_connections_update _ _"] ConnectionResource_new_def
      split: bool.splits) (auto simp: peers_def set_endpoint_def)

section \<open>Calls\<close>

text \<open>A NIF call, a monitor callback or a collection may start a task and does not touch the others.\<close>

definition call_effect :: "('a, 'b) nif_state \<Rightarrow> ('a, 'b) nif_state \<Rightarrow> bool" where
  "call_effect w w' \<longleftrightarrow>
     prefix (rt_tasks w) (rt_tasks w') \<and> rt_mailbox w' = rt_mailbox w \<and> peers w' = peers w"

lemma call_effect_part: "rt_part w' = rt_part w \<Longrightarrow> peers w' = peers w \<Longrightarrow> call_effect w w'"
  using rt_part_eqD [of w' w] by (simp add: call_effect_def)

lemma call_effect_spawn:
  assumes "rt_tasks w1 = rt_tasks w" and "rt_mailbox w1 = rt_mailbox w" and "peers w1 = peers w"
  shows "call_effect w (snd (spawn_operation caller r sv f w1))"
  using assms by (auto simp: call_effect_def spawn_operation_def peers_def)

lemma mailbox_runtime [simp]: "rt_mailbox (snd (runtime builds w)) = rt_mailbox w"
  by (simp add: runtime_def Let_def)

lemma call_effect_start:
  assumes "rt_part w1 = rt_part w" and "peers w1 = peers w"
  shows "call_effect w (snd (start_endpoint_operation builds caller r name f w1))"
proof -
  have "rt_tasks (snd (runtime builds w1)) = rt_tasks w" "rt_mailbox (snd (runtime builds w1)) = rt_mailbox w"
      "peers (snd (runtime builds w1)) = peers w"
    using rt_part_eqD [OF assms(1)] assms(2) by simp_all
  then show ?thesis
    using call_effect_spawn [of "snd (runtime builds w1)" w]
    by (auto simp: start_endpoint_operation_def case_prod_beta Let_def call_effect_def split: sum.splits)
qed

lemma call_effect_drops [simp]:
  "call_effect w (AcceptPermit_drop e v) = call_effect w v"
  "call_effect w (drop_send s h data v) = call_effect w v"
  "call_effect w (RecvLease_drop s h v) = call_effect w v"
  "call_effect w (drop_datagram_send c data v) = call_effect w v"
  "call_effect w (DatagramPermit_drop c b v) = call_effect w v"
  by (simp_all add: call_effect_def rt_part_eqD [OF rt_frame_endpoint(9)] rt_part_eqD [OF rt_frame_io(3)]
      rt_part_eqD [OF rt_frame_stream(7)] rt_part_eqD [OF rt_frame_io(5)] rt_part_eqD [OF rt_frame_io(4)])

lemma endpoint_step_call:
  assumes "endpoint_step w w'"
  shows "call_effect w w'"
  using assms
proof (induction rule: endpoint_step.induct)
  case (operation_start w builds caller r kind delay)
  show ?case
    by (auto simp: operation_start_def case_prod_beta Let_def call_effect_spawn
        call_effect_def[of w "snd (runtime builds w)"] split: sum.splits)
next
  case (endpoint_bind_start w builds api bind_addr_ok public_id caller r key options)
  let ?w = "snd (runtime builds w)"
  have parts: "rt_tasks (snd (reserve_identity x ?w)) = rt_tasks w"
      "rt_mailbox (snd (reserve_identity x ?w)) = rt_mailbox w"
      "rt_mailbox (release_reserved_identity x (snd (reserve_identity x ?w))) = rt_mailbox w" for x
    using rt_part_eqD [OF rt_frame_endpoint(4), of x ?w] rt_part_eqD [OF rt_frame_endpoint(3), of x "snd (reserve_identity x ?w)"]
    by simp_all
  show ?case
    by (auto simp: endpoint_bind_start_def case_prod_beta Let_def parts call_effect_def[of w "release_reserved_identity _ _"]
        call_effect_def[of w "snd (reserve_identity _ _)"] call_effect_def[of w "snd (runtime builds w)"]
        intro!: call_effect_spawn split: sum.splits)
next
  case (process_exit w p)
  show ?case by (simp add: call_effect_def)
next
  case (operation_cancel ix w)
  show ?case by (simp add: call_effect_def operation_cancel_def case_prod_beta)
next
  case (operation_down ix w)
  show ?case by (simp add: call_effect_def operation_cancel_def case_prod_beta)
qed (auto simp: endpoint_close_start_def endpoint_await_online_start_def endpoint_abort_def Let_def
       intro: call_effect_start call_effect_part)

lemma connection_step_call:
  assumes "connection_step api w w'"
  shows "call_effect w w'"
  using assms
proof (induction rule: connection_step.induct)
  case (connection_connect_start ix w builds caller owner r target alpn)
  show ?case
    by (auto simp: connection_connect_start_def intro: call_effect_start call_effect_part split: sum.splits option.splits)
next
  case (connection_accept_start ix w builds caller owner r allow_all allowed)
  show ?case
    by (auto simp: connection_accept_start_def case_prod_beta Let_def
        intro: call_effect_start call_effect_part split: sum.splits option.splits bool.splits)
qed (auto simp: connection_close_def connection_closed_start_def intro: call_effect_start call_effect_part)

lemma stream_step_call:
  assumes "stream_step w w'"
  shows "call_effect w w'"
  using assms
  by (induction rule: stream_step.induct)
     (auto simp: stream_start_def stream_send_start_def stream_send_iodata_start_def start_stream_send_def
       stream_recv_start_def stream_finish_def stream_reset_def stream_stop_def stream_abort_def
       datagram_send_start_def datagram_recv_start_def case_prod_beta Let_def peers_set_connection
       ConnectionResource_begin_datagram_send_def ConnectionResource_begin_datagram_recv_def
       intro: call_effect_start call_effect_part split: sum.splits bool.splits option.splits)

section \<open>One accept\<close>

text \<open>
  What an accept under the allowlist \<open>allowed\<close> may report, given the peers of the table: an error,
  or an incoming connection of the table whose peer is allowed.
\<close>

fun admitted :: "bool \<Rightarrow> string set \<Rightarrow> (string \<times> ConnectionRole) list \<Rightarrow> res_val nif_result \<Rightarrow> bool" where
  "admitted allow_all allowed ps (Inr (R_connection c)) =
     (c < length ps \<and> snd (ps ! c) = Incoming \<and> (allow_all \<or> fst (ps ! c) \<in> allowed))"
| "admitted allow_all allowed ps _ = True"

fun admitted_output :: "bool \<Rightarrow> string set \<Rightarrow> (string \<times> ConnectionRole) list \<Rightarrow> joined \<Rightarrow> bool" where
  "admitted_output allow_all allowed ps (Join_result r) = admitted allow_all allowed ps r"
| "admitted_output allow_all allowed ps _ = True"

fun accept_block :: "bool \<Rightarrow> string set \<Rightarrow> ('a, 'b) future \<Rightarrow> bool" where
  "accept_block allow_all allowed (Fut_accept _ _ b ids _) = (b = allow_all \<and> ids = allowed)"
| "accept_block allow_all allowed (Fut_accepting _ _ b ids _) = (b = allow_all \<and> ids = allowed)"
| "accept_block allow_all allowed _ = False"

fun accept_spawned :: "bool \<Rightarrow> string set \<Rightarrow> (string \<times> ConnectionRole) list \<Rightarrow> ('a, 'b) spawned \<Rightarrow> bool" where
  "accept_spawned allow_all allowed ps (Sp_running f) = accept_block allow_all allowed f"
| "accept_spawned allow_all allowed ps (Sp_finished j) = admitted_output allow_all allowed ps j"
| "accept_spawned allow_all allowed ps Sp_joined = True"

fun accept_phase :: "bool \<Rightarrow> string set \<Rightarrow> (string \<times> ConnectionRole) list \<Rightarrow> phase \<Rightarrow> bool" where
  "accept_phase allow_all allowed ps (Selected result) = pred_option (admitted_output allow_all allowed ps) result"
| "accept_phase allow_all allowed ps (Sending m) = admitted allow_all allowed ps m"
| "accept_phase allow_all allowed ps _ = True"

definition accept_task :: "bool \<Rightarrow> string set \<Rightarrow> (string \<times> ConnectionRole) list \<Rightarrow> ('a, 'b) task \<Rightarrow> bool" where
  "accept_task allow_all allowed ps t \<longleftrightarrow>
     tk_supervisor t = Sup_endpoint At_connection_accept
     \<and> accept_spawned allow_all allowed ps (tk_spawned t) \<and> accept_phase allow_all allowed ps (tk_phase t)"

lemma admitted_mono: "prefix ps ps' \<Longrightarrow> admitted a A ps r \<Longrightarrow> admitted a A ps' r"
  by (cases "(a, A, ps, r)" rule: admitted.cases) (auto simp: prefix_def nth_append)

lemma admitted_output_mono: "prefix ps ps' \<Longrightarrow> admitted_output a A ps j \<Longrightarrow> admitted_output a A ps' j"
  by (cases j) (auto intro: admitted_mono)

lemma accept_task_mono:
  assumes "prefix ps ps'" and "accept_task a A ps t"
  shows "accept_task a A ps' t"
proof -
  have "accept_spawned a A ps sp \<Longrightarrow> accept_spawned a A ps' sp" for sp :: "('a, 'b) spawned"
    using admitted_output_mono [OF assms(1)] by (cases sp) auto
  moreover have "accept_phase a A ps p \<Longrightarrow> accept_phase a A ps' p" for p
    using admitted_output_mono [OF assms(1)] admitted_mono [OF assms(1)]
    by (cases p) (auto simp: option.pred_set)
  ultimately show ?thesis using assms(2) by (simp add: accept_task_def)
qed

lemma poll_peers:
  assumes "poll iroh event f w = Some (r, w')"
  shows "prefix (peers w) (peers w')"
proof -
  have wrap: "prefix (peers w) (peers (snd (wrap_connection iroh h e owner role name w)))" for h e owner role name
    using peers_wrap_connection [of iroh h e owner role name w] by auto
  show ?thesis
    using assms wrap
    by (auto simp: poll_def poll_close_def poll_closing_def poll_online_def poll_connect_def poll_accept_def
        poll_accepting_def poll_closed_def poll_stream_def poll_send_def poll_send_all_def poll_send_once_def
        poll_send_reset_def poll_recv_def poll_datagram_send_def poll_datagram_recv_def finish_block_def
        case_prod_beta Let_def
        split: future.splits lib_event.splits option.splits if_splits bool.splits)
qed

text \<open>The check of \<open>connection_accept_start\<close> after the handshake.\<close>

lemma poll_accept_block:
  assumes "poll iroh event f w = Some (r, w')" and "accept_block a A f"
  shows "case r of Inl f' \<Rightarrow> accept_block a A f' | Inr j \<Rightarrow> admitted_output a A (peers w') j"
proof -
  have wrap: "admitted a A (peers (snd (wrap_connection iroh h e owner Incoming name w)))
      (map_result R_connection (fst (wrap_connection iroh h e owner Incoming name w)))"
    if "a \<or> api_remote_id iroh h \<in> A" for h e owner name
    using peers_wrap_connection [of iroh h e owner Incoming name w] that by (auto simp: nth_append)
  show ?thesis
    using assms wrap
    by (cases "(a, A, f)" rule: accept_block.cases)
       (auto simp: poll_def poll_accept_def poll_accepting_def finish_block_def case_prod_beta Let_def
          split: lib_event.splits option.splits if_splits bool.splits)
qed

section \<open>Moves of tasks\<close>

definition task_effect :: "bool \<Rightarrow> string set \<Rightarrow> op_ix \<Rightarrow> ('a, 'b) nif_state \<Rightarrow> ('a, 'b) nif_state \<Rightarrow> bool" where
  "task_effect a A i w w' \<longleftrightarrow>
     prefix (peers w) (peers w')
     \<and> rt_tasks w' = (rt_tasks w)[i := rt_tasks w' ! i]
     \<and> (accept_task a A (peers w) (rt_tasks w ! i) \<longrightarrow> accept_task a A (peers w') (rt_tasks w' ! i))
     \<and> (rt_mailbox w' = rt_mailbox w
        \<or> (\<exists>m. rt_mailbox w' = rt_mailbox w @ [(tk_caller (rt_tasks w ! i), tk_ref (rt_tasks w ! i), m)]
              \<and> (accept_task a A (peers w) (rt_tasks w ! i) \<longrightarrow> admitted a A (peers w') m)))"

lemma task_effectI:
  assumes "i < length (rt_tasks w)" and "rt_tasks w' = (rt_tasks w)[i := t]" and "rt_mailbox w' = rt_mailbox w"
    and "prefix (peers w) (peers w')"
    and "accept_task a A (peers w) (rt_tasks w ! i) \<Longrightarrow> accept_task a A (peers w') t"
  shows "task_effect a A i w w'"
  using assms by (simp add: task_effect_def)

lemma mailbox_frames [simp]:
  "rt_mailbox (set_task i g w) = rt_mailbox w"
  "rt_mailbox (snd (should_complete i w)) = rt_mailbox w"
  "rt_mailbox (drop_future f w) = rt_mailbox w"
  "rt_mailbox (drop_joined iroh j w) = rt_mailbox w"
  "rt_mailbox (drop_spawned iroh sp w) = rt_mailbox w"
  "rt_mailbox (release_reserved_identity x w) = rt_mailbox w"
  "rt_mailbox (snd (bind_result_message caller c bound w)) = rt_mailbox w"
  by (simp_all add: set_task_def should_complete_def case_prod_beta rt_part_eqD [OF rt_frame_drop(1)]
      rt_part_eqD [OF rt_frame_endpoint(3)] rt_part_eqD [OF rt_frame_bind])
     (metis rt_part_eqD rt_frame_drop)+

lemma tasks_set_task [simp]: "rt_tasks (set_task i g w) = (rt_tasks w)[i := g (rt_tasks w ! i)]"
  by (simp add: set_task_def)

lemma accept_result:
  "accept_phase a A ps (Selected result) \<Longrightarrow> admitted a A ps (endpoint_operation_result name result)"
  by (auto simp: endpoint_operation_result_def split: option.splits joined.splits)

lemma task_step_effect:
  assumes "task_step w w'"
  shows "\<exists>i<length (rt_tasks w). task_effect a A i w w'"
  using assms
proof (induction rule: task_step.induct)
  case (poll i w iroh event w')
  then obtain f r w1 where f: "tk_spawned (rt_tasks w ! i) = Sp_running f" "poll iroh event f w = Some (r, w1)"
      and w': "w' = set_task i (tk_spawned_update
                 (\<lambda>_. case r of Inl f' \<Rightarrow> Sp_running f' | Inr j \<Rightarrow> Sp_finished j)) w1"
    by (auto simp: task_poll_def split: spawned.splits option.splits sum.splits)
  note same = rt_part_eqD [OF rt_frame_poll [OF f(2)]] and grow = poll_peers [OF f(2)]
  have "accept_task a A (peers w') ((rt_tasks w ! i)\<lparr>tk_spawned := case r of Inl f' \<Rightarrow> Sp_running f' | Inr j \<Rightarrow> Sp_finished j\<rparr>)"
    if "accept_task a A (peers w) (rt_tasks w ! i)"
    using accept_task_mono [OF grow that] poll_accept_block [OF f(2), of a A] f(1)
    by (auto simp: accept_task_def w' split: sum.splits)
  then have "task_effect a A i w w'"
    using poll.hyps(1) same grow by (intro task_effectI) (auto simp: w')
  then show ?case using poll.hyps(1) by blast
next
  case (panic i w w')
  then have "task_effect a A i w w'"
    by (intro task_effectI [where t = "(rt_tasks w ! i)\<lparr>tk_spawned := Sp_finished Join_panicked\<rparr>"])
       (auto simp: task_panic_def accept_task_def split: spawned.splits future.splits)
  then show ?case using panic by blast
next
  case (select i w w')
  then have "task_effect a A i w w'"
    by (auto simp: task_effect_def select_result_def accept_task_def split: spawned.splits phase.splits)
  then show ?case using select by blast
next
  case (cancel i w iroh w')
  then have "task_effect a A i w w'"
    by (auto simp: task_effect_def task_cancel_def select_cancelled_def accept_task_def split: if_splits)
  then show ?case using cancel by blast
next
  case (complete i w w')
  then have "task_effect a A i w w'"
    using accept_result [of a A "peers w"]
    by (auto simp: task_effect_def supervisor_complete_def case_prod_beta accept_task_def
        split: supervisor.splits phase.splits bool.splits if_splits)
  then show ?case using complete by blast
next
  case (bind i w w')
  then have "task_effect a A i w w'"
    by (auto simp: task_effect_def bind_complete_def case_prod_beta accept_task_def
        split: supervisor.splits phase.splits bool.splits if_splits)
  then show ?case using bind by blast
next
  case (send i w w')
  then have "task_effect a A i w w'"
    by (auto simp: task_effect_def send_operation_result_def Let_def accept_task_def split: phase.splits if_splits)
  then show ?case using send by blast
next
  case (finish i w iroh w')
  then have "task_effect a A i w w'"
    by (auto simp: task_effect_def task_finish_def supervisor_finish_def accept_task_def split: phase.splits)
  then show ?case using finish by blast
qed

section \<open>The run of an accept\<close>

text \<open>
  The task \<open>op\<close> is an accept under the allowlist, and whatever its caller has been sent under its
  reference is admitted, unless another operation shares the reference.
\<close>

definition shared_ref :: "op_ix \<Rightarrow> ('a, 'b) task list \<Rightarrow> bool" where
  "shared_ref op ts \<longleftrightarrow>
     (\<exists>i<length ts. i \<noteq> op \<and> tk_caller (ts ! i) = tk_caller (ts ! op) \<and> tk_ref (ts ! i) = tk_ref (ts ! op))"

definition accept_run :: "bool \<Rightarrow> string set \<Rightarrow> op_ix \<Rightarrow> ('a, 'b) nif_state \<Rightarrow> bool" where
  "accept_run a A op w \<longleftrightarrow>
     op < length (rt_tasks w) \<and> accept_task a A (peers w) (rt_tasks w ! op)
     \<and> (\<forall>m. (tk_caller (rt_tasks w ! op), tk_ref (rt_tasks w ! op), m) \<in> set (rt_mailbox w)
          \<longrightarrow> admitted a A (peers w) m \<or> shared_ref op (rt_tasks w))"

lemma nif_step_task_stable:
  assumes "nif_step api w w'" and "i < length (rt_tasks w)"
  shows "tk_caller (rt_tasks w' ! i) = tk_caller (rt_tasks w ! i) \<and> tk_ref (rt_tasks w' ! i) = tk_ref (rt_tasks w ! i)
    \<and> i < length (rt_tasks w')"
  using op_steps_task_stable [OF nif_step_refines [OF assms(1)], of i] assms(2) by simp

lemma shared_ref_step:
  assumes "nif_step api w w'" and "op < length (rt_tasks w)" and "shared_ref op (rt_tasks w)"
  shows "shared_ref op (rt_tasks w')"
  using assms(3) nif_step_task_stable [OF assms(1)] assms(2) unfolding shared_ref_def by metis

lemma accept_run_call:
  assumes "nif_step api w w'" and "accept_run a A op w" and "call_effect w w'"
  shows "accept_run a A op w'"
proof -
  have op: "op < length (rt_tasks w)" using assms(2) by (simp add: accept_run_def)
  with assms(3) have "rt_tasks w' ! op = rt_tasks w ! op" "op < length (rt_tasks w')"
    by (auto simp: call_effect_def prefix_def nth_append)
  then show ?thesis
    using assms(2,3) shared_ref_step [OF assms(1) op] by (auto simp: accept_run_def call_effect_def)
qed

lemma accept_run_task:
  assumes step: "nif_step api w w'" and run: "accept_run a A op w"
    and i: "i < length (rt_tasks w)" and effect: "task_effect a A i w w'"
  shows "accept_run a A op w'"
proof -
  have op: "op < length (rt_tasks w)" "accept_task a A (peers w) (rt_tasks w ! op)" using run by (simp_all add: accept_run_def)
  note stable = nif_step_task_stable [OF step]
  have grow: "prefix (peers w) (peers w')" using effect by (simp add: task_effect_def)
  have "rt_tasks w' ! op = rt_tasks w ! op" if "i \<noteq> op"
    using effect op(1) that unfolding task_effect_def by (metis nth_list_update_neq)
  then have "accept_task a A (peers w') (rt_tasks w' ! op)"
    using effect op(2) accept_task_mono [OF grow op(2)] by (cases "i = op") (auto simp: task_effect_def)
  moreover have "admitted a A (peers w') m \<or> shared_ref op (rt_tasks w')"
    if m: "(tk_caller (rt_tasks w' ! op), tk_ref (rt_tasks w' ! op), m) \<in> set (rt_mailbox w')" for m
  proof (cases "(tk_caller (rt_tasks w ! op), tk_ref (rt_tasks w ! op), m) \<in> set (rt_mailbox w)")
    case True
    then show ?thesis
      using run admitted_mono [OF grow] shared_ref_step [OF step op(1)] by (auto simp: accept_run_def)
  next
    case False
    then have sent: "tk_caller (rt_tasks w ! i) = tk_caller (rt_tasks w ! op)"
        "tk_ref (rt_tasks w ! i) = tk_ref (rt_tasks w ! op)"
        "accept_task a A (peers w) (rt_tasks w ! i) \<longrightarrow> admitted a A (peers w') m"
      using effect m stable [OF op(1)] by (auto simp: task_effect_def)
    show ?thesis
    proof (cases "i = op")
      case False
      then have "shared_ref op (rt_tasks w)" using sent i by (auto simp: shared_ref_def)
      then show ?thesis using shared_ref_step [OF step op(1)] by simp
    qed (use sent op(2) in simp)
  qed
  ultimately show ?thesis using stable [OF op(1)] by (simp add: accept_run_def)
qed

lemma accept_run_steps:
  "(nif_step api)\<^sup>*\<^sup>* w w' \<Longrightarrow> accept_run a A op w \<Longrightarrow> accept_run a A op w'"
proof (induction rule: rtranclp_induct)
  case (step w w')
  from step.hyps(2) show ?case
  proof cases
    case task
    then show ?thesis using task_step_effect [of w w' a A] accept_run_task [OF step.hyps(2)] step by blast
  qed (use step accept_run_call [OF step.hyps(2)] in
        \<open>auto dest: endpoint_step_call connection_step_call stream_step_call\<close>)
qed simp

section \<open>Authorization\<close>

text \<open>The identities on an allowlist, as the library prints them.\<close>

definition allowlist :: "('url, 'id, 'addr, 'ticket, 'key, 'y) iroh_identity_api_scheme \<Rightarrow> string list \<Rightarrow> string set" where
  "allowlist api ids = {id_to_string api i | i. \<exists>s\<in>set ids. id_of_str api s = Some i}"

lemma allowlist_collect:
  assumes "collect_results (\<lambda>text. map_result (id_to_string api) (ok_or (id_of_str api text) ())) ids = Inr xs"
  shows "set xs = allowlist api ids"
proof -
  have "list_all2 (\<lambda>s x. \<exists>i. id_of_str api s = Some i \<and> x = id_to_string api i) ids xs"
    using assms unfolding collect_results_Inr_iff
    by (rule list_all2_mono) (auto simp: ok_or_def split: option.splits)
  then show ?thesis by (induction rule: list_all2_induct) (auto simp: allowlist_def)
qed

lemma start_started:
  assumes "start_endpoint_operation builds caller r name f w = (Inr op, w')"
  shows "op = length (rt_operations w)" and "rt_mailbox w' = rt_mailbox w"
    and "rt_tasks w' = rt_tasks w @ [\<lparr>tk_caller = caller, tk_ref = r, tk_supervisor = Sup_endpoint name,
           tk_spawned = Sp_running f, tk_phase = Selecting\<rparr>]"
  using assms
  by (auto simp: start_endpoint_operation_def runtime_def spawn_operation_def Let_def split: if_splits)

lemma accept_started:
  assumes "connection_accept_start builds api caller owner r ep allow_all ids w = (Inr op, w')"
  obtains h where "op = length (rt_operations w)" "rt_mailbox w' = rt_mailbox w"
    "rt_tasks w' = rt_tasks w @ [\<lparr>tk_caller = caller, tk_ref = r, tk_supervisor = Sup_endpoint At_connection_accept,
       tk_spawned = Sp_running (Fut_accept h ep allow_all (allowlist api ids) owner), tk_phase = Selecting\<rparr>]"
proof -
  let ?w = "set_endpoint ep (snd (EndpointResource_begin_accept (ep_endpoints w ! ep))) w"
  obtain xs h where xs: "collect_results (\<lambda>text. map_result (id_to_string api) (ok_or (id_of_str api text) ())) ids = Inr xs"
    and started: "start_endpoint_operation builds caller r At_connection_accept
        (Fut_accept h ep allow_all (set xs) owner) ?w = (Inr op, w')"
    using assms
    by (auto simp: connection_accept_start_def case_prod_beta Let_def prod_eq_iff split: sum.splits bool.splits option.splits)
  have "rt_operations ?w = rt_operations w" "rt_mailbox ?w = rt_mailbox w" "rt_tasks ?w = rt_tasks w"
    by (simp_all add: set_endpoint_def)
  with start_started [OF started] allowlist_collect [OF xs] that show thesis by simp
qed

lemma accept_run_start:
  assumes "reachable api w" and "connection_accept_start builds api caller owner r ep allow_all ids w = (Inr op, w')"
  shows "accept_run allow_all (allowlist api ids) op w'"
    and "tk_caller (rt_tasks w' ! op) = caller" and "tk_ref (rt_tasks w' ! op) = r"
proof -
  from accept_started [OF assms(2)] obtain h where st: "op = length (rt_operations w)" "rt_mailbox w' = rt_mailbox w"
    "rt_tasks w' = rt_tasks w @ [\<lparr>tk_caller = caller, tk_ref = r, tk_supervisor = Sup_endpoint At_connection_accept,
       tk_spawned = Sp_running (Fut_accept h ep allow_all (allowlist api ids) owner), tk_phase = Selecting\<rparr>]" .
  have op: "op = length (rt_tasks w)" using st(1) reachable_lengths [OF assms(1)] by simp
  show who: "tk_caller (rt_tasks w' ! op) = caller" "tk_ref (rt_tasks w' ! op) = r" by (simp_all add: st(3) op)
  have "shared_ref op (rt_tasks w')" if "(caller, r, m) \<in> set (rt_mailbox w')" for m
  proof -
    from typed.sent_message [OF assms(1), of caller r m] that st(2) obtain i where
      "i < length (rt_tasks w)" "tk_caller (rt_tasks w ! i) = caller" "tk_ref (rt_tasks w ! i) = r"
      by (auto simp: in_set_conv_nth)
    then show ?thesis unfolding shared_ref_def by (intro exI [of _ i]) (simp add: st(3) op nth_append)
  qed
  then show "accept_run allow_all (allowlist api ids) op w'"
    unfolding accept_run_def who by (simp add: st(3) op accept_task_def)
qed

text \<open>
  C3. Accepts admit only who is allowed: when a process has started an accept with an allowlist
  and, after whatever else the library has done, has been sent a connection under the accept's
  reference (which it uses for no other operation), then that connection is an incoming one whose
  authenticated peer is on the list it gave, unless it allowed everyone.
\<close>

theorem accept_authorized:
  assumes "reachable api w"
    and "connection_accept_start builds api caller owner r ep allow_all ids w = (Inr op, w1)"
    and "(nif_step api)\<^sup>*\<^sup>* w1 w2"
    and "(caller, r, Inr (R_connection c)) \<in> set (rt_mailbox w2)"
    and "\<And>i. i < length (rt_tasks w2) \<Longrightarrow> tk_caller (rt_tasks w2 ! i) = caller \<Longrightarrow> tk_ref (rt_tasks w2 ! i) = r \<Longrightarrow> i = op"
  shows "c < length (cn_connections w2) \<and> cr_role (cn_connections w2 ! c) = Incoming
    \<and> (allow_all \<or> (\<exists>s\<in>set ids. \<exists>i. id_of_str api s = Some i \<and> cr_remote_id (cn_connections w2 ! c) = id_to_string api i))"
proof -
  note start = accept_run_start [OF assms(1,2)]
  have op: "op < length (rt_tasks w1)" using start(1) by (simp add: accept_run_def)
  have run: "accept_run allow_all (allowlist api ids) op w2" by (rule accept_run_steps [OF assms(3) start(1)])
  have "tk_caller (rt_tasks w2 ! op) = caller" "tk_ref (rt_tasks w2 ! op) = r"
    using op_steps_task_stable [OF nif_steps_refine [OF assms(3)], of op] op start(2,3) by simp_all
  moreover from this have "\<not> shared_ref op (rt_tasks w2)" using assms(5) by (auto simp: shared_ref_def)
  ultimately have "admitted allow_all (allowlist api ids) (peers w2) (Inr (R_connection c))"
    using run assms(4) by (auto simp: accept_run_def)
  then have "c < length (cn_connections w2)" "cr_role (cn_connections w2 ! c) = Incoming"
      "allow_all \<or> cr_remote_id (cn_connections w2 ! c) \<in> allowlist api ids"
    by (auto simp: peers_def)
  then show ?thesis unfolding allowlist_def by blast
qed

section \<open>A worked accept\<close>

text \<open>Process 1 accepts one peer only; that peer connects, and the process is told.\<close>

definition demo_peer :: string where
  "demo_peer = replicate 32 CHR ''a''"

definition peer_iroh :: iroh_api where
  "peer_iroh = demo_iroh\<lparr>api_remote_id := \<lambda>_. demo_peer\<rparr>"

definition gate_started :: demo_state where
  "gate_started = snd (connection_accept_start True demo_api 1 1 2 0 False [demo_peer] demo_bound)"

definition gate_connected :: demo_state where
  "gate_connected = the (select_result 1 (the (task_poll peer_iroh (E_handshake (Some 20)) 1
     (the (task_poll peer_iroh (E_incoming (Some True)) 1 gate_started)))))"

definition gate_sent :: demo_state where
  "gate_sent = the (send_operation_result 1 (the (supervisor_complete 1 gate_connected)))"

lemma gate_allowlist: "map_result (id_to_string demo_api) (ok_or (id_of_str demo_api demo_peer) ()) = Inr demo_peer"
  by code_simp

lemma gate_started_eq:
  "connection_accept_start True demo_api 1 1 2 0 False [demo_peer] demo_bound = (Inr 1, gate_started)
   \<and> gate_started = demo_bound\<lparr>rt_operations := rt_operations demo_bound @ [OperationResource_new],
       rt_tasks := [demo_bind_task, demo_endpoint_task 2 At_connection_accept (Sp_running (Fut_accept 10 0 False {demo_peer} 1))],
       rt_active_operations := 2,
       ep_endpoints := [(EndpointResource_new demo_capture 10 1)\<lparr>er_pending_accepts := 1\<rparr>]\<rparr>"
  by (simp add: gate_started_def connection_accept_start_def gate_allowlist demo_bound_eq initial_def demo_capture_def
      EndpointResource_begin_accept_def EndpointResource_new_def fetch_update_def set_endpoint_def
      EndpointResource_endpoint_def start_endpoint_operation_def runtime_def spawn_operation_def demo_endpoint_task_def
      Let_def)

lemmas gate_defs =
  gate_connected_def gate_sent_def gate_started_eq [THEN conjunct2] demo_bound_eq demo_moves demo_endpoint_task_def
  poll_accept_def poll_accepting_def wrap_connection_def EndpointResource_claim_connection_def fetch_update_def
  set_endpoint_def AcceptPermit_drop_def EndpointResource_finish_accept_def checked_sub_def finish_block_def
  EndpointResource_new_def demo_capture_def ConnectionResource_new_def peer_iroh_def supervisor_complete_def
  endpoint_operation_result_def send_operation_result_def Let_def demo_bind_task_def

lemma gate_steps: "(nif_step demo_api)\<^sup>*\<^sup>* gate_started gate_sent"
proof -
  have step: "(nif_step demo_api)\<^sup>*\<^sup>* gate_started w'" if "(nif_step demo_api)\<^sup>*\<^sup>* gate_started w" "task_step w w'" for w w'
    using that by (blast intro: rtranclp.rtrancl_into_rtrancl nif_step.task)
  obtain w1 where w1: "task_poll peer_iroh (E_incoming (Some True)) 1 gate_started = Some w1" by (simp add: gate_defs)
  obtain w2 where w2: "task_poll peer_iroh (E_handshake (Some 20)) 1 w1 = Some w2" using w1 by (auto simp: gate_defs)
  obtain w4 where w4: "supervisor_complete 1 gate_connected = Some w4" by (simp add: gate_defs)
  have "task_step gate_started w1" by (rule task_step.poll [OF _ w1]) (simp add: gate_defs)
  moreover have "task_step w1 w2" by (rule task_step.poll [OF _ w2]) (use w1 in \<open>auto simp: gate_defs\<close>)
  moreover have "task_step w2 gate_connected"
    by (rule task_step.select [of 1]) (use w1 w2 in \<open>auto simp: gate_defs\<close>)
  moreover have "task_step gate_connected w4" by (rule task_step.complete [OF _ w4]) (simp add: gate_defs)
  moreover have "task_step w4 gate_sent" by (rule task_step.send [of 1]) (use w4 in \<open>auto simp: gate_defs\<close>)
  ultimately show ?thesis by (meson step rtranclp.rtrancl_refl)
qed

theorem accept_authorized_witness:
  "(1, 2, Inr (R_connection 0)) \<in> set (rt_mailbox gate_sent)
    \<and> cr_role (cn_connections gate_sent ! 0) = Incoming
    \<and> (\<exists>i. id_of_str demo_api demo_peer = Some i \<and> cr_remote_id (cn_connections gate_sent ! 0) = id_to_string demo_api i)"
proof -
  have m: "(1, 2, Inr (R_connection 0)) \<in> set (rt_mailbox gate_sent)" by (simp add: gate_defs)
  have unique: "i = 1" if "i < length (rt_tasks gate_sent)" "tk_caller (rt_tasks gate_sent ! i) = 1"
    "tk_ref (rt_tasks gate_sent ! i) = 2" for i
  proof -
    have "length (rt_tasks gate_sent) = 2" "tk_ref (rt_tasks gate_sent ! 0) = 1" by (simp_all add: gate_defs)
    then show ?thesis using that by (cases i) auto
  qed
  have "cr_role (cn_connections gate_sent ! 0) = Incoming
    \<and> (False \<or> (\<exists>s\<in>set [demo_peer]. \<exists>i. id_of_str demo_api s = Some i
          \<and> cr_remote_id (cn_connections gate_sent ! 0) = id_to_string demo_api i))"
    using accept_authorized [OF demo_bound_reachable gate_started_eq [THEN conjunct1] gate_steps m unique] by blast
  then show ?thesis using m by simp
qed

end
