(* ===== verification/Census.thy ===== *)
theory Census
  imports References
begin

text \<open>
  The census of connections and streams: the global counters of live connections and streams
  and the per-endpoint connection counters, against the resources that have not been released.
  The library refines a machine that admits, releases, opens and closes.
\<close>

section \<open>The abstraction\<close>

text \<open>
  \<open>ce_claims\<close> pairs each endpoint's connection counter with its limit; \<open>ce_connections\<close> lists
  the endpoint of each connection and whether it has been released, \<open>ce_streams\<close> the streams'
  released flags.
\<close>

record census =
  ce_claims :: "(usize \<times> usize) list"
  ce_connections :: "(endpoint_ix \<times> bool) list"
  ce_active_connections :: usize
  ce_streams :: "bool list"
  ce_active_streams :: usize

definition census :: "('a, 'b, 'z) nif_state_scheme \<Rightarrow> census" where
  "census w =
     \<lparr>ce_claims = map (\<lambda>e. (er_active_connections e, er_max_connections e)) (ep_endpoints w),
      ce_connections = map (\<lambda>c. (cr_endpoint c, cr_released c)) (cn_connections w),
      ce_active_connections = cn_active_connections w,
      ce_streams = map sr_released (st_streams w), ce_active_streams = st_active_streams w\<rparr>"

inductive census_step :: "census \<Rightarrow> census \<Rightarrow> bool" where
  bind: "census_step c (c\<lparr>ce_claims := ce_claims c @ [(0, limit)]\<rparr>)"
| admit:
    "e < length (ce_claims c) \<Longrightarrow> ce_claims c ! e = (n, limit) \<Longrightarrow> n < limit
       \<Longrightarrow> census_step c (c\<lparr>ce_claims := (ce_claims c)[e := (n + 1, limit)],
             ce_connections := ce_connections c @ [(e, False)],
             ce_active_connections := ce_active_connections c + 1\<rparr>)"
| release:
    "k < length (ce_connections c) \<Longrightarrow> ce_connections c ! k = (e, False)
       \<Longrightarrow> census_step c (c\<lparr>ce_claims := (ce_claims c)[e := accept_finished (ce_claims c ! e)],
             ce_connections := (ce_connections c)[k := (e, True)],
             ce_active_connections := ce_active_connections c - 1\<rparr>)"
| opened: "census_step c (c\<lparr>ce_streams := ce_streams c @ [False], ce_active_streams := ce_active_streams c + 1\<rparr>)"
| closed:
    "s < length (ce_streams c) \<Longrightarrow> \<not> ce_streams c ! s
       \<Longrightarrow> census_step c (c\<lparr>ce_streams := (ce_streams c)[s := True],
             ce_active_streams := ce_active_streams c - 1\<rparr>)"

section \<open>The invariant\<close>

definition live_on :: "endpoint_ix \<Rightarrow> endpoint_ix \<times> bool \<Rightarrow> bool" where
  "live_on e = (\<lambda>(e', released). e' = e \<and> \<not> released)"

definition census_ok :: "census \<Rightarrow> bool" where
  "census_ok c \<longleftrightarrow>
     (\<forall>e<length (ce_claims c). uint (fst (ce_claims c ! e)) = total (\<lambda>x. of_bool (live_on e x)) (ce_connections c)
        \<and> fst (ce_claims c ! e) \<le> snd (ce_claims c ! e))
     \<and> (\<forall>x\<in>set (ce_connections c). fst x < length (ce_claims c))
     \<and> ce_active_connections c = total (\<lambda>x. of_bool (\<not> snd x)) (ce_connections c)
     \<and> ce_active_streams c = total (\<lambda>b. of_bool (\<not> b)) (ce_streams c)"

lemma total_zero: "(\<And>x. x \<in> set xs \<Longrightarrow> f x = 0) \<Longrightarrow> total f xs = 0"
  using total_cong [of xs f "\<lambda>_. 0"] by (simp add: total_def)

lemma accept_finished_down:
  assumes "1 \<le> uint (fst x)" and "fst x \<le> snd x"
  shows "uint (fst (accept_finished x)) = uint (fst x) - 1" "fst (accept_finished x) \<le> snd (accept_finished x)"
    "snd (accept_finished x) = snd x"
proof -
  have pos: "1 \<le> fst x" using assms(1) by (metis uint_1 word_less_eq_iff_unsigned)
  have "fst x - 1 \<le> snd x" using pos assms(2) by unat_arith
  then show "uint (fst (accept_finished x)) = uint (fst x) - 1" "fst (accept_finished x) \<le> snd (accept_finished x)"
    "snd (accept_finished x) = snd x"
    using pos by (simp_all add: accept_finished_def checked_sub_def case_prod_beta uint_step_down)
qed

lemma census_ok_step:
  assumes "census_step c c'" and "census_ok c"
  shows "census_ok c'"
  using assms
proof (induction rule: census_step.induct)
  case (bind c limit)
  have "total (\<lambda>x. of_bool (live_on (length (ce_claims c)) x)) (ce_connections c) = (0 :: int)"
    using bind by (intro total_zero) (auto simp: census_ok_def live_on_def)
  then show ?case
    using bind by (auto simp: census_ok_def nth_append less_Suc_eq)
next
  case (admit e c n limit)
  then have "n + 1 \<le> limit" by unat_arith
  then show ?case
    using admit by (auto simp: census_ok_def nth_list_update live_on_def uint_step)
next
  case (release k c e)
  let ?live = "\<lambda>x. of_bool (live_on e x) :: int"
  have e: "e < length (ce_claims c)"
    using release nth_mem [OF release.hyps(1)] by (auto simp: census_ok_def)
  have "1 \<le> total ?live (ce_connections c)"
    using total_ge_nth [of "ce_connections c" ?live k] release.hyps by (simp add: live_on_def)
  then have "1 \<le> uint (fst (ce_claims c ! e))" "fst (ce_claims c ! e) \<le> snd (ce_claims c ! e)"
    using release e by (auto simp: census_ok_def)
  note down = accept_finished_down [OF this]
  have range: "\<forall>x\<in>set ((ce_connections c)[k := (e, True)]). fst x < length (ce_claims c)"
    using release e set_update_subset_insert [of "ce_connections c" k "(e, True)"] by (auto simp: census_ok_def)
  show ?case
    using release e range down
    by (auto simp: census_ok_def nth_list_update total_update live_on_def)
next
  case (opened c)
  then show ?case by (simp add: census_ok_def)
next
  case (closed s c)
  then show ?case by (simp add: census_ok_def total_update)
qed

lemma census_ok_steps: "census_step\<^sup>*\<^sup>* c c' \<Longrightarrow> census_ok c \<Longrightarrow> census_ok c'"
  by (induction rule: rtranclp_induct) (auto intro: census_ok_step)

section \<open>Operations that leave the census alone\<close>

lemma census_updates [simp]:
  "census (rt_tasks_update a w) = census w" "census (rt_operations_update b w) = census w"
  "census (rt_active_operations_update c w) = census w" "census (rt_mailbox_update d w) = census w"
  "census (rt_alive_update e w) = census w" "census (rt_runtime_update f w) = census w"
  "census (ep_identities_update g w) = census w" "census (ep_active_endpoints_update c w) = census w"
  "census (net_log_update i w) = census w" "census (st_queued_bytes_update c w) = census w"
  "census (st_peak_queued_bytes_update c w) = census w"
  by (simp_all add: census_def)

lemma census_set_endpoint:
  "er_active_connections self = er_active_connections (ep_endpoints w ! i)
     \<Longrightarrow> er_max_connections self = er_max_connections (ep_endpoints w ! i)
     \<Longrightarrow> census (set_endpoint i self w) = census w"
  by (simp add: census_def set_endpoint_def map_update_same)

lemma census_set_connection:
  "cr_endpoint self = cr_endpoint (cn_connections w ! i) \<Longrightarrow> cr_released self = cr_released (cn_connections w ! i)
     \<Longrightarrow> census (set_connection i self w) = census w"
  by (simp add: census_def set_connection_def map_update_same)

lemma census_set_stream:
  "sr_released self = sr_released (st_streams w ! i) \<Longrightarrow> census (set_stream i self w) = census w"
  by (simp add: census_def set_stream_def map_update_same)

lemma census_on_stream:
  "(\<And>r. sr_released (snd (f r)) = sr_released r) \<Longrightarrow> census (on_stream i f w) = census w"
  by (simp add: on_stream_def case_prod_beta log_net_def census_set_stream)

lemma endpoint_census_frame [simp]:
  "er_active_connections (snd (EndpointResource_take_endpoint r)) = er_active_connections r"
  "er_max_connections (snd (EndpointResource_take_endpoint r)) = er_max_connections r"
  "er_active_connections (EndpointResource_finish_accept r) = er_active_connections r"
  "er_max_connections (EndpointResource_finish_accept r) = er_max_connections r"
  "er_active_connections (snd (EndpointResource_begin_accept r)) = er_active_connections r"
  "er_max_connections (snd (EndpointResource_begin_accept r)) = er_max_connections r"
  by (simp_all add: EndpointResource_take_endpoint_def EndpointResource_finish_accept_def
      EndpointResource_begin_accept_def Let_def case_prod_beta)

lemma stream_census_frame [simp]:
  "sr_released (snd (StreamResource_request_reset iroh code r)) = sr_released r"
  "sr_released (snd (StreamResource_request_stop iroh code r)) = sr_released r"
  "sr_released (snd (SendLease_release h r)) = sr_released r"
  "sr_released (snd (RecvLease_release h r)) = sr_released r"
  "sr_released (snd (take_send op r)) = sr_released r"
  "sr_released (snd (take_recv op r)) = sr_released r"
  by (simp_all add: StreamResource_request_reset_def StreamResource_request_stop_def SendLease_release_def
      RecvLease_release_def take_send_def take_recv_def Let_def case_prod_beta split: option.splits sum.splits)

lemma connection_census_frame [simp]:
  "cr_endpoint (snd (ConnectionResource_begin_datagram_send r)) = cr_endpoint r"
  "cr_released (snd (ConnectionResource_begin_datagram_send r)) = cr_released r"
  "cr_endpoint (snd (ConnectionResource_begin_datagram_recv r)) = cr_endpoint r"
  "cr_released (snd (ConnectionResource_begin_datagram_recv r)) = cr_released r"
  by (simp_all add: ConnectionResource_begin_datagram_send_def ConnectionResource_begin_datagram_recv_def
      Let_def case_prod_beta)

lemma census_endpoint [simp]:
  "census (log_net es w) = census w"
  "census (release_reserved_identity x w) = census w"
  "census (snd (reserve_identity x w)) = census w"
  by (simp_all add: log_net_def release_reserved_identity_def reserve_identity_def split: option.splits)

lemma census_endpoint_release [simp]: "census (EndpointResource_release_identity i w) = census w"
  by (simp add: EndpointResource_release_identity_def Let_def census_set_endpoint)

lemma census_endpoint_abort [simp]: "census (snd (EndpointResource_abort i w)) = census w"
  by (simp add: EndpointResource_abort_def Let_def case_prod_beta census_set_endpoint split: option.splits)

lemma census_endpoint_drop [simp]:
  "census (EndpointResource_drop i w) = census w"
  "census (EndpointResource_down i w) = census w"
  "census (AcceptPermit_drop i w) = census w"
  by (simp_all add: EndpointResource_drop_def EndpointResource_down_def AcceptPermit_drop_def Let_def
      census_set_endpoint)

lemma census_io [simp]:
  "census (QueueGuard_new n w) = census w"
  "census (QueueGuard_drop n w) = census w"
  "census (SendLease_drop s h w) = census w"
  "census (RecvLease_drop s h w) = census w"
  "census (DatagramPermit_drop c b w) = census w"
  "census (on_stream s (StreamResource_request_reset iroh code) w) = census w"
  "census (on_stream s (StreamResource_request_stop iroh code) w) = census w"
  by (simp_all add: QueueGuard_new_def QueueGuard_drop_def SendLease_drop_def RecvLease_drop_def
      DatagramPermit_drop_def ConnectionResource_finish_datagram_send_def ConnectionResource_finish_datagram_recv_def
      Let_def census_on_stream census_set_connection)

lemma census_drop_future [simp]: "census (drop_future f w) = census w"
  by (simp add: drop_future_def drop_send_def drop_datagram_send_def split: future.splits)

lemma census_moves [simp]:
  "census (snd (start_endpoint_operation builds caller r name f w)) = census w"
  "census (snd (spawn_operation caller r sv f w)) = census w"
  "census (snd (operation_cancel i w)) = census w"
  "census (set_task i g w) = census w"
  "census (snd (should_complete i w)) = census w"
  "census (snd (runtime builds w)) = census w"
  by (simp_all add: start_endpoint_operation_def spawn_operation_def operation_cancel_def set_task_def
      should_complete_def runtime_def Let_def case_prod_beta)

section \<open>Operations that change it\<close>

lemma census_connection_close:
  assumes "k < length (cn_connections w)"
  shows "census_step\<^sup>*\<^sup>* (census w) (census (snd (ConnectionResource_close k w)))"
proof (cases "cr_released (cn_connections w ! k)")
  case True
  then show ?thesis by (simp add: ConnectionResource_close_def)
next
  case False
  let ?e = "cr_endpoint (cn_connections w ! k)"
  have "census (snd (ConnectionResource_close k w)) =
      (census w)\<lparr>ce_claims := (ce_claims (census w))[?e := accept_finished (ce_claims (census w) ! ?e)],
        ce_connections := (ce_connections (census w))[k := (?e, True)],
        ce_active_connections := ce_active_connections (census w) - 1\<rparr>"
    using False assms
    by (cases "?e < length (ep_endpoints w)")
       (auto simp: ConnectionResource_close_def census_def set_connection_def set_endpoint_def log_net_def map_update
          EndpointResource_release_connection_def fetch_update_def accept_finished_def list_update_beyond Let_def
          split: option.splits)
  then show ?thesis
    using census_step.release [of k "census w" ?e] False assms by (auto simp: census_def)
qed

lemma census_connection_drop:
  assumes "k < length (cn_connections w)"
  shows "census_step\<^sup>*\<^sup>* (census w) (census (ConnectionResource_drop k w))"
    and "census_step\<^sup>*\<^sup>* (census w) (census (ConnectionResource_down k w))"
  using census_connection_close [OF assms]
  by (simp_all add: ConnectionResource_drop_def ConnectionResource_down_def Let_def census_set_connection)

lemma connections_close [simp]: "length (cn_connections (snd (ConnectionResource_close k w))) = length (cn_connections w)"
  by (simp add: ConnectionResource_close_def set_connection_def set_endpoint_def log_net_def Let_def)

lemma census_wrap_connection:
  assumes "e < length (ep_endpoints w)"
  shows "census_step\<^sup>*\<^sup>* (census w) (census (snd (wrap_connection iroh h e owner role op w)))"
proof (cases "er_active_connections (ep_endpoints w ! e) < er_max_connections (ep_endpoints w ! e)")
  case False
  then show ?thesis
    by (simp add: wrap_connection_def EndpointResource_claim_connection_def fetch_update_def)
next
  case True
  let ?self = "(ep_endpoints w ! e)\<lparr>er_active_connections := er_active_connections (ep_endpoints w ! e) + 1\<rparr>"
  let ?w1 = "(set_endpoint e ?self w)\<lparr>cn_active_connections := cn_active_connections w + 1,
      cn_connections := cn_connections w @ [ConnectionResource_new iroh h e owner role]\<rparr>"
  let ?ix = "length (cn_connections w)"
  have claim: "EndpointResource_claim_connection (ep_endpoints w ! e) = (True, ?self)"
    using True by (simp add: EndpointResource_claim_connection_def fetch_update_def)
  have admit: "census_step (census w) (census ?w1)"
    using census_step.admit [of e "census w"] assms True
    by (simp add: census_def set_endpoint_def map_update ConnectionResource_new_def)
  have "?ix < length (cn_connections ?w1)" by simp
  note close = census_connection_close [OF this]
  have "census_step\<^sup>*\<^sup>* (census ?w1) (census (ConnectionResource_drop ?ix (snd (ConnectionResource_close ?ix ?w1))))"
    by (rule rtranclp_trans [OF close], rule census_connection_drop(1)) simp
  then show ?thesis
    using admit by (auto simp: wrap_connection_def claim set_endpoint_def Let_def
        intro: converse_rtranclp_into_rtranclp)
qed

lemma census_stream_close:
  assumes "s < length (st_streams w)"
  shows "census_step\<^sup>*\<^sup>* (census w) (census (snd (StreamResource_close iroh s w)))"
proof (cases "sr_released (st_streams w ! s)")
  case True
  then show ?thesis by (simp add: StreamResource_close_def)
next
  case False
  have flag: "census (set_stream s ((st_streams w ! s)\<lparr>sr_released := True\<rparr>) w)
      = (census w)\<lparr>ce_streams := (ce_streams (census w))[s := True]\<rparr>"
    by (simp add: census_def set_stream_def map_update)
  have active: "census (st_active_streams_update f x) = (census x)\<lparr>ce_active_streams := f (st_active_streams x)\<rparr>"
    for f and x :: "('a, 'b, 'c) nif_state_scheme"
    by (simp add: census_def)
  have same: "st_active_streams (on_stream s g x) = st_active_streams x"
      "st_active_streams (set_stream s y x) = st_active_streams x"
    for g y and x :: "('a, 'b, 'c) nif_state_scheme"
    by (simp_all add: on_stream_def set_stream_def log_net_def case_prod_beta)
  show ?thesis
    using False census_step.closed [of s "census w"] assms
    by (auto simp: StreamResource_close_def Let_def active flag same) (simp add: census_def)
qed

lemma census_stream_drop:
  assumes "s < length (st_streams w)"
  shows "census_step\<^sup>*\<^sup>* (census w) (census (StreamResource_drop iroh s w))"
    and "census_step\<^sup>*\<^sup>* (census w) (census (StreamResource_down iroh s w))"
  using census_stream_close [OF assms]
  by (simp_all add: StreamResource_drop_def StreamResource_down_def Let_def census_set_stream)

lemma streams_close [simp]: "length (st_streams (snd (StreamResource_close iroh s w))) = length (st_streams w)"
  by (simp add: StreamResource_close_def on_stream_def set_stream_def log_net_def Let_def case_prod_beta)

lemma streams_on_stream [simp]: "length (st_streams (on_stream s f w)) = length (st_streams w)"
  by (simp add: on_stream_def set_stream_def log_net_def case_prod_beta)

lemma census_wrap_stream:
  "census_step\<^sup>*\<^sup>* (census w) (census (snd (wrap_stream iroh send recv c owner op w)))"
proof -
  let ?w1 = "\<lambda>i. w\<lparr>st_active_streams := st_active_streams w + 1,
      st_streams := st_streams w @ [StreamResource_new send recv c i owner]\<rparr>"
  let ?ix = "length (st_streams w)"
  have opened: "census_step (census w) (census (?w1 i))" for i
    using census_step.opened [of "census w"] by (simp add: census_def StreamResource_new_def)
  have "?ix < length (st_streams (?w1 i))" for i by simp
  note close = census_stream_close [OF this]
  have "census_step\<^sup>*\<^sup>* (census (?w1 i)) (census (StreamResource_drop iroh ?ix (snd (StreamResource_close iroh ?ix (?w1 i)))))"
    for i
    by (rule rtranclp_trans [OF close], rule census_stream_drop(1)) simp
  then show ?thesis
    using opened by (auto simp: wrap_stream_def Let_def split: option.splits intro: converse_rtranclp_into_rtranclp)
qed

lemma census_bind_result:
  "census_step\<^sup>*\<^sup>* (census w) (census (snd (bind_result_message caller c bound w)))"
proof -
  have "census_step (census w) (census (w\<lparr>ep_active_endpoints := n,
      ep_endpoints := ep_endpoints w @ [EndpointResource_new c h caller]\<rparr>))" for h n
    using census_step.bind [of "census w" "bc_max_connections c"] by (simp add: census_def EndpointResource_new_def)
  then show ?thesis
    by (auto simp: bind_result_message_def Let_def split: option.splits joined.splits)
qed

lemma census_drop_joined:
  assumes "\<forall>r\<in>phase_refs (Selected j). in_range (holdings w) r"
  shows "census_step\<^sup>*\<^sup>* (census w) (census (drop_joined iroh j w))"
  using assms census_connection_drop(1) [of _ w] census_stream_drop(1) [of _ w iroh]
  by (auto simp: drop_joined_def drop_value_def in_range_state phase_refs_def
      split: option.splits joined.splits sum.splits res_val.splits)

section \<open>Resumptions\<close>

lemma census_poll_frame:
  assumes "poll iroh event f w = Some (r, w')"
    and "\<forall>v a alpn e owner. f \<noteq> Fut_connect v a alpn e owner"
    and "\<forall>v e b ids owner. f \<noteq> Fut_accepting v e b ids owner"
    and "\<forall>h c. f \<noteq> Fut_closed h c" and "\<forall>kind v c owner. f \<noteq> Fut_stream kind v c owner"
  shows "census w' = census w"
  using assms
  by (auto simp: poll_def poll_close_def poll_closing_def poll_online_def poll_accept_def
      poll_send_def poll_send_all_def poll_send_once_def drop_send_def drop_datagram_send_def
      poll_send_reset_def poll_recv_def poll_datagram_send_def poll_datagram_recv_def case_prod_beta Let_def
      census_set_stream census_set_endpoint
      split: future.splits lib_event.splits option.splits if_splits bool.splits)

lemma census_poll:
  assumes "poll iroh event f w = Some (r, w')" and "\<And>x. x \<in> future_refs f \<Longrightarrow> in_range (holdings w) x"
  shows "census_step\<^sup>*\<^sup>* (census w) (census w')"
proof (cases "\<exists>v a alpn e b ids owner h c kind. f = Fut_connect v a alpn e owner \<or> f = Fut_accepting v e b ids owner
    \<or> f = Fut_closed h c \<or> f = Fut_stream kind v c owner")
  case False
  then have "census w' = census w" by (intro census_poll_frame [OF assms(1)]) blast+
  then show ?thesis by simp
next
  case True
  then show ?thesis
    using assms
    by (auto simp: poll_def poll_connect_def poll_accepting_def poll_closed_def poll_stream_def case_prod_beta
        Let_def in_range_state split: lib_event.splits option.splits if_splits
        intro!: census_wrap_connection census_wrap_stream census_connection_close)
qed

section \<open>The whole library\<close>

lemma census_idle: "census w' = census w \<Longrightarrow> census_step\<^sup>*\<^sup>* (census w) (census w')"
  by simp

lemma endpoint_step_census: "endpoint_step w w' \<Longrightarrow> census w' = census w"
  by (induction rule: endpoint_step.induct)
     (simp_all add: operation_start_def endpoint_bind_start_def endpoint_close_start_def endpoint_await_online_start_def
        endpoint_abort_def case_prod_beta Let_def split: sum.splits)

lemma connection_step_census:
  assumes "connection_step api w w'"
  shows "census_step\<^sup>*\<^sup>* (census w) (census w')"
  using assms
proof (induction rule: connection_step.induct)
  case (connection_connect_start e w builds caller owner r target alpn)
  show ?case by (simp add: connection_connect_start_def split: sum.splits option.splits)
next
  case (connection_accept_start e w builds caller owner r allow_all allowed)
  show ?case
    by (auto simp: connection_accept_start_def case_prod_beta Let_def census_set_endpoint
        split: sum.splits option.splits bool.splits)
qed (auto simp: connection_close_def connection_closed_start_def live_connection_def
       intro: census_connection_close census_connection_drop)

lemma stream_calls_census:
  "census (snd (start_stream_send builds caller r s data send_all chunk w)) = census w"
  "census (snd (stream_recv_start builds caller r s max_bytes w)) = census w"
  "census (snd (datagram_send_start builds iroh caller r c data wait w)) = census w"
  "census (snd (datagram_recv_start builds caller r c w)) = census w"
  "census (snd (stream_finish iroh s w)) = census w"
  by (auto simp: start_stream_send_def stream_recv_start_def datagram_send_start_def datagram_recv_start_def
      stream_finish_def drop_send_def drop_datagram_send_def case_prod_beta Let_def census_set_stream
      census_set_connection split: sum.splits bool.splits option.splits)

lemma stream_step_census:
  assumes "stream_step w w'"
  shows "census_step\<^sup>*\<^sup>* (census w) (census w')"
  using assms
proof (induction rule: stream_step.induct)
  case (stream_abort s w iroh code)
  let ?w1 = "on_stream s (StreamResource_request_stop iroh code) (on_stream s (StreamResource_request_reset iroh code) w)"
  have "census_step\<^sup>*\<^sup>* (census ?w1) (census (snd (StreamResource_close iroh s ?w1)))"
    using stream_abort by (intro census_stream_close) (simp add: live_stream_def)
  then show ?case by (simp add: stream_abort_def Let_def)
next
  case (stream_start c w kind builds caller owner r)
  show ?case by (simp add: stream_start_def split: sum.splits)
next
  case (stream_reset s w iroh code)
  show ?case by (simp add: stream_reset_def split: sum.splits)
next
  case (stream_stop s w iroh code)
  show ?case by (simp add: stream_stop_def split: sum.splits)
qed (auto simp: stream_send_start_def stream_send_iodata_start_def stream_calls_census live_stream_def
       split: option.splits intro: census_stream_drop)

lemma task_step_census:
  assumes "task_step w w'" and "refs_ok w"
  shows "census_step\<^sup>*\<^sup>* (census w) (census w')"
  using assms
proof (induction rule: task_step.induct)
  case (poll i w iroh event w')
  then obtain f r w1 where f: "tk_spawned (rt_tasks w ! i) = Sp_running f" "poll iroh event f w = Some (r, w1)"
      and w': "census w' = census w1"
    by (auto simp: task_poll_def split: spawned.splits option.splits sum.splits)
  have "\<forall>x\<in>future_refs f. in_range (holdings w) x"
    using poll.prems nth_mem [OF poll.hyps(1)] f(1) by (auto simp: refs_ok_def task_refs_def spawned_refs_def)
  then show ?case using census_poll [OF f(2)] w' by simp
next
  case (cancel i w iroh w')
  then obtain w1 where w1: "w' = drop_spawned iroh (tk_spawned (rt_tasks w ! i)) w1" "census w1 = census w"
      "holdings w1 = holdings w"
    by (auto simp: task_cancel_def select_cancelled_def split: if_splits)
  have "\<forall>r\<in>phase_refs (Selected (Some j)). in_range (holdings w1) r" if "tk_spawned (rt_tasks w ! i) = Sp_finished j" for j
    using cancel.prems nth_mem [OF cancel.hyps(1)] that w1(3)
    by (auto simp: refs_ok_def task_refs_def spawned_refs_def phase_refs_def)
  then show ?case
    using census_drop_joined [of "Some _" w1 iroh] w1(1,2)
    by (cases "tk_spawned (rt_tasks w ! i)") (auto simp: drop_spawned_def)
next
  case (bind i w w')
  then show ?case
    using census_bind_result [of "snd (should_complete i w)"]
    by (auto simp: bind_complete_def case_prod_beta split: supervisor.splits phase.splits bool.splits if_splits)
next
  case (finish i w iroh w')
  then obtain j w1 where w1: "w' = drop_joined iroh j w1" "census w1 = census w" "holdings w1 = holdings w"
      "tk_phase (rt_tasks w ! i) = Finishing j"
    by (auto simp: task_finish_def supervisor_finish_def split: phase.splits)
  have "\<forall>r\<in>phase_refs (Selected j). in_range (holdings w1) r"
    using finish.prems nth_mem [OF finish.hyps(1)] w1(3,4)
    by (auto simp: refs_ok_def task_refs_def phase_refs_def)
  then show ?case using census_drop_joined [of j w1 iroh] w1(1,2) by simp
qed (auto simp: task_panic_def select_result_def supervisor_complete_def send_operation_result_def case_prod_beta
       Let_def split: spawned.splits future.splits phase.splits supervisor.splits bool.splits if_splits)

lemma nif_step_census:
  assumes "nif_step api w w'" and "refs_ok w"
  shows "census_step\<^sup>*\<^sup>* (census w) (census w')"
  using assms
  by (cases rule: nif_step.cases)
     (auto dest: endpoint_step_census connection_step_census stream_step_census task_step_census)

lemma census_reachable: "reachable api w \<Longrightarrow> census_ok (census w)"
proof (induction rule: reachable.induct)
  case (start alive)
  show ?case by (simp add: census_ok_def census_def initial_def)
next
  case (step w w')
  then show ?case using nif_step_census [OF step.hyps(2)] refs_ok_reachable census_ok_steps by blast
qed

section \<open>Limits and snapshots\<close>

text \<open>
  C7. The connection limit holds: in every reachable state the connection counter of an
  endpoint is the number of its connections that have not been released, and it never
  exceeds the limit the endpoint was bound with.
\<close>

theorem connection_limit_exact:
  assumes "reachable api w" and "e < length (ep_endpoints w)"
  shows "unat (er_active_connections (ep_endpoints w ! e))
      = length (filter (\<lambda>c. cr_endpoint c = e \<and> \<not> cr_released c) (cn_connections w))
    \<and> er_active_connections (ep_endpoints w ! e) \<le> er_max_connections (ep_endpoints w ! e)"
proof -
  have "uint (er_active_connections (ep_endpoints w ! e))
      = int (length (filter (\<lambda>c. cr_endpoint c = e \<and> \<not> cr_released c) (cn_connections w)))"
    "er_active_connections (ep_endpoints w ! e) \<le> er_max_connections (ep_endpoints w ! e)"
    using census_reachable [OF assms(1)] assms(2)
    by (auto simp: census_ok_def census_def total_map live_on_def total_of_bool o_def)
  then show ?thesis by (simp add: unat_eq_nat_uint)
qed

theorem connection_limit_exact_witness:
  "unat (er_active_connections (ep_endpoints demo_connected ! 0)) = 1"
  using connection_limit_exact [OF demo_connected_reachable, of 0]
  by (simp add: demo_connected_eq demo_connection_def ConnectionResource_new_def)

text \<open>
  C30. The snapshots are exact: with fewer than \<open>2^64\<close> connections and streams ever made,
  \<open>connection_snapshot\<close> and \<open>stream_snapshot\<close> report the number of connections and of streams
  that have not been released; every release is counted once, however many closes, monitor
  callbacks and destructors run.
\<close>

theorem snapshots_exact:
  assumes "reachable api w" and "length (cn_connections w) < 2 ^ 64" and "length (st_streams w) < 2 ^ 64"
  shows "map_result unat (connection_snapshot w)
      = Inr (length (filter (\<lambda>c. \<not> cr_released c) (cn_connections w)))
    \<and> map_result (\<lambda>s. unat (ss_active_streams s)) (stream_snapshot w)
      = Inr (length (filter (\<lambda>s. \<not> sr_released s) (st_streams w)))"
proof -
  have "cn_active_connections w = of_nat (length (filter (\<lambda>c. \<not> cr_released c) (cn_connections w)))"
    "st_active_streams w = of_nat (length (filter (\<lambda>s. \<not> sr_released s) (st_streams w)))"
    using census_reachable [OF assms(1)]
    by (auto simp: census_ok_def census_def total_map total_of_bool o_def)
  moreover have "length (filter (\<lambda>c. \<not> cr_released c) (cn_connections w)) < 2 ^ 64"
    "length (filter (\<lambda>s. \<not> sr_released s) (st_streams w)) < 2 ^ 64"
    using assms(2,3) length_filter_le le_less_trans by blast+
  ultimately show ?thesis
    by (simp add: connection_snapshot_def stream_snapshot_def unat_of_nat_usize)
qed

theorem snapshots_exact_witness:
  "map_result unat (connection_snapshot demo_stream_opened) = Inr 1
    \<and> map_result (\<lambda>s. unat (ss_active_streams s)) (stream_snapshot demo_stream_opened) = Inr 1"
  using snapshots_exact [OF demo_stream_opened_reachable]
  by (simp add: demo_stream_opened_eq demo_connected_eq demo_connection_def ConnectionResource_new_def
      StreamResource_new_def)

end
