(* ===== verification/Registry.thy ===== *)
theory Registry
  imports References
begin

text \<open>
  The registry of active identities: an identity is registered exactly while one endpoint
  resource or one pending bind owns it. The bind supervisor hands the registration over from
  the pending bind to the endpoint, or removes it on every other path.
\<close>

section \<open>The abstraction\<close>

text \<open>
  \<open>rg_pending\<close> gives for each task the identity its bind has reserved, as long as its
  supervisor has not decided; \<open>rg_endpoints\<close> lists identity and released flag per endpoint.
\<close>

record registry =
  rg_identities :: "string set mutex"
  rg_endpoints :: "(string \<times> bool) list"
  rg_active :: usize
  rg_pending :: "string option list"

definition reservation :: "('a, 'b) task \<Rightarrow> string option" where
  "reservation t =
     (case tk_supervisor t of
        Sup_bind c \<Rightarrow> (case tk_phase t of Selecting \<Rightarrow> Some (bc_endpoint_id c)
                         | Selected _ \<Rightarrow> Some (bc_endpoint_id c) | _ \<Rightarrow> None)
      | _ \<Rightarrow> None)"

definition registry :: "('a, 'b, 'z) ep_state_scheme \<Rightarrow> registry" where
  "registry w =
     \<lparr>rg_identities = ep_identities w,
      rg_endpoints = map (\<lambda>e. (er_endpoint_id e, er_released e)) (ep_endpoints w),
      rg_active = ep_active_endpoints w, rg_pending = map reservation (rt_tasks w)\<rparr>"

definition unregister :: "string \<Rightarrow> registry \<Rightarrow> registry" where
  "unregister i g =
     (case mutex_lock (rg_identities g) of
        None \<Rightarrow> g
      | Some ids \<Rightarrow> g\<lparr>rg_identities := mutex_set (ids - {i}) (rg_identities g)\<rparr>)"

inductive registry_step :: "registry \<Rightarrow> registry \<Rightarrow> bool" where
  spawn: "registry_step g (g\<lparr>rg_pending := rg_pending g @ [None]\<rparr>)"
| reserve:
    "mutex_lock (rg_identities g) = Some ids \<Longrightarrow> i \<notin> ids
       \<Longrightarrow> registry_step g (g\<lparr>rg_identities := mutex_set (insert i ids) (rg_identities g),
             rg_pending := rg_pending g @ [Some i]\<rparr>)"
| refuse: "mutex_lock (rg_identities g) = Some ids \<Longrightarrow> i \<notin> ids
       \<Longrightarrow> registry_step g (unregister i (g\<lparr>rg_identities := mutex_set (insert i ids) (rg_identities g)\<rparr>))"
| hand_over:
    "t < length (rg_pending g) \<Longrightarrow> rg_pending g ! t = Some i
       \<Longrightarrow> registry_step g (g\<lparr>rg_pending := (rg_pending g)[t := None], rg_active := rg_active g + 1,
             rg_endpoints := rg_endpoints g @ [(i, False)]\<rparr>)"
| give_up:
    "t < length (rg_pending g) \<Longrightarrow> rg_pending g ! t = Some i
       \<Longrightarrow> registry_step g (unregister i (g\<lparr>rg_pending := (rg_pending g)[t := None]\<rparr>))"
| release:
    "e < length (rg_endpoints g) \<Longrightarrow> rg_endpoints g ! e = (i, False)
       \<Longrightarrow> registry_step g (unregister i (g\<lparr>rg_endpoints := (rg_endpoints g)[e := (i, True)],
             rg_active := rg_active g - 1\<rparr>))"

definition owners :: "string \<Rightarrow> registry \<Rightarrow> int" where
  "owners i g =
     total (\<lambda>x. of_bool (x = (i, False))) (rg_endpoints g) + total (\<lambda>x. of_bool (x = Some i)) (rg_pending g)"

definition registry_ok :: "registry \<Rightarrow> bool" where
  "registry_ok g \<longleftrightarrow>
     \<not> poisoned (rg_identities g)
     \<and> (\<forall>i. owners i g = of_bool (i \<in> content (rg_identities g)))
     \<and> rg_active g = total (\<lambda>x. of_bool (\<not> snd x)) (rg_endpoints g)"

lemma unregister_ok [simp]:
  "\<not> poisoned (rg_identities g) \<Longrightarrow>
     unregister i g = g\<lparr>rg_identities := mutex_set (content (rg_identities g) - {i}) (rg_identities g)\<rparr>"
  by (simp add: unregister_def)

lemma of_bool_le_owner:
  assumes "registry_ok g" and "1 \<le> owners i g"
  shows "i \<in> content (rg_identities g)" "owners i g = 1"
  using assms by (cases "i \<in> content (rg_identities g)"; simp add: registry_ok_def)+

lemma registry_ok_step:
  assumes "registry_step g g'" and "registry_ok g"
  shows "registry_ok g'"
  using assms
proof (induction rule: registry_step.induct)
  case (spawn g)
  then show ?case by (simp add: registry_ok_def owners_def)
next
  case (reserve g ids i)
  then show ?case by (auto simp: registry_ok_def owners_def)
next
  case (refuse g ids i)
  then show ?case by (auto simp: registry_ok_def owners_def)
next
  case (hand_over t g i)
  then show ?case by (auto simp: registry_ok_def owners_def total_update)
next
  case (give_up t g i)
  have "1 \<le> total (\<lambda>x. of_bool (x = Some i) :: int) (rg_pending g)"
    using total_ge_nth [of "rg_pending g" "\<lambda>x. of_bool (x = Some i)" t] give_up.hyps by simp
  moreover have "0 \<le> total (\<lambda>x. of_bool (x = (i, False)) :: int) (rg_endpoints g)"
    by (rule total_nonneg) simp
  ultimately have "1 \<le> owners i g" by (simp add: owners_def)
  note own = of_bool_le_owner [OF give_up.prems this]
  then show ?case
    using give_up own(1) by (auto simp: registry_ok_def owners_def total_update add_diff_eq)
next
  case (release e g i)
  have "1 \<le> total (\<lambda>x. of_bool (x = (i, False)) :: int) (rg_endpoints g)"
    using total_ge_nth [of "rg_endpoints g" "\<lambda>x. of_bool (x = (i, False))" e] release.hyps by simp
  moreover have "0 \<le> total (\<lambda>x. of_bool (x = Some i) :: int) (rg_pending g)"
    by (rule total_nonneg) simp
  ultimately have "1 \<le> owners i g" by (simp add: owners_def)
  note own = of_bool_le_owner [OF release.prems this]
  then show ?case
    using release own(1) by (auto simp: registry_ok_def owners_def total_update diff_add_eq)
qed

lemma registry_ok_steps: "registry_step\<^sup>*\<^sup>* g g' \<Longrightarrow> registry_ok g \<Longrightarrow> registry_ok g'"
  by (induction rule: rtranclp_induct) (auto intro: registry_ok_step)

section \<open>Operations on the registry\<close>

lemma registry_updates [simp]:
  "registry (rt_operations_update b w) = registry w"
  "registry (rt_active_operations_update c w) = registry w" "registry (rt_mailbox_update d w) = registry w"
  "registry (rt_alive_update e w) = registry w" "registry (rt_runtime_update f w) = registry w"
  "registry (net_log_update i w) = registry w"
  by (simp_all add: registry_def)

lemma registry_updates_conn [simp]:
  "registry (cn_connections_update f w) = registry w" "registry (cn_active_connections_update g w) = registry w"
  by (simp_all add: registry_def)

lemma registry_updates_stream [simp]:
  "registry (st_streams_update f w) = registry w" "registry (st_active_streams_update g w) = registry w"
  "registry (st_queued_bytes_update g w) = registry w" "registry (st_peak_queued_bytes_update g w) = registry w"
  by (simp_all add: registry_def)

lemma registry_set_endpoint:
  "er_endpoint_id self = er_endpoint_id (ep_endpoints w ! i) \<Longrightarrow> er_released self = er_released (ep_endpoints w ! i)
     \<Longrightarrow> registry (set_endpoint i self w) = registry w"
  by (simp add: registry_def set_endpoint_def map_update_same)

lemma endpoint_registry_frame [simp]:
  "er_endpoint_id (snd (EndpointResource_take_endpoint r)) = er_endpoint_id r"
  "er_released (snd (EndpointResource_take_endpoint r)) = er_released r"
  "er_endpoint_id (EndpointResource_finish_accept r) = er_endpoint_id r"
  "er_released (EndpointResource_finish_accept r) = er_released r"
  "er_endpoint_id (snd (EndpointResource_begin_accept r)) = er_endpoint_id r"
  "er_released (snd (EndpointResource_begin_accept r)) = er_released r"
  "er_endpoint_id (snd (EndpointResource_claim_connection r)) = er_endpoint_id r"
  "er_released (snd (EndpointResource_claim_connection r)) = er_released r"
  "er_endpoint_id (EndpointResource_release_connection r) = er_endpoint_id r"
  "er_released (EndpointResource_release_connection r) = er_released r"
  by (simp_all add: EndpointResource_take_endpoint_def EndpointResource_finish_accept_def
      EndpointResource_begin_accept_def EndpointResource_claim_connection_def EndpointResource_release_connection_def
      Let_def case_prod_beta)

lemma registry_frames [simp]:
  "registry (log_net es w) = registry w"
  "registry (AcceptPermit_drop e w) = registry w"
  by (simp_all add: log_net_def AcceptPermit_drop_def registry_set_endpoint)

lemma registry_connection [simp]:
  "registry (set_connection c conn w) = registry w"
  "registry (snd (ConnectionResource_close c w)) = registry w"
  "registry (ConnectionResource_drop c w) = registry w"
  "registry (ConnectionResource_down c w) = registry w"
  "registry (snd (wrap_connection iroh h e owner role op w)) = registry w"
  by (simp_all add: set_connection_def ConnectionResource_close_def ConnectionResource_drop_def
      ConnectionResource_down_def wrap_connection_def case_prod_beta registry_set_endpoint Let_def split: bool.splits)

lemma registry_stream [simp]:
  "registry (set_stream s str w) = registry w"
  "registry (on_stream s f w) = registry w"
  "registry (snd (StreamResource_close iroh s w)) = registry w"
  "registry (StreamResource_drop iroh s w) = registry w"
  "registry (StreamResource_down iroh s w) = registry w"
  "registry (snd (wrap_stream iroh send recv c owner op w)) = registry w"
  by (simp_all add: set_stream_def on_stream_def StreamResource_close_def StreamResource_drop_def
      StreamResource_down_def wrap_stream_def case_prod_beta Let_def split: option.splits)

lemma registry_io [simp]:
  "registry (QueueGuard_new n w) = registry w" "registry (QueueGuard_drop n w) = registry w"
  "registry (SendLease_drop s h w) = registry w" "registry (RecvLease_drop s h w) = registry w"
  "registry (DatagramPermit_drop c b w) = registry w" "registry (drop_send s h data w) = registry w"
  "registry (drop_datagram_send c data w) = registry w" "registry (drop_future f w) = registry w"
  by (simp_all add: QueueGuard_new_def QueueGuard_drop_def SendLease_drop_def RecvLease_drop_def
      DatagramPermit_drop_def drop_send_def drop_datagram_send_def drop_future_def Let_def split: future.splits)

lemma registry_stream_calls [simp]:
  "registry (snd (stream_finish iroh s w)) = registry w"
  "registry (snd (stream_reset iroh s code w)) = registry w"
  "registry (snd (stream_stop iroh s code w)) = registry w"
  "registry (snd (stream_abort iroh s code w)) = registry w"
  by (simp_all add: stream_finish_def stream_reset_def stream_stop_def stream_abort_def case_prod_beta Let_def
      split: option.splits sum.splits)

lemma registry_unregister: "registry (release_reserved_identity i w) = unregister i (registry w)"
  by (simp add: release_reserved_identity_def unregister_def registry_def split: option.splits)

lemma registry_release:
  assumes "e < length (ep_endpoints w)"
  shows "registry_step\<^sup>*\<^sup>* (registry w) (registry (EndpointResource_release_identity e w))"
proof (cases "er_released (ep_endpoints w ! e)")
  case True
  then show ?thesis by (simp add: EndpointResource_release_identity_def)
next
  case False
  let ?i = "er_endpoint_id (ep_endpoints w ! e)"
  have "registry (EndpointResource_release_identity e w) = unregister ?i ((registry w)\<lparr>
      rg_endpoints := (rg_endpoints (registry w))[e := (?i, True)], rg_active := rg_active (registry w) - 1\<rparr>)"
    using False
    by (simp add: EndpointResource_release_identity_def release_reserved_identity_def unregister_def registry_def
        set_endpoint_def map_update Let_def split: option.splits)
  then show ?thesis
    using registry_step.release [of e "registry w" ?i] False assms by (auto simp: registry_def)
qed

lemma registry_abort:
  assumes "e < length (ep_endpoints w)"
  shows "registry_step\<^sup>*\<^sup>* (registry w) (registry (snd (EndpointResource_abort e w)))"
proof -
  let ?w1 = "set_endpoint e (snd (EndpointResource_take_endpoint (ep_endpoints w ! e))) w"
  have "registry_step\<^sup>*\<^sup>* (registry ?w1) (registry (EndpointResource_release_identity e ?w1))"
    using assms by (intro registry_release) (simp add: set_endpoint_def)
  then show ?thesis
    by (simp add: EndpointResource_abort_def case_prod_beta Let_def registry_set_endpoint split: option.splits)
qed

lemma registry_drop:
  assumes "e < length (ep_endpoints w)"
  shows "registry_step\<^sup>*\<^sup>* (registry w) (registry (EndpointResource_drop e w))"
    and "registry_step\<^sup>*\<^sup>* (registry w) (registry (EndpointResource_down e w))"
  using registry_abort [OF assms]
  by (simp_all add: EndpointResource_drop_def EndpointResource_down_def Let_def registry_set_endpoint)

section \<open>Steps\<close>

lemma registry_moves [simp]:
  "registry (snd (operation_cancel i w)) = registry w"
  "registry (snd (should_complete i w)) = registry w"
  "registry (snd (runtime builds w)) = registry w"
  by (simp_all add: operation_cancel_def should_complete_def runtime_def Let_def case_prod_beta)

lemma registry_spawn:
  "registry (snd (spawn_operation caller r sv f w)) = (registry w)\<lparr>rg_pending := rg_pending (registry w)
     @ [case sv of Sup_bind c \<Rightarrow> Some (bc_endpoint_id c) | _ \<Rightarrow> None]\<rparr>"
  by (simp add: spawn_operation_def registry_def reservation_def split: supervisor.splits)

lemma registry_spawn_other:
  "registry w1 = registry w \<Longrightarrow> (\<And>c. sv \<noteq> Sup_bind c) \<Longrightarrow>
     registry_step\<^sup>*\<^sup>* (registry w) (registry (snd (spawn_operation caller r sv f w1)))"
  using registry_step.spawn [of "registry w"] by (auto simp: registry_spawn split: supervisor.splits)

lemma registry_start:
  "registry w1 = registry w \<Longrightarrow>
     registry_step\<^sup>*\<^sup>* (registry w) (registry (snd (start_endpoint_operation builds caller r name f w1)))"
  by (auto simp: start_endpoint_operation_def case_prod_beta Let_def split: sum.splits intro: registry_spawn_other)

lemma registry_reserve:
  assumes "fst (reserve_identity i w) = Inr u"
  shows "\<exists>ids. mutex_lock (rg_identities (registry w)) = Some ids \<and> i \<notin> ids
    \<and> registry (snd (reserve_identity i w))
        = (registry w)\<lparr>rg_identities := mutex_set (insert i ids) (rg_identities (registry w))\<rparr>"
  using assms by (auto simp: reserve_identity_def registry_def split: option.splits if_splits)

lemma registry_refused [simp]: "fst (reserve_identity i w) = Inl e \<Longrightarrow> registry (snd (reserve_identity i w)) = registry w"
  by (auto simp: reserve_identity_def split: option.splits if_splits)

lemma registry_bind_start:
  assumes "fst (reserve_identity i w) = Inr u"
  shows "registry_step\<^sup>*\<^sup>* (registry w) (registry (release_reserved_identity i (snd (reserve_identity i w))))"
    and "bc_endpoint_id c = i \<Longrightarrow>
      registry_step\<^sup>*\<^sup>* (registry w) (registry (snd (spawn_operation caller r (Sup_bind c) f (snd (reserve_identity i w)))))"
proof -
  obtain ids where ids: "mutex_lock (rg_identities (registry w)) = Some ids" "i \<notin> ids"
      "registry (snd (reserve_identity i w))
        = (registry w)\<lparr>rg_identities := mutex_set (insert i ids) (rg_identities (registry w))\<rparr>"
    using registry_reserve [OF assms] by blast
  show "registry_step\<^sup>*\<^sup>* (registry w) (registry (release_reserved_identity i (snd (reserve_identity i w))))"
    using registry_step.refuse [OF ids(1,2)] by (auto simp: registry_unregister ids(3))
  show "registry_step\<^sup>*\<^sup>* (registry w) (registry (snd (spawn_operation caller r (Sup_bind c) f (snd (reserve_identity i w)))))"
    if "bc_endpoint_id c = i"
    using registry_step.reserve [OF ids(1,2)] that by (auto simp: registry_spawn ids(3))
qed

lemma endpoint_step_registry:
  assumes "endpoint_step w w'"
  shows "registry_step\<^sup>*\<^sup>* (registry w) (registry w')"
  using assms
proof (induction rule: endpoint_step.induct)
  case (operation_start w builds caller r kind delay)
  show ?case
    by (auto simp: operation_start_def case_prod_beta Let_def split: sum.splits intro: registry_spawn_other)
next
  case (endpoint_bind_start w builds api bind_addr_ok public_id caller r key options)
  let ?w1 = "snd (runtime builds w)" and ?i = "public_id key"
  note bind = registry_bind_start [of ?i ?w1, simplified]
  show ?case
    by (auto simp: endpoint_bind_start_def case_prod_beta Let_def split: sum.splits intro!: bind)
qed (auto simp: endpoint_close_start_def endpoint_await_online_start_def endpoint_abort_def live_endpoint_def Let_def
       intro: registry_start registry_abort registry_drop)

lemma connection_step_registry:
  assumes "connection_step api w w'"
  shows "registry_step\<^sup>*\<^sup>* (registry w) (registry w')"
  using assms
proof (induction rule: connection_step.induct)
  case (connection_connect_start e w builds caller owner r target alpn)
  show ?case
    by (auto simp: connection_connect_start_def split: sum.splits option.splits intro: registry_start)
next
  case (connection_accept_start e w builds caller owner r allow_all allowed)
  show ?case
    by (auto simp: connection_accept_start_def case_prod_beta Let_def registry_set_endpoint
        split: sum.splits option.splits bool.splits intro: registry_start)
qed (auto simp: connection_close_def connection_closed_start_def intro: registry_start)

lemma stream_step_registry:
  assumes "stream_step w w'"
  shows "registry_step\<^sup>*\<^sup>* (registry w) (registry w')"
  using assms
  by (induction rule: stream_step.induct)
     (auto simp: stream_start_def stream_send_start_def stream_send_iodata_start_def start_stream_send_def
       stream_recv_start_def datagram_send_start_def datagram_recv_start_def case_prod_beta Let_def
       split: sum.splits bool.splits option.splits intro: registry_start)

lemma registry_set_task:
  assumes "i < length (rt_tasks w)"
  shows "registry (set_task i g w) = (registry w)\<lparr>rg_pending := (rg_pending (registry w))[i := reservation (g (rt_tasks w ! i))]\<rparr>"
  using assms by (simp add: registry_def set_task_def map_update)

lemma registry_task_same:
  "rt_tasks w' = (rt_tasks w)[i := t] \<Longrightarrow> reservation t = reservation (rt_tasks w ! i)
     \<Longrightarrow> registry (w'\<lparr>rt_tasks := rt_tasks w\<rparr>) = registry w \<Longrightarrow> registry w' = registry w"
  by (simp add: registry_def map_update_same)

text \<open>The message of the bind supervisor is built without looking at the tasks.\<close>

lemma endpoint_ops_tasks:
  "release_reserved_identity x (w\<lparr>rt_tasks := ts\<rparr>) = (release_reserved_identity x w)\<lparr>rt_tasks := ts\<rparr>"
  "set_endpoint e self (w\<lparr>rt_tasks := ts\<rparr>) = (set_endpoint e self w)\<lparr>rt_tasks := ts\<rparr>"
  "log_net es (w\<lparr>rt_tasks := ts\<rparr>) = (log_net es w)\<lparr>rt_tasks := ts\<rparr>"
  by (simp_all add: release_reserved_identity_def set_endpoint_def log_net_def split: option.splits)

lemma endpoint_release_tasks:
  "EndpointResource_release_identity e (w\<lparr>rt_tasks := ts\<rparr>) = (EndpointResource_release_identity e w)\<lparr>rt_tasks := ts\<rparr>"
  by (simp add: EndpointResource_release_identity_def endpoint_ops_tasks Let_def)

lemma endpoint_abort_tasks:
  "snd (EndpointResource_abort e (w\<lparr>rt_tasks := ts\<rparr>)) = (snd (EndpointResource_abort e w))\<lparr>rt_tasks := ts\<rparr>"
  by (simp add: EndpointResource_abort_def endpoint_ops_tasks endpoint_release_tasks case_prod_beta Let_def
      split: option.splits)

lemma endpoint_drop_tasks: "EndpointResource_drop e (w\<lparr>rt_tasks := ts\<rparr>) = (EndpointResource_drop e w)\<lparr>rt_tasks := ts\<rparr>"
  by (simp add: EndpointResource_drop_def endpoint_abort_tasks endpoint_ops_tasks Let_def)

lemma bind_result_message_tasks:
  "snd (bind_result_message caller c bound (w\<lparr>rt_tasks := ts\<rparr>))
     = (snd (bind_result_message caller c bound w))\<lparr>rt_tasks := ts\<rparr>"
proof -
  have new: "(w\<lparr>rt_tasks := ts\<rparr>)\<lparr>ep_active_endpoints := n, ep_endpoints := es\<rparr>
      = (w\<lparr>ep_active_endpoints := n, ep_endpoints := es\<rparr>)\<lparr>rt_tasks := ts\<rparr>" for n es
    by simp
  show ?thesis
    unfolding bind_result_message_def
    by (simp add: new endpoint_drop_tasks endpoint_abort_tasks endpoint_ops_tasks Let_def del: rt_state.update_convs
        split: option.splits joined.splits)
qed

lemma registry_bind_result:
  assumes i: "i < length (rt_tasks w)" and bind: "tk_supervisor (rt_tasks w ! i) = Sup_bind c"
    and phase: "tk_phase (rt_tasks w ! i) = Selected bound"
  shows "registry_step\<^sup>*\<^sup>* (registry w)
    (registry (set_task i (tk_phase_update (\<lambda>_. Sending m)) (snd (bind_result_message caller c bound w))))"
    and "registry_step\<^sup>*\<^sup>* (registry w)
    (registry (set_task i (tk_phase_update (\<lambda>_. Finishing bound)) (release_reserved_identity (bc_endpoint_id c) w)))"
proof -
  let ?w0 = "\<lambda>p. w\<lparr>rt_tasks := (rt_tasks w)[i := (rt_tasks w ! i)\<lparr>tk_phase := p\<rparr>]\<rparr>"
  have mine: "i < length (rg_pending (registry w))" "rg_pending (registry w) ! i = Some (bc_endpoint_id c)"
    using i bind phase by (simp_all add: registry_def reservation_def)
  have w0: "registry (?w0 p) = (registry w)\<lparr>rg_pending := (rg_pending (registry w))[i := None]\<rparr>"
    if "p = Sending m \<or> p = Finishing bound" for p
    using that i bind by (auto simp: registry_def map_update reservation_def)
  have give_up: "registry_step\<^sup>*\<^sup>* (registry w) (registry (release_reserved_identity (bc_endpoint_id c) (?w0 p)))"
    if "p = Sending m \<or> p = Finishing bound" for p
    using registry_step.give_up [OF mine] by (auto simp: registry_unregister w0 [OF that])
  have sent: "registry_step\<^sup>*\<^sup>* (registry w) (registry (snd (bind_result_message caller c bound (?w0 (Sending m)))))"
  proof -
    let ?w1 = "\<lambda>h. (?w0 (Sending m))\<lparr>ep_active_endpoints := ep_active_endpoints w + 1,
        ep_endpoints := ep_endpoints w @ [EndpointResource_new c h caller]\<rparr>"
    let ?e = "length (ep_endpoints w)"
    have over: "registry_step (registry w) (registry (?w1 h))" for h
      using registry_step.hand_over [OF mine] w0 [of "Sending m"]
      by (simp add: registry_def EndpointResource_new_def)
    have "registry_step\<^sup>*\<^sup>* (registry (?w1 h)) (registry (EndpointResource_drop ?e (snd (EndpointResource_abort ?e (?w1 h)))))"
      for h
    proof (rule rtranclp_trans [OF registry_abort registry_drop(1)])
      show "?e < length (ep_endpoints (?w1 h))" by simp
      show "?e < length (ep_endpoints (snd (EndpointResource_abort ?e (?w1 h))))"
        by (simp add: EndpointResource_abort_def EndpointResource_release_identity_def release_reserved_identity_def
            set_endpoint_def log_net_def case_prod_beta Let_def split: option.splits)
    qed
    then show ?thesis
      using over give_up [of "Sending m"]
      by (auto simp: bind_result_message_def Let_def split: option.splits joined.splits
          intro: converse_rtranclp_into_rtranclp)
  qed
  show "registry_step\<^sup>*\<^sup>* (registry w)
    (registry (set_task i (tk_phase_update (\<lambda>_. Sending m)) (snd (bind_result_message caller c bound w))))"
    using sent by (simp add: bind_result_message_tasks set_task_def)
  show "registry_step\<^sup>*\<^sup>* (registry w)
    (registry (set_task i (tk_phase_update (\<lambda>_. Finishing bound)) (release_reserved_identity (bc_endpoint_id c) w)))"
    using give_up [of "Finishing bound"]
    by (simp add: set_task_def endpoint_ops_tasks)
qed

lemma registry_poll:
  assumes "poll iroh event f w = Some (r, w')" and "\<forall>x\<in>future_refs f. in_range (holdings w) x"
  shows "registry_step\<^sup>*\<^sup>* (registry w) (registry w')"
proof -
  have take: "registry_step\<^sup>*\<^sup>* (registry w) (registry (EndpointResource_release_identity e
      (set_endpoint e (snd (EndpointResource_take_endpoint (ep_endpoints w ! e))) w)))"
    if "e < length (ep_endpoints w)" for e
    using registry_release [of e "set_endpoint e (snd (EndpointResource_take_endpoint (ep_endpoints w ! e))) w"] that
    by (simp add: registry_set_endpoint) (simp add: set_endpoint_def)
  have logged: "registry_step\<^sup>*\<^sup>* (registry w) (registry (EndpointResource_release_identity e (log_net es w)))"
    if "e < length (ep_endpoints w)" for e es
    using registry_release [of e "log_net es w"] that by (simp add: log_net_def)
  show ?thesis
    using assms
    by (auto simp: poll_def poll_close_def poll_closing_def poll_online_def poll_connect_def poll_accept_def
        poll_accepting_def poll_closed_def poll_stream_def poll_send_def poll_send_all_def poll_send_once_def
        poll_send_reset_def poll_recv_def poll_datagram_send_def poll_datagram_recv_def case_prod_beta Let_def
        in_range_state registry_set_endpoint
        split: future.splits lib_event.splits option.splits if_splits bool.splits
        intro!: take logged)
qed

lemma registry_drop_joined:
  assumes "\<forall>r\<in>phase_refs (Selected j). in_range (holdings w) r"
  shows "registry_step\<^sup>*\<^sup>* (registry w) (registry (drop_joined iroh j w))"
  using assms registry_drop(1) [of _ w]
  by (auto simp: drop_joined_def drop_value_def in_range_state phase_refs_def
      split: option.splits joined.splits sum.splits res_val.splits)

lemma reservation_phase:
  "reservation (t\<lparr>tk_spawned := sp\<rparr>) = reservation t"
  "tk_phase t = Selecting \<Longrightarrow> reservation (t\<lparr>tk_spawned := sp, tk_phase := Selected r\<rparr>) = reservation t"
  "tk_phase t = Sending m \<Longrightarrow> reservation (t\<lparr>tk_phase := Finishing r\<rparr>) = reservation t"
  "tk_phase t = Finishing r \<Longrightarrow> reservation (t\<lparr>tk_phase := Terminated\<rparr>) = reservation t"
  "(\<And>c. tk_supervisor t \<noteq> Sup_bind c) \<Longrightarrow> reservation (t\<lparr>tk_phase := p\<rparr>) = reservation t"
  by (auto simp: reservation_def split: supervisor.splits)

lemma registry_set_task_same:
  "reservation (g (rt_tasks w ! i)) = reservation (rt_tasks w ! i) \<Longrightarrow> registry (set_task i g w) = registry w"
  by (simp add: registry_def set_task_def map_update_same)

lemma task_step_registry:
  assumes "task_step w w'" and "refs_ok w"
  shows "registry_step\<^sup>*\<^sup>* (registry w) (registry w')"
  using assms
proof (induction rule: task_step.induct)
  case (poll i w iroh event w')
  then obtain f r w1 where f: "tk_spawned (rt_tasks w ! i) = Sp_running f" "poll iroh event f w = Some (r, w1)"
      and w': "registry w' = registry w1"
    by (auto simp: task_poll_def registry_set_task_same reservation_phase
        split: spawned.splits option.splits sum.splits)
  have "\<forall>x\<in>future_refs f. in_range (holdings w) x"
    using poll.prems nth_mem [OF poll.hyps(1)] f(1) by (auto simp: refs_ok_def task_refs_def spawned_refs_def)
  then show ?case using registry_poll [OF f(2)] w' by simp
next
  case (panic i w w')
  then show ?case
    by (auto simp: task_panic_def registry_set_task_same reservation_phase split: spawned.splits future.splits)
next
  case (select i w w')
  then show ?case
    by (auto simp: select_result_def registry_set_task_same reservation_phase split: spawned.splits phase.splits)
next
  case (cancel i w iroh w')
  then obtain w1 where w1: "w' = drop_spawned iroh (tk_spawned (rt_tasks w ! i)) w1" "registry w1 = registry w"
      "holdings w1 = holdings w"
    by (auto simp: task_cancel_def select_cancelled_def registry_set_task_same reservation_phase split: if_splits)
  have "\<forall>r\<in>phase_refs (Selected (Some j)). in_range (holdings w1) r" if "tk_spawned (rt_tasks w ! i) = Sp_finished j" for j
    using cancel.prems nth_mem [OF cancel.hyps(1)] that w1(3)
    by (auto simp: refs_ok_def task_refs_def spawned_refs_def phase_refs_def)
  then show ?case
    using registry_drop_joined [of "Some _" w1 iroh] w1(1,2)
    by (cases "tk_spawned (rt_tasks w ! i)") (auto simp: drop_spawned_def)
next
  case (complete i w w')
  then obtain p where "w' = set_task i (tk_phase_update (\<lambda>_. p)) (snd (should_complete i w))"
      "\<And>c. tk_supervisor (rt_tasks w ! i) \<noteq> Sup_bind c"
    by (auto simp: supervisor_complete_def case_prod_beta split: supervisor.splits phase.splits bool.splits if_splits)
  then show ?case by (simp add: registry_set_task_same reservation_phase)
next
  case (bind i w w')
  note result = registry_bind_result [of i "snd (should_complete i w)"]
  show ?case
    using bind result
    by (auto simp: bind_complete_def case_prod_beta split: supervisor.splits phase.splits bool.splits if_splits)
next
  case (send i w w')
  then show ?case
    by (auto simp: send_operation_result_def Let_def registry_set_task_same reservation_phase
        split: phase.splits if_splits)
next
  case (finish i w iroh w')
  then obtain j w1 where w1: "w' = drop_joined iroh j w1" "registry w1 = registry w" "holdings w1 = holdings w"
      "tk_phase (rt_tasks w ! i) = Finishing j"
    by (auto simp: task_finish_def supervisor_finish_def registry_set_task_same reservation_phase split: phase.splits)
  have "\<forall>r\<in>phase_refs (Selected j). in_range (holdings w1) r"
    using finish.prems nth_mem [OF finish.hyps(1)] w1(3,4)
    by (auto simp: refs_ok_def task_refs_def phase_refs_def)
  then show ?case using registry_drop_joined [of j w1 iroh] w1(1,2) by simp
qed

lemma nif_step_registry:
  assumes "nif_step api w w'" and "refs_ok w"
  shows "registry_step\<^sup>*\<^sup>* (registry w) (registry w')"
  using assms
  by (cases rule: nif_step.cases)
     (auto dest: endpoint_step_registry connection_step_registry stream_step_registry task_step_registry)

lemma registry_reachable: "reachable api w \<Longrightarrow> registry_ok (registry w)"
proof (induction rule: reachable.induct)
  case (start alive)
  show ?case by (simp add: registry_ok_def registry_def owners_def initial_def)
next
  case (step w w')
  then show ?case using nif_step_registry [OF step.hyps(2)] refs_ok_reachable registry_ok_steps by blast
qed

section \<open>Identities are exclusive\<close>

lemma distinct_map_count:
  assumes "\<And>y. length (filter (\<lambda>x. f x = y) xs) \<le> 1"
  shows "distinct (map f xs)"
  using assms
proof (induction xs)
  case Nil
  then show ?case by simp
next
  case (Cons x xs)
  have "length (filter (\<lambda>z. f z = y) xs) \<le> 1" for y
    using Cons.prems [of y] by (simp split: if_splits)
  moreover have "filter (\<lambda>z. f z = f x) xs = []"
    using Cons.prems [of "f x"] by simp
  ultimately show ?case
    using Cons.IH by (auto simp: filter_empty_conv)
qed

lemma registry_facts:
  assumes "reachable api w"
  shows "\<not> poisoned (ep_identities w)"
    and "owners i (registry w) = of_bool (i \<in> content (ep_identities w))"
    and "ep_active_endpoints w = of_nat (length (filter (\<lambda>e. \<not> er_released e) (ep_endpoints w)))"
proof -
  have g: "rg_identities (registry w) = ep_identities w" "rg_active (registry w) = ep_active_endpoints w"
    "rg_endpoints (registry w) = map (\<lambda>e. (er_endpoint_id e, er_released e)) (ep_endpoints w)"
    by (simp_all add: registry_def)
  note ok = registry_reachable [OF assms, unfolded registry_ok_def g]
  show "\<not> poisoned (ep_identities w)" "owners i (registry w) = of_bool (i \<in> content (ep_identities w))"
    using ok by blast+
  show "ep_active_endpoints w = of_nat (length (filter (\<lambda>e. \<not> er_released e) (ep_endpoints w)))"
    using ok by (simp add: total_map total_of_bool o_def)
qed

lemma owners_count:
  "owners i (registry w) =
     int (length (filter (\<lambda>e. er_endpoint_id e = i \<and> \<not> er_released e) (ep_endpoints w))
        + length (filter (\<lambda>t. reservation t = Some i) (rt_tasks w)))"
  by (simp add: owners_def registry_def total_map total_of_bool o_def)

text \<open>
  C4. Identities are exclusive: in every reachable state the registry's lock is sound and an
  identity is registered exactly when one unreleased endpoint or one undecided bind owns it.
  So no two live endpoints share an identity, and a registration never outlives its owner.
\<close>

theorem identity_exclusive:
  assumes "reachable api w"
  shows "\<not> poisoned (ep_identities w)
    \<and> length (filter (\<lambda>e. er_endpoint_id e = i \<and> \<not> er_released e) (ep_endpoints w))
        + length (filter (\<lambda>t. reservation t = Some i) (rt_tasks w))
      = of_bool (i \<in> content (ep_identities w))"
proof -
  have "int (length (filter (\<lambda>e. er_endpoint_id e = i \<and> \<not> er_released e) (ep_endpoints w))
        + length (filter (\<lambda>t. reservation t = Some i) (rt_tasks w)))
      = int (of_bool (i \<in> content (ep_identities w)))"
    using registry_facts(2) [OF assms, of i] unfolding owners_count by simp
  then show ?thesis using registry_facts(1) [OF assms] by linarith
qed

theorem identity_exclusive_witness:
  "length (filter (\<lambda>e. er_endpoint_id e = ''id'' \<and> \<not> er_released e) (ep_endpoints demo_bound)) = 1
    \<and> length (filter (\<lambda>t. reservation t = Some ''id'') (rt_tasks demo_bound)) = 0"
  using identity_exclusive [OF demo_bound_reachable [of demo_api], of "''id''"]
  by (simp add: demo_bound_eq demo_bind_task_def reservation_def EndpointResource_new_def demo_capture_def)

lemma terminated_reserves_nothing: "tk_phase t = Terminated \<Longrightarrow> reservation t = None"
  by (simp add: reservation_def split: supervisor.splits)

lemma owned_by_endpoint:
  assumes "reachable api w" and "\<forall>t\<in>set (rt_tasks w). reservation t = None"
  shows "content (ep_identities w) = set (map er_endpoint_id (filter (\<lambda>e. \<not> er_released e) (ep_endpoints w)))"
proof (rule set_eqI)
  fix i
  have "(of_bool (i \<in> content (ep_identities w)) :: int) = owners i (registry w)"
    by (simp add: registry_facts(2) [OF assms(1)])
  also have "\<dots> = int (length (filter (\<lambda>e. er_endpoint_id e = i \<and> \<not> er_released e) (ep_endpoints w)))"
    using assms(2) by (simp add: owners_count)
  finally have "i \<in> content (ep_identities w)
      \<longleftrightarrow> filter (\<lambda>e. er_endpoint_id e = i \<and> \<not> er_released e) (ep_endpoints w) \<noteq> []"
    by (cases "i \<in> content (ep_identities w)") auto
  then show "i \<in> content (ep_identities w)
      \<longleftrightarrow> i \<in> set (map er_endpoint_id (filter (\<lambda>e. \<not> er_released e) (ep_endpoints w)))"
    by (auto simp: filter_empty_conv)
qed

text \<open>
  C31. No reservation leaks: once every operation has ended, exactly the identities of the
  unreleased endpoints are registered, whatever happened to the binds; \<open>endpoint_bind_start\<close>
  therefore refuses an identity as in use only if a live endpoint has it.
\<close>

theorem quiescent_identities:
  assumes "reachable api w" and "\<forall>t\<in>set (rt_tasks w). tk_phase t = Terminated"
  shows "content (ep_identities w) = set (map er_endpoint_id (filter (\<lambda>e. \<not> er_released e) (ep_endpoints w)))
    \<and> (fst (reserve_identity i w) = Inr ()
       \<longleftrightarrow> (\<forall>e\<in>set (ep_endpoints w). er_endpoint_id e = i \<longrightarrow> er_released e))"
proof -
  have ids: "content (ep_identities w) = set (map er_endpoint_id (filter (\<lambda>e. \<not> er_released e) (ep_endpoints w)))"
    using owned_by_endpoint [OF assms(1)] assms(2) terminated_reserves_nothing by blast
  moreover note registry_facts(1) [OF assms(1)]
  ultimately show ?thesis by (auto simp: reserve_identity_def)
qed

theorem quiescent_identities_witness:
  "''id'' \<in> content (ep_identities demo_settled) \<and> fst (reserve_identity ''other'' demo_settled) = Inr ()"
proof -
  have "ep_endpoints demo_settled = [EndpointResource_new demo_capture 10 1]"
    "\<forall>t\<in>set (rt_tasks demo_settled). tk_phase t = Terminated"
    by (simp_all add: demo_settled_eq demo_bound_eq)
  then show ?thesis
    using quiescent_identities [OF demo_settled_reachable [of demo_api], of "''other''"]
    by (simp add: EndpointResource_new_def demo_capture_def)
qed

text \<open>
  C32. The endpoint snapshot is exact: with fewer than \<open>2^64\<close> endpoints and no bind
  undecided, it reports the number of unreleased endpoints, and as many active identities.
\<close>

theorem endpoint_snapshot_exact:
  assumes "reachable api w" and "length (ep_endpoints w) < 2 ^ 64"
    and "\<forall>t\<in>set (rt_tasks w). reservation t = None"
  shows "map_result (\<lambda>s. (unat (es_active_endpoints s), unat (es_active_identities s))) (endpoint_snapshot w)
    = Inr (length (filter (\<lambda>e. \<not> er_released e) (ep_endpoints w)),
           length (filter (\<lambda>e. \<not> er_released e) (ep_endpoints w)))"
proof -
  let ?live = "filter (\<lambda>e. \<not> er_released e) (ep_endpoints w)"
  note ok = registry_facts [OF assms(1)]
  have "length (filter (\<lambda>e. er_endpoint_id e = i) ?live) \<le> 1" for i
    using ok(2) [of i] unfolding owners_count
    by (cases "i \<in> content (ep_identities w)") (simp_all add: conj_commute)
  then have "distinct (map er_endpoint_id ?live)"
    by (rule distinct_map_count)
  then have "card (content (ep_identities w)) = length ?live"
    unfolding owned_by_endpoint [OF assms(1,3)] using distinct_card [of "map er_endpoint_id ?live"] by simp
  moreover have "length ?live < 2 ^ 64"
    using assms(2) length_filter_le le_less_trans by blast
  ultimately show ?thesis
    using ok(1,3) by (simp add: endpoint_snapshot_def usize_of_def unat_of_nat_usize)
qed

theorem endpoint_snapshot_exact_witness:
  "map_result (\<lambda>s. (unat (es_active_endpoints s), unat (es_active_identities s))) (endpoint_snapshot demo_settled)
    = Inr (1, 1)"
  using endpoint_snapshot_exact [OF demo_settled_reachable [of demo_api]]
  by (simp add: demo_settled_eq demo_bound_eq EndpointResource_new_def demo_bind_task_def reservation_def)

end
