(* ===== verification/Send_Loop.thy ===== *)
theory Send_Loop
  imports Demo "HOL-Library.Sublist"
begin

text \<open>
  The write loop of \<open>start_stream_send\<close>: what reaches the stream, in which order, and that the
  loop ends. The loop runs interleaved with the rest of the library, so a run of it is a
  sequence of resumptions in unrelated states.
\<close>

section \<open>Positions of the loop\<close>

text \<open>
  \<open>written\<close> is a multiple of the chunk size below the length of the data and \<open>partial\<close> lies
  inside the current chunk. A \<open>Vec\<close> has at most \<open>isize::MAX\<close> bytes, so the end of the chunk
  does not wrap around, whatever chunk size the caller passed.
\<close>

definition send_stop :: "bytes \<Rightarrow> usize \<Rightarrow> usize \<Rightarrow> nat" where
  "send_stop data written chunk_size = min (unat written + unat chunk_size) (length data)"

definition send_pos :: "bytes \<Rightarrow> usize \<Rightarrow> usize \<Rightarrow> usize \<Rightarrow> bool" where
  "send_pos data written partial chunk_size \<longleftrightarrow>
     unat written + unat partial < send_stop data written chunk_size
     \<and> (written = 0 \<or> unat chunk_size < length data)"

lemma send_stop_le [simp]: "send_stop data written chunk_size \<le> length data"
  by (simp add: send_stop_def)

lemma send_pos_start: "data \<noteq> [] \<Longrightarrow> chunk_size \<noteq> 0 \<Longrightarrow> send_pos data 0 0 chunk_size"
  by (simp add: send_pos_def send_stop_def unat_gt_0)

lemma unat_data_len: "length data < 2 ^ 63 \<Longrightarrow> unat (data_len data) = length data"
  by (simp add: data_len_def usize_of_def unat_of_nat_usize)

lemma unat_chunk_end:
  assumes "length data < 2 ^ 63" and "send_pos data written partial chunk_size"
  shows "unat (chunk_end written chunk_size data) = send_stop data written chunk_size"
proof -
  have "unat (written + chunk_size) = unat written + unat chunk_size"
  proof (cases "written = 0")
    case False
    then have "unat written + unat chunk_size < 2 ^ 64"
      using assms by (auto simp: send_pos_def send_stop_def)
    then show ?thesis by (simp add: unat_word_ariths)
  qed simp
  then show ?thesis
    using unat_data_len [OF assms(1)]
    by (simp add: chunk_end_def send_stop_def min_def word_le_nat_alt)
qed

lemma unat_of_nat_word: "unat (a :: usize) = n \<Longrightarrow> a = of_nat n"
  by auto

lemma send_once_slice: "\<exists>chunk. slice data 0 (min chunk_size (data_len data)) = Some chunk"
  by (auto simp: slice_def data_len_def usize_of_def min_def word_le_nat_alt unat_of_nat
      intro: order_trans [OF _ mod_less_eq_dividend])

lemma send_slice:
  assumes "length data < 2 ^ 63" and "send_pos data written partial chunk_size"
  shows "slice data written (chunk_end written chunk_size data)
    = Some (take (send_stop data written chunk_size - unat written) (drop (unat written) data))"
  using assms(2) unat_chunk_end [OF assms]
  by (auto simp: slice_def word_le_nat_alt send_pos_def)

lemma send_all_resumption:
  fixes n :: usize
  assumes "length data < 2 ^ 63" and "send_pos data written partial chunk_size"
  defines "pos \<equiv> unat written + unat partial" and "stop \<equiv> send_stop data written chunk_size"
    and "bs \<equiv> take (unat n) (drop (unat written + unat partial) data)"
  shows "poll_send_all n ix stream data written partial chunk_size w =
    (if n = 0 \<or> stop - pos < unat n then None
     else if pos + unat n < stop
     then Some (Inl (Fut_send ix stream data written (partial + n) True chunk_size),
            log_net [Net_stream_write stream bs] w)
     else if stop < length data
     then Some (Inl (Fut_send ix stream data (of_nat stop) 0 True chunk_size),
            log_net [Net_stream_write stream bs] w)
     else finish_block (Inr (R_count (data_len data)))
            (drop_send ix stream data (log_net [Net_stream_write stream bs] w)))"
proof -
  have stop: "stop \<le> length data" "pos < stop"
    using assms(2) by (simp_all add: stop_def pos_def send_pos_def send_stop_def)
  have last: "chunk_end written chunk_size data = of_nat stop"
    using unat_chunk_end [OF assms(1,2)] by (metis stop_def unat_of_nat_word)
  have rest: "drop (unat partial) (take (stop - unat written) (drop (unat written) data))
      = take (stop - pos) (drop pos data)"
    by (simp add: drop_take pos_def add.commute)
  have less: "(of_nat stop :: usize) < data_len data \<longleftrightarrow> stop < length data"
    using unat_chunk_end [OF assms(1,2)] unat_data_len [OF assms(1)]
    by (simp add: word_less_nat_alt flip: stop_def last)
  have slice: "slice data written (of_nat stop) = Some (take (stop - unat written) (drop (unat written) data))"
    using send_slice [OF assms(1,2)] by (simp only: last stop_def)
  have size: "length (take (stop - pos) (drop pos data)) = stop - pos"
    using stop by simp
  show ?thesis
    unfolding poll_send_all_def last slice option.case Let_def rest size less bs_def pos_def [symmetric]
    using stop by (auto simp: min_def unsigned_eq_0_iff)
qed

section \<open>Runs of the loop\<close>

text \<open>The bytes handed to one stream by the calls added to the log between two states.\<close>

fun stream_bytes :: "handle \<Rightarrow> net_event list \<Rightarrow> bytes" where
  "stream_bytes h [] = []"
| "stream_bytes h (Net_stream_write h' bs # es) = (if h' = h then bs else []) @ stream_bytes h es"
| "stream_bytes h (_ # es) = stream_bytes h es"

definition bytes_between ::
  "handle \<Rightarrow> ('a, 'b, 'z) ep_state_scheme \<Rightarrow> ('a, 'b, 'z) ep_state_scheme \<Rightarrow> bytes" where
  "bytes_between h w w' = stream_bytes h (drop (length (net_log w)) (net_log w'))"

text \<open>
  \<open>send_run iroh f bs n j\<close>: the send block, suspended as \<open>f\<close>, ends with \<open>j\<close> after \<open>n\<close>
  resumptions that hand \<open>bs\<close> to the stream.
\<close>

inductive send_run :: "iroh_api \<Rightarrow> ('a, 'b) future \<Rightarrow> bytes \<Rightarrow> nat \<Rightarrow> joined \<Rightarrow> bool" for iroh where
  last: "poll_send iroh event ix h data written partial send_all chunk_size (w :: ('a, 'b) nif_state) = Some (Inr j, w')
    \<Longrightarrow> send_run iroh (Fut_send ix h data written partial send_all chunk_size) (bytes_between h w w') 1 j"
| more: "poll_send iroh event ix h data written partial send_all chunk_size (w :: ('a, 'b) nif_state) = Some (Inl f, w')
    \<Longrightarrow> send_run iroh f bs n j
    \<Longrightarrow> send_run iroh (Fut_send ix h data written partial send_all chunk_size) (bytes_between h w w' @ bs) (Suc n) j"

lemma stream_bytes_append [simp]: "stream_bytes h (es @ fs) = stream_bytes h es @ stream_bytes h fs"
  by (induction h es rule: stream_bytes.induct) simp_all

lemma net_log_drop_send:
  "\<exists>es. net_log (drop_send ix h data w) = net_log w @ es \<and> stream_bytes h es = []"
  by (auto simp: drop_send_def SendLease_drop_def on_stream_def SendLease_release_def QueueGuard_drop_def log_net_def
      set_stream_def Let_def split: option.splits)

lemma bytes_between_log [simp]: "bytes_between h w (log_net es w) = stream_bytes h es"
  by (simp add: bytes_between_def log_net_def)

lemma bytes_between_drop_send [simp]:
  "bytes_between h w (drop_send ix h data (log_net es w)) = stream_bytes h es"
  "bytes_between h w (drop_send ix h data (log_net es (set_stream i self w))) = stream_bytes h es"
  "bytes_between h w (drop_send ix h data (set_stream i self w)) = []"
  "bytes_between h w (drop_send ix h data w) = []"
  using net_log_drop_send [of ix h data "log_net es w"] net_log_drop_send [of ix h data w]
    net_log_drop_send [of ix h data "log_net es (set_stream i self w)"] net_log_drop_send [of ix h data "set_stream i self w"]
  by (auto simp: bytes_between_def log_net_def set_stream_def)


text \<open>One resumption from a position of the loop.\<close>

lemma unat_partial_add:
  assumes "length data < 2 ^ 63" and "send_pos data written partial chunk_size"
    and "unat n \<le> send_stop data written chunk_size - (unat written + unat partial)"
  shows "unat (partial + n) = unat partial + unat n"
proof -
  have "unat partial + unat n < 2 ^ 64"
    using assms send_stop_le [of data written chunk_size] 
    unfolding send_pos_def by (simp; linarith)
  then show ?thesis by (simp add: unat_word_ariths)
qed

lemma send_resumption:
  assumes "length data < 2 ^ 63" and pos: "send_pos data written partial chunk_size"
    and poll: "poll_send iroh event ix h data written partial True chunk_size w = Some (r, w')"
  shows "(\<exists>written' partial'. r = Inl (Fut_send ix h data written' partial' True chunk_size)
       \<and> send_pos data written' partial' chunk_size
       \<and> unat written + unat partial < unat written' + unat partial'
       \<and> bytes_between h w w' = take (unat written' + unat partial' - (unat written + unat partial))
           (drop (unat written + unat partial) data))
    \<or> (r = Inr (Join_result (Inr (R_count (data_len data))))
       \<and> bytes_between h w w' = drop (unat written + unat partial) data)
    \<or> (\<exists>e. r = Inr (Join_result (Inl e)) \<and> bytes_between h w w' = [])"
proof (cases "\<exists>n. event = E_write (Some n)")
  case False
  then show ?thesis
    using poll by (auto simp: poll_send_def poll_send_reset_def finish_block_def Let_def
        split: lib_event.splits option.splits if_splits)
next
  case True
  then obtain n where n: "poll_send_all n ix h data written partial chunk_size w = Some (r, w')"
    using poll by (auto simp: poll_send_def)
  let ?p = "unat written + unat partial" and ?stop = "send_stop data written chunk_size"
  have stop: "?p < ?stop" "written = 0 \<or> unat chunk_size < length data"
    using pos by (simp_all add: send_pos_def)
  have bound: "n \<noteq> 0" "unat n \<le> ?stop - ?p"
    using n by (auto simp: send_all_resumption [OF assms(1,2)] split: if_splits)
  note res = n [unfolded send_all_resumption [OF assms(1,2)]]
  consider (piece) "?p + unat n < ?stop" | (chunk) "?p + unat n = ?stop" "?stop < length data"
    | (all) "?p + unat n = ?stop" "?stop = length data"
    using bound(2) stop send_stop_le [of data written chunk_size] by linarith
  then show ?thesis
  proof cases
    case piece
    then show ?thesis
      using res bound stop unat_partial_add [OF assms(1,2) bound(2)]
      by (auto simp: send_pos_def add.assoc unsigned_eq_0_iff)
  next
    case chunk
    have next_pos: "unat (of_nat ?stop :: usize) = ?stop"
      using chunk(2) assms(1) by (intro unat_of_nat_usize) simp
    have "unat chunk_size < length data" "chunk_size \<noteq> 0"
      using chunk stop by (auto simp: send_stop_def min_def split: if_splits)
    then have "send_pos data (of_nat ?stop) 0 chunk_size"
      using chunk(2) unfolding send_pos_def send_stop_def [of data "of_nat _"] next_pos
      by (simp add: unat_gt_0)
    moreover have "unat n = ?stop - ?p" using chunk(1) by simp
    ultimately show ?thesis
      using res bound chunk stop(1) next_pos by auto
  next
    case all
    then show ?thesis
      using res bound by (auto simp: finish_block_def unsigned_eq_0_iff)
  qed
qed


lemma send_run_from:
  assumes "send_run iroh f bs n j" and "f = Fut_send ix h data written partial True chunk_size"
    and "length data < 2 ^ 63" and "send_pos data written partial chunk_size"
  shows "prefix bs (drop (unat written + unat partial) data)
    \<and> n + (unat written + unat partial) \<le> length data
    \<and> (case j of Join_result (Inr v) \<Rightarrow> v = R_count (data_len data) \<and> bs = drop (unat written + unat partial) data
        | Join_result (Inl _) \<Rightarrow> True | _ \<Rightarrow> False)"
  using assms
proof (induction arbitrary: written partial rule: send_run.induct)
  case (last event ix' h' data' written' partial' send_all' chunk_size' w j w')
  have "unat written + unat partial < length data"
    using last.prems(3) send_stop_le [of data written chunk_size] unfolding send_pos_def by linarith
  then show ?case
    using last.prems(1) send_resumption [OF last.prems(2,3), of iroh event ix h w "Inr j" w'] last.hyps by auto
next
  case (more event ix' h' data' written' partial' send_all' chunk_size' w f w' bs n j)
  let ?p = "unat written + unat partial"
  obtain written1 partial1 where f: "f = Fut_send ix h data written1 partial1 True chunk_size"
      "send_pos data written1 partial1 chunk_size" "?p < unat written1 + unat partial1"
      "bytes_between h w w' = take (unat written1 + unat partial1 - ?p) (drop ?p data)"
    using send_resumption [OF more.prems(2,3), of iroh event ix h w "Inl f" w'] more.hyps(1) more.prems(1)
    by auto
  let ?q = "unat written1 + unat partial1"
  have split: "drop ?p data = bytes_between h w w' @ drop ?q data"
    using f(3) unfolding f(4) by (metis append_take_drop_id drop_drop le_add_diff_inverse2 less_imp_le)
  show ?case
    using more.IH [OF f(1) more.prems(2) f(2)] f(3) more.prems(1)
    by (auto simp: split split: joined.splits sum.splits)
qed

text \<open>
  C11. A whole send delivers the data in order: whatever the chunk size, however the transport
  splits the writes, and however the loop is interleaved with other steps, the bytes handed
  to the stream are a prefix of the data; the block reports success only after all of it,
  with the length of the data; and it ends after at most that many resumptions without
  panicking.
\<close>

theorem send_all_in_order:
  assumes "send_run iroh (Fut_send ix h data 0 0 True chunk_size) bs n j"
    and "data \<noteq> []" and "chunk_size \<noteq> 0" and "length data < 2 ^ 63"
  shows "prefix bs data \<and> n \<le> length data
    \<and> (case j of Join_result (Inr v) \<Rightarrow> v = R_count (data_len data) \<and> bs = data
        | Join_result (Inl _) \<Rightarrow> True | _ \<Rightarrow> False)"
  using send_run_from [OF assms(1) refl assms(4) send_pos_start [OF assms(2,3)]]
  by (simp split: joined.splits sum.splits)


theorem send_all_in_order_witness:
  "\<exists>bs. send_run demo_iroh (Fut_send 0 30 [1, 2, 3] 0 0 True 2 :: (demo_addr, (bytes, string) builder) future) bs 2
      (Join_result (Inr (R_count 3))) \<and> bs = [1, 2, 3]"
proof -
  let ?w = "demo_send_started" and ?first = "Fut_send 0 30 [1, 2, 3] 0 0 True 2 :: (demo_addr, (bytes, string) builder) future"
  obtain w2 where w2: "poll_send demo_iroh (E_write (Some 2)) 0 30 [1, 2, 3] 0 0 True 2 ?w
      = Some (Inl (Fut_send 0 30 [1, 2, 3] 2 0 True 2), w2)"
    by (simp add: poll_send_def poll_send_all_def slice_def chunk_end_def data_len_def usize_of_def min_def)
  obtain w3 where w3: "poll_send demo_iroh (E_write (Some 1)) 0 30 [1, 2, 3] 2 0 True 2 ?w
      = Some (Inr (Join_result (Inr (R_count 3))), w3)"
    by (simp add: poll_send_def poll_send_all_def slice_def chunk_end_def data_len_def usize_of_def min_def finish_block_def Let_def)
  have run: "send_run demo_iroh ?first (bytes_between 30 ?w w2 @ bytes_between 30 ?w w3) 2 (Join_result (Inr (R_count 3)))"
    using send_run.more [OF w2 send_run.last [OF w3]] by (simp add: numeral_2_eq_2)
  then show ?thesis using send_all_in_order [OF run] by auto
qed

end
