(* ===== verification/Blocks.thy ===== *)
theory Blocks
  imports Send_Loop Task_Rules
begin

text \<open>
  What the parameters of every suspended block satisfy, in every reachable state: the guards
  of the NIF that started it still hold, and a send stands at a position of its loop.
\<close>

fun block_ok :: "('a, 'b) future \<Rightarrow> bool" where
  "block_ok (Fut_send _ _ data written partial _ chunk_size) =
     (data \<noteq> [] \<and> chunk_size \<noteq> 0 \<and> (length data < 2 ^ 63 \<longrightarrow> send_pos data written partial chunk_size))"
| "block_ok (Fut_recv _ _ max_bytes) = (0 < max_bytes \<and> max_bytes \<le> MAX_RECV_BYTES)"
| "block_ok (Fut_connect _ _ alpn _ _) = (\<not> connect_alpn_invalid alpn)"
| "block_ok (Fut_datagram_send _ _ data _) = (data \<noteq> [])"
| "block_ok _ = True"

lemma poll_block_ok:
  assumes "poll iroh event f w = Some (Inl f', w')" and "block_ok f"
  shows "block_ok f'"
proof (cases f)
  case (Fut_send ix h data written partial send_all chunk_size)
  then have poll: "poll_send iroh event ix h data written partial send_all chunk_size w = Some (Inl f', w')"
    using assms(1) by (simp add: poll_def)
  then have all: "send_all"
    by (auto simp: poll_send_def poll_send_once_def poll_send_reset_def Let_def
        split: lib_event.splits option.splits if_splits)
  obtain written' partial' where f': "f' = Fut_send ix h data written' partial' True chunk_size"
    using poll all by (auto simp: poll_send_def poll_send_all_def poll_send_reset_def Let_def
        split: lib_event.splits option.splits if_splits)
  show ?thesis
    using assms(2) send_resumption [of data written partial chunk_size iroh event ix h w "Inl f'" w'] poll all f'
    by (auto simp: Fut_send)
qed (use assms in \<open>auto simp: poll_def poll_close_def poll_closing_def poll_online_def poll_connect_def poll_accept_def
      poll_accepting_def poll_closed_def poll_stream_def poll_recv_def poll_datagram_send_def poll_datagram_recv_def
      case_prod_beta Let_def split: lib_event.splits option.splits if_splits bool.splits\<close>)

interpretation blocks: task_rules "\<lambda>_. block_ok" "\<lambda>_ _. True" "\<lambda>_ _. True"
  by unfold_locales (auto simp: send_pos_start word_neq_0_conv intro: poll_block_ok)

text \<open>
  C36. A send never gets stuck and never panics: in every reachable state a running send of
  less than \<open>2^63\<close> bytes accepts the next byte the transport takes, and no answer of the
  transport makes it slice out of range or wrap around.
\<close>

theorem send_live:
  assumes "reachable api w" and "i < length (rt_tasks w)"
    and "tk_spawned (rt_tasks w ! i) = Sp_running (Fut_send ix h data written partial send_all chunk_size)"
    and "length data < 2 ^ 63"
  shows "(\<exists>r w'. poll iroh (E_write (Some 1)) (Fut_send ix h data written partial send_all chunk_size) w = Some (r, w'))
    \<and> (\<nexists>event w'. poll iroh event (Fut_send ix h data written partial send_all chunk_size) w
         = Some (Inr Join_panicked, w'))"
proof -
  have pos: "send_pos data written partial chunk_size" "data \<noteq> []" "chunk_size \<noteq> 0"
    using blocks.running_block [OF assms(1-3)] assms(4) by auto
  have "0 < send_stop data written chunk_size - (unat written + unat partial)"
    using pos(1) by (simp add: send_pos_def)
  moreover obtain chunk where once: "slice data 0 (min chunk_size (data_len data)) = Some chunk"
    using send_once_slice by blast
  moreover have "poll_send iroh event ix h data written partial send_all chunk_size w \<noteq> Some (Inr Join_panicked, w')"
    for event w'
    using send_resumption [OF assms(4) pos(1), of iroh event ix h w "Inr Join_panicked" w']
    by (cases send_all) (auto simp: poll_send_def poll_send_once_def poll_send_reset_def once Let_def
        split: lib_event.splits option.splits if_splits)
  ultimately show ?thesis
    by (cases send_all)
       (auto simp: poll_def poll_send_def poll_send_once_def once send_all_resumption [OF assms(4) pos(1)] finish_block_def
          Let_def not_less Suc_le_eq)
qed

theorem send_live_witness:
  "\<exists>r w'. poll demo_iroh (E_write (Some 1)) (Fut_send 0 30 [1, 2, 3] 0 0 True 2) demo_send_started = Some (r, w')"
proof -
  have task: "3 < length (rt_tasks demo_send_started)"
      "tk_spawned (rt_tasks demo_send_started ! 3) = Sp_running (Fut_send 0 30 [1, 2, 3] 0 0 True 2)"
    by (simp_all add: demo_send_started_eq demo_stream_opened_eq demo_connected_eq demo_endpoint_task_def)
  then show ?thesis using send_live [OF demo_send_started_reachable task, of demo_iroh] by simp
qed

end
