(* ===== verification/Halves.thy ===== *)
theory Halves
  imports World_Refinement Demo
begin

text \<open>
  The life of a stream resource. Forgetting everything but the table of streams turns each
  step of the library into steps of the resources in it; a resource moves only by leasing a
  half, giving it back, resetting, stopping, finishing, closing and consuming a notification.
  Each of these is one step here, as in \<open>World\<close>; \<open>stream_ok\<close> is an invariant of these steps, and
  \<open>Lease_Race\<close> shows a state outside it that the moves of a reset and of a return reach when they
  interleave.
\<close>

section \<open>Steps of one resource and of the table\<close>

definition stream_finished :: "stream_resource \<Rightarrow> stream_resource" where
  "stream_finished s = s\<lparr>sr_send_closed := True, sr_send := snd (mutex_take (sr_send s))\<rparr>"

definition stream_closed :: "iroh_api \<Rightarrow> stream_resource \<Rightarrow> stream_resource" where
  "stream_closed iroh s =
     snd (StreamResource_request_stop iroh 0 (snd (StreamResource_request_reset iroh 0 (s\<lparr>sr_released := True\<rparr>))))"

inductive half_step :: "stream_resource \<Rightarrow> stream_resource \<Rightarrow> bool" where
  lease_send: "half_step s (snd (take_send op s))"
| lease_recv: "half_step s (snd (take_recv op s))"
| return_send: "half_step s (snd (SendLease_release h s))"
| return_recv: "half_step s (snd (RecvLease_release h s))"
| reset: "code \<le> MAX_ABORT_CODE \<Longrightarrow> half_step s (snd (StreamResource_request_reset iroh code s))"
| stop: "code \<le> MAX_ABORT_CODE \<Longrightarrow> half_step s (snd (StreamResource_request_stop iroh code s))"
| finish: "\<not> sr_send_busy s \<Longrightarrow> half_step s (stream_finished s)"
| close: "half_step s (stream_closed iroh s)"
| reset_seen: "half_step s (s\<lparr>sr_reset_notify := False\<rparr>)"
| stop_seen: "half_step s (s\<lparr>sr_stop_notify := False\<rparr>)"
| collected: "sr_released s \<Longrightarrow> half_step s (s\<lparr>sr_dropped := True\<rparr>)"

inductive table_step :: "stream_resource list \<Rightarrow> stream_resource list \<Rightarrow> bool" where
  move: "half_step (ss ! i) s \<Longrightarrow> table_step ss (ss[i := s])"
| new: "send \<noteq> None \<or> recv \<noteq> None \<Longrightarrow> table_step ss (ss @ [StreamResource_new send recv c i owner])"

lemma moves: "half_step\<^sup>*\<^sup>* (ss ! i) s \<Longrightarrow> table_step\<^sup>*\<^sup>* ss (ss[i := s])"
proof (induction rule: rtranclp_induct)
  case base
  show ?case by simp
next
  case (step y z)
  show ?case
  proof (cases "i < length ss")
    case True
    then show ?thesis
      using step table_step.move [of "ss[i := y]" i z] by simp
  qed (simp add: list_update_beyond)
qed

section \<open>The library moves the table\<close>

lemma table_updates [simp]:
  "st_streams (set_endpoint e self w) = st_streams w" "st_streams (log_net es w) = st_streams w"
  "st_streams (release_reserved_identity x w) = st_streams w"
  "st_streams (snd (reserve_identity x w)) = st_streams w"
  "st_streams (EndpointResource_release_identity e w) = st_streams w"
  "st_streams (snd (EndpointResource_abort e w)) = st_streams w"
  "st_streams (EndpointResource_drop e w) = st_streams w"
  "st_streams (EndpointResource_down e w) = st_streams w"
  "st_streams (AcceptPermit_drop e w) = st_streams w"
  by (simp_all add: set_endpoint_def log_net_def release_reserved_identity_def reserve_identity_def
      EndpointResource_release_identity_def EndpointResource_abort_def EndpointResource_drop_def
      EndpointResource_down_def AcceptPermit_drop_def Let_def split: option.splits prod.splits)

lemma table_connection [simp]:
  "st_streams (set_connection i conn w) = st_streams w"
  "st_streams (snd (ConnectionResource_close i w)) = st_streams w"
  "st_streams (ConnectionResource_drop i w) = st_streams w"
  "st_streams (ConnectionResource_down i w) = st_streams w"
  "st_streams (snd (wrap_connection iroh h e owner role operation w)) = st_streams w"
  by (simp_all add: set_connection_def ConnectionResource_close_def ConnectionResource_drop_def
      ConnectionResource_down_def wrap_connection_def Let_def split: prod.splits bool.splits)

lemma table_rt [simp]:
  "st_streams (set_task i g w) = st_streams w"
  "st_streams (snd (runtime builds w)) = st_streams w"
  "st_streams (snd (spawn_operation caller r sv f w)) = st_streams w"
  "st_streams (snd (operation_cancel i w)) = st_streams w"
  "st_streams (snd (should_complete i w)) = st_streams w"
  "st_streams (snd (bind_result_message caller c bound w)) = st_streams w"
  by (simp_all add: set_task_def runtime_def spawn_operation_def operation_cancel_def should_complete_def
      bind_result_message_def Let_def split: prod.splits option.splits joined.splits)

lemma table_start [simp]: "st_streams (snd (start_endpoint_operation builds caller r name f w)) = st_streams w"
  by (simp add: start_endpoint_operation_def case_prod_beta split: sum.splits)

lemma table_io [simp]:
  "st_streams (QueueGuard_new n w) = st_streams w" "st_streams (QueueGuard_drop n w) = st_streams w"
  "st_streams (DatagramPermit_drop c b w) = st_streams w" "st_streams (drop_datagram_send c data w) = st_streams w"
  by (simp_all add: QueueGuard_new_def QueueGuard_drop_def DatagramPermit_drop_def drop_datagram_send_def Let_def)

lemma table_set_stream [simp]: "st_streams (set_stream i s w) = (st_streams w)[i := s]"
  by (simp add: set_stream_def)

lemma table_on_stream [simp]: "st_streams (on_stream i f w) = (st_streams w)[i := snd (f (st_streams w ! i))]"
  by (simp add: on_stream_def case_prod_beta)

lemma table_leases:
  "table_step\<^sup>*\<^sup>* (st_streams w) (st_streams (SendLease_drop i h w))"
  "table_step\<^sup>*\<^sup>* (st_streams w) (st_streams (RecvLease_drop i h w))"
  "table_step\<^sup>*\<^sup>* (st_streams w) (st_streams (drop_send i h data w))"
  by (auto simp: SendLease_drop_def RecvLease_drop_def drop_send_def
      intro!: r_into_rtranclp table_step.move half_step.intros)

lemma table_close: "table_step\<^sup>*\<^sup>* (st_streams w) (st_streams (snd (StreamResource_close iroh i w)))"
proof -
  have "st_streams (snd (StreamResource_close iroh i w)) = (if sr_released (st_streams w ! i) then st_streams w
      else (st_streams w)[i := stream_closed iroh (st_streams w ! i)])"
    by (cases "i < length (st_streams w)")
       (simp_all add: StreamResource_close_def stream_closed_def Let_def list_update_beyond)
  then show ?thesis by (auto intro!: r_into_rtranclp table_step.move half_step.close)
qed


lemma close_released: "i < length (st_streams w) \<Longrightarrow> sr_released (st_streams (snd (StreamResource_close iroh i w)) ! i)"
  by (simp add: StreamResource_close_def StreamResource_request_reset_def StreamResource_request_stop_def Let_def
      case_prod_beta split: option.splits)

lemma table_drop: "table_step\<^sup>*\<^sup>* (st_streams w) (st_streams (StreamResource_drop iroh i w))"
proof (cases "i < length (st_streams w)")
  case True
  let ?w1 = "snd (StreamResource_close iroh i w)"
  have "table_step\<^sup>*\<^sup>* (st_streams ?w1) (st_streams (StreamResource_drop iroh i w))"
    using close_released [OF True]
    by (auto simp: StreamResource_drop_def Let_def intro!: r_into_rtranclp table_step.move half_step.collected)
  then show ?thesis using table_close by (rule rtranclp_trans [rotated])
next
  case False
  then have "st_streams (StreamResource_drop iroh i w) = st_streams (snd (StreamResource_close iroh i w))"
    by (simp add: StreamResource_drop_def StreamResource_close_def Let_def list_update_beyond)
  then show ?thesis using table_close by metis
qed

lemma table_wrap:
  assumes "send \<noteq> None \<or> recv \<noteq> None"
  shows "table_step\<^sup>*\<^sup>* (st_streams w) (st_streams (snd (wrap_stream iroh send recv c owner operation w)))"
proof -
  let ?w1 = "\<lambda>n. w\<lparr>st_active_streams := st_active_streams w + 1,
      st_streams := st_streams w @ [StreamResource_new send recv c n owner]\<rparr>"
  have new: "table_step (st_streams w) (st_streams (?w1 n))" for n
    using table_step.new [OF assms] by simp
  have "table_step\<^sup>*\<^sup>* (st_streams (?w1 n))
      (st_streams (StreamResource_drop iroh i (snd (StreamResource_close iroh i (?w1 n)))))" for n i
    by (rule rtranclp_trans [OF table_close table_drop])
  then show ?thesis
    using new by (auto simp: wrap_stream_def Let_def split: option.splits intro: converse_rtranclp_into_rtranclp)
qed

lemma table_drops:
  "table_step\<^sup>*\<^sup>* (st_streams w) (st_streams (drop_future f w))"
  "table_step\<^sup>*\<^sup>* (st_streams w) (st_streams (drop_joined iroh j w))"
  "table_step\<^sup>*\<^sup>* (st_streams w) (st_streams (drop_spawned iroh sp w))"
proof -
  show j: "table_step\<^sup>*\<^sup>* (st_streams w) (st_streams (drop_joined iroh j w))" for j
    by (auto simp: drop_joined_def drop_value_def intro: table_drop
        split: option.splits joined.splits sum.splits res_val.splits)
  show f: "table_step\<^sup>*\<^sup>* (st_streams w) (st_streams (drop_future f w))" for f
    by (auto simp: drop_future_def intro: table_leases split: future.splits)
  show "table_step\<^sup>*\<^sup>* (st_streams w) (st_streams (drop_spawned iroh sp w))"
    by (auto simp: drop_spawned_def intro: j f split: spawned.splits)
qed

lemma table_move:
  "half_step (ss ! i) s \<Longrightarrow> table_step\<^sup>*\<^sup>* ss (ss[i := s])"
  by (blast intro: table_step.move)

lemma table_on: "(\<And>s. half_step s (snd (f s))) \<Longrightarrow> table_step\<^sup>*\<^sup>* (st_streams w) (st_streams (on_stream i f w))"
  by (simp add: table_move)

lemma table_update_trans:
  "half_step (st_streams w ! i) s \<Longrightarrow> table_step\<^sup>*\<^sup>* ((st_streams w)[i := s]) ss \<Longrightarrow> table_step\<^sup>*\<^sup>* (st_streams w) ss"
  by (blast intro: table_move rtranclp_trans)

lemma table_return:
  assumes "half_step (st_streams w ! i) s" and "st_streams w' = (st_streams w)[i := s]"
  shows "table_step\<^sup>*\<^sup>* (st_streams w) (st_streams (drop_send i h data w'))"
    and "table_step\<^sup>*\<^sup>* (st_streams w) (st_streams (RecvLease_drop i h w'))"
  using table_update_trans [OF assms(1)] table_leases [of w'] by (simp_all add: assms(2))

lemma table_taken:
  "table_step\<^sup>*\<^sup>* (st_streams w) ((st_streams w)[i := snd (take_send op (st_streams w ! i))])"
  "table_step\<^sup>*\<^sup>* (st_streams w) ((st_streams w)[i := snd (take_recv op (st_streams w ! i))])"
  by (simp_all add: table_move half_step.intros)

lemma table_start_send:
  "table_step\<^sup>*\<^sup>* (st_streams w) (st_streams (snd (start_stream_send builds caller r i data send_all chunk_size w)))"
proof -
  let ?s = "snd (take_send At_stream_send (st_streams w ! i))"
  have "table_step\<^sup>*\<^sup>* (st_streams w) (st_streams (drop_send i h data
      (snd (start_endpoint_operation builds caller r At_stream_send f (QueueGuard_new n (set_stream i ?s w))))))" for h f n
    by (rule table_return(1) [OF half_step.lease_send]) simp
  then show ?thesis
    by (auto simp: start_stream_send_def case_prod_beta Let_def table_taken split: sum.splits)
qed

lemma table_start_recv:
  "table_step\<^sup>*\<^sup>* (st_streams w) (st_streams (snd (stream_recv_start builds caller r i max_bytes w)))"
proof -
  let ?s = "snd (take_recv At_stream_recv (st_streams w ! i))"
  have "table_step\<^sup>*\<^sup>* (st_streams w) (st_streams (RecvLease_drop i h
      (snd (start_endpoint_operation builds caller r At_stream_recv f (set_stream i ?s w)))))" for h f
    by (rule table_return(2) [OF half_step.lease_recv]) simp
  then show ?thesis
    by (auto simp: stream_recv_start_def case_prod_beta Let_def table_taken split: sum.splits)
qed

lemma table_ends:
  "table_step\<^sup>*\<^sup>* (st_streams w) (st_streams (snd (stream_finish iroh i w)))"
  "table_step\<^sup>*\<^sup>* (st_streams w) (st_streams (snd (stream_reset iroh i code w)))"
  "table_step\<^sup>*\<^sup>* (st_streams w) (st_streams (snd (stream_stop iroh i code w)))"
  "table_step\<^sup>*\<^sup>* (st_streams w) (st_streams (snd (stream_abort iroh i code w)))"
proof -
  have "st_streams (snd (stream_finish iroh i w)) = (if sr_send_busy (st_streams w ! i) then st_streams w
      else (st_streams w)[i := stream_finished (st_streams w ! i)])"
    by (simp add: stream_finish_def stream_finished_def Let_def case_prod_beta split: option.splits)
  then show "table_step\<^sup>*\<^sup>* (st_streams w) (st_streams (snd (stream_finish iroh i w)))"
    by (simp add: table_move half_step.finish)
  show "table_step\<^sup>*\<^sup>* (st_streams w) (st_streams (snd (stream_reset iroh i code w)))"
    "table_step\<^sup>*\<^sup>* (st_streams w) (st_streams (snd (stream_stop iroh i code w)))"
    by (auto simp: stream_reset_def stream_stop_def validate_abort_code_def not_less
        intro!: table_move half_step.reset half_step.stop split: sum.splits if_splits)
  show "table_step\<^sup>*\<^sup>* (st_streams w) (st_streams (snd (stream_abort iroh i code w)))"
  proof (cases "code \<le> MAX_ABORT_CODE")
    case True
    let ?w1 = "on_stream i (StreamResource_request_reset iroh code) w"
    let ?w2 = "on_stream i (StreamResource_request_stop iroh code) ?w1"
    have "table_step\<^sup>*\<^sup>* (st_streams w) (st_streams ?w1)" "table_step\<^sup>*\<^sup>* (st_streams ?w1) (st_streams ?w2)"
      using True by (blast intro: table_on half_step.reset half_step.stop)+
    moreover have "snd (stream_abort iroh i code w) = snd (StreamResource_close iroh i ?w2)"
      using True by (simp add: stream_abort_def)
    ultimately show ?thesis
      using table_close [of ?w2 iroh i] by (metis rtranclp_trans)
  qed (simp add: stream_abort_def not_le)
qed


lemma table_poll:
  assumes "poll iroh event f w = Some (r, w')"
  shows "table_step\<^sup>*\<^sup>* (st_streams w) (st_streams w')"
proof -
  have halves: "stream_halves kind hs = (send, recv) \<Longrightarrow> send \<noteq> None \<or> recv \<noteq> None" for kind hs send recv
    by (cases kind; cases hs) auto
  have seen: "half_step (st_streams w ! i) ((st_streams w ! i)\<lparr>sr_reset_notify := False\<rparr>)"
    "half_step (st_streams w ! i) ((st_streams w ! i)\<lparr>sr_stop_notify := False\<rparr>)" for i
    by (rule half_step.intros)+
  have logged: "table_step\<^sup>*\<^sup>* (st_streams w) (st_streams (drop_send i h data (log_net es w)))" for i h data es
    using table_leases(3) [where w = "log_net es w"] by simp
  show ?thesis
    using assms
    by (auto simp: poll_def poll_close_def poll_closing_def poll_online_def poll_connect_def poll_accept_def
        poll_accepting_def poll_closed_def poll_stream_def poll_send_def poll_send_all_def poll_send_once_def
        poll_send_reset_def poll_recv_def poll_datagram_send_def poll_datagram_recv_def case_prod_beta Let_def
        split: future.splits lib_event.splits option.splits if_splits bool.splits
        intro!: table_wrap halves prod.collapse [symmetric] logged table_leases table_return(1) [OF seen(1)] table_return(2) [OF seen(2)])
qed

lemma endpoint_step_table: "endpoint_step w w' \<Longrightarrow> st_streams w' = st_streams w"
proof (induction rule: endpoint_step.induct)
  case (operation_start w builds caller r kind delay)
  show ?case by (simp add: operation_start_def case_prod_beta Let_def split: sum.splits)
next
  case (endpoint_bind_start w builds api bind_addr_ok public_id caller r key options)
  show ?case by (simp add: endpoint_bind_start_def case_prod_beta Let_def split: sum.splits)
qed (simp_all add: endpoint_close_start_def endpoint_await_online_start_def endpoint_abort_def Let_def)

lemma connection_step_table: "connection_step api w w' \<Longrightarrow> st_streams w' = st_streams w"
  by (induction rule: connection_step.induct)
     (auto simp: connection_connect_start_def connection_accept_start_def connection_close_def connection_closed_start_def
        case_prod_beta Let_def split: sum.splits option.splits bool.splits)

lemma stream_step_table: "stream_step w w' \<Longrightarrow> table_step\<^sup>*\<^sup>* (st_streams w) (st_streams w')"
proof (induction rule: stream_step.induct)
  case (stream_send_iodata_start ix w builds caller r iolist expected max_bytes)
  show ?case by (auto simp: stream_send_iodata_start_def table_start_send split: option.splits)
qed (auto simp: stream_start_def stream_send_start_def table_start_send table_start_recv table_ends StreamResource_down_def
       datagram_send_start_def datagram_recv_start_def case_prod_beta Let_def
       intro: table_close table_drop split: sum.splits bool.splits)

lemma task_step_table: "task_step w w' \<Longrightarrow> table_step\<^sup>*\<^sup>* (st_streams w) (st_streams w')"
proof (induction rule: task_step.induct)
  case (poll ix w iroh event w')
  then show ?case
    by (auto simp: task_poll_def dest!: table_poll split: spawned.splits option.splits sum.splits)
next
  case (panic ix w w')
  then show ?case
    by (auto simp: task_panic_def simp del: table_updates intro: table_drops(1) split: spawned.splits future.splits)
next
  case (select ix w w')
  then show ?case by (auto simp: select_result_def split: spawned.splits phase.splits)
next
  case (cancel ix w iroh w')
  then obtain s v where "w' = drop_spawned iroh s v" "st_streams v = st_streams w"
    by (auto simp: task_cancel_def select_cancelled_def split: if_splits)
  then show ?case using table_drops(3) [of v iroh s] by simp
next
  case (complete ix w w')
  then show ?case
    by (auto simp: supervisor_complete_def case_prod_beta split: supervisor.splits phase.splits bool.splits if_splits)
next
  case (bind ix w w')
  then show ?case
    by (auto simp: bind_complete_def case_prod_beta split: supervisor.splits phase.splits bool.splits if_splits)
next
  case (send ix w w')
  then show ?case by (auto simp: send_operation_result_def Let_def split: phase.splits if_splits)
next
  case (finish ix w iroh w')
  then obtain j v where "w' = drop_joined iroh j v" "st_streams v = st_streams w"
    by (auto simp: task_finish_def supervisor_finish_def split: phase.splits)
  then show ?case using table_drops(2) [of v iroh j] by simp
qed

lemma nif_step_table: "nif_step api w w' \<Longrightarrow> table_step\<^sup>*\<^sup>* (st_streams w) (st_streams w')"
  by (cases rule: nif_step.cases)
     (auto dest: endpoint_step_table connection_step_table stream_step_table task_step_table)

lemma nif_steps_table: "(nif_step api)\<^sup>*\<^sup>* w w' \<Longrightarrow> table_step\<^sup>*\<^sup>* (st_streams w) (st_streams w')"
  by (induction rule: rtranclp_induct) (auto dest: nif_step_table)


section \<open>What holds of every stream\<close>

text \<open>
  A half is in its slot only while it is neither leased nor closed; a released stream has
  both halves closed; a pending notification comes with a closed half and a code that fits a
  QUIC variable-length integer.
\<close>

definition stream_ok :: "stream_resource \<Rightarrow> bool" where
  "stream_ok s \<longleftrightarrow>
     \<not> poisoned (sr_send s) \<and> \<not> poisoned (sr_recv s)
     \<and> (content (sr_send s) \<noteq> None \<longrightarrow> \<not> sr_send_busy s \<and> \<not> sr_send_closed s)
     \<and> (content (sr_recv s) \<noteq> None \<longrightarrow> \<not> sr_recv_busy s \<and> \<not> sr_recv_closed s)
     \<and> (sr_released s \<longrightarrow> sr_send_closed s \<and> sr_recv_closed s)
     \<and> (sr_reset_notify s \<longrightarrow> sr_send_closed s \<and> sr_reset_code s \<le> MAX_ABORT_CODE)
     \<and> (sr_stop_notify s \<longrightarrow> sr_recv_closed s \<and> sr_stop_code s \<le> MAX_ABORT_CODE)"

lemmas half_moves =
  take_send_def take_recv_def compare_exchange_def SendLease_release_def RecvLease_release_def
  StreamResource_request_reset_def StreamResource_request_stop_def stream_finished_def stream_closed_def
  case_prod_beta Let_def

lemma half_step_ok: "half_step s s' \<Longrightarrow> stream_ok s \<Longrightarrow> stream_ok s'"
proof (induction rule: half_step.induct)
  case (lease_send s op)
  then show ?case by (auto simp: stream_ok_def half_moves split: option.splits)
next
  case (lease_recv s op)
  then show ?case by (auto simp: stream_ok_def half_moves split: option.splits)
next
  case (close s iroh)
  then show ?case by (auto simp: stream_ok_def half_moves split: option.splits)
qed (auto simp: stream_ok_def half_moves split: option.splits)

text \<open>What a half that is still usable keeps, and what a closed one cannot lose.\<close>

definition send_held :: "stream_resource \<Rightarrow> bool" where
  "send_held s \<longleftrightarrow> content (sr_send s) \<noteq> None \<or> sr_send_busy s"

definition recv_held :: "stream_resource \<Rightarrow> bool" where
  "recv_held s \<longleftrightarrow> content (sr_recv s) \<noteq> None \<or> sr_recv_busy s"

definition stream_later :: "stream_resource \<Rightarrow> stream_resource \<Rightarrow> bool" where
  "stream_later s s' \<longleftrightarrow>
     (sr_send_closed s \<longrightarrow> sr_send_closed s') \<and> (sr_recv_closed s \<longrightarrow> sr_recv_closed s')
     \<and> (sr_released s \<longrightarrow> sr_released s')
     \<and> (send_held s \<and> \<not> sr_send_closed s' \<longrightarrow> send_held s')
     \<and> (recv_held s \<and> \<not> sr_recv_closed s' \<longrightarrow> recv_held s')
     \<and> sr_id s' = sr_id s \<and> sr_connection s' = sr_connection s \<and> sr_owner s' = sr_owner s"

lemma stream_later_refl [simp]: "stream_later s s"
  by (simp add: stream_later_def)

lemma stream_later_trans: "stream_later s t \<Longrightarrow> stream_later t u \<Longrightarrow> stream_later s u"
  by (auto simp: stream_later_def)

lemma half_step_later: "half_step s s' \<Longrightarrow> stream_ok s \<Longrightarrow> stream_later s s'"
  by (induction rule: half_step.induct)
     (auto simp: stream_ok_def stream_later_def send_held_def recv_held_def half_moves split: option.splits)

lemma stream_ok_new: "stream_ok (StreamResource_new send recv c i owner)"
  by (simp add: stream_ok_def StreamResource_new_def)

lemma table_step_ok:
  assumes "table_step ss ss'" and "list_all stream_ok ss"
  shows "list_all stream_ok ss' \<and> (\<forall>i<length ss. i < length ss' \<and> stream_later (ss ! i) (ss' ! i))"
  using assms
proof (induction rule: table_step.induct)
  case (move ss i s)
  then show ?case
  proof (cases "i < length ss")
    case True
    then have "stream_ok (ss ! i)" using move.prems by (simp add: list_all_length)
    then show ?thesis
      using half_step_ok [OF move.hyps] half_step_later [OF move.hyps] move.prems
      by (auto simp: list_all_length nth_update_read)
  qed (simp add: list_update_beyond)
next
  case (new send recv ss c i owner)
  then show ?case by (simp add: nth_append stream_ok_new)
qed

lemma table_steps_ok:
  assumes "table_step\<^sup>*\<^sup>* ss ss'" and "list_all stream_ok ss"
  shows "list_all stream_ok ss' \<and> (\<forall>i<length ss. i < length ss' \<and> stream_later (ss ! i) (ss' ! i))"
  using assms
proof (induction rule: rtranclp_induct)
  case (step y z)
  then show ?case using table_step_ok [OF step.hyps(2)] by (meson stream_later_trans)
qed simp

lemma stream_ok_reachable: "reachable api w \<Longrightarrow> list_all stream_ok (st_streams w)"
proof (induction rule: reachable.induct)
  case (start alive)
  show ?case by (simp add: initial_def)
next
  case (step w w')
  then show ?case using table_steps_ok [OF nif_step_table] by blast
qed


lemma stream_ok_nth: "reachable api w \<Longrightarrow> i < length (st_streams w) \<Longrightarrow> stream_ok (st_streams w ! i)"
  using stream_ok_reachable by (auto simp: list_all_length)

text \<open>
  C12. A half is never lost and a close is final: from any reachable state on, whatever runs, a
  send or receive half that lies in its slot or is leased keeps doing one of the two until it is
  closed; once closed it stays closed, and every later attempt to lease it is answered with
  \<open>closed\<close>.
\<close>

theorem half_never_lost:
  assumes "reachable api w" and "(nif_step api)\<^sup>*\<^sup>* w w'" and "i < length (st_streams w)"
  shows "(send_held (st_streams w ! i) \<longrightarrow> sr_send_closed (st_streams w' ! i) \<or> send_held (st_streams w' ! i))
    \<and> (recv_held (st_streams w ! i) \<longrightarrow> sr_recv_closed (st_streams w' ! i) \<or> recv_held (st_streams w' ! i))
    \<and> (sr_send_closed (st_streams w ! i) \<longrightarrow>
        take_send op (st_streams w' ! i) = (Inl (stream_error op At_closed ''send half is closed''), st_streams w' ! i))
    \<and> (sr_recv_closed (st_streams w ! i) \<longrightarrow>
        take_recv op (st_streams w' ! i) = (Inl (stream_error op At_closed ''receive half is closed''), st_streams w' ! i))"
  using table_steps_ok [OF nif_steps_table [OF assms(2)] stream_ok_reachable [OF assms(1)]] assms(3)
  by (auto simp: stream_later_def take_send_def take_recv_def)

theorem half_never_lost_witness:
  "send_held (st_streams demo_stream_opened ! 0)
    \<and> (sr_send_closed (st_streams demo_send_started ! 0) \<or> send_held (st_streams demo_send_started ! 0))"
proof -
  have "(nif_step demo_api)\<^sup>*\<^sup>* demo_stream_opened demo_send_started"
    unfolding demo_send_started_def
    by (rule r_into_rtranclp, rule nif_step.stream, rule stream_step.stream_send_start)
       (simp add: live_stream_def demo_stream_opened_eq StreamResource_new_def)
  moreover have "0 < length (st_streams demo_stream_opened)" "send_held (st_streams demo_stream_opened ! 0)"
    by (simp_all add: demo_stream_opened_eq StreamResource_new_def send_held_def)
  ultimately show ?thesis using half_never_lost [OF demo_stream_opened_reachable] by blast
qed

text \<open>
  C37. A reset reaches the sender in flight: when a running send is woken by the notification of
  a reset, it resets the stream with the code that was stored and reports that the half was
  reset, given that the library accepts every code of the QUIC range.
\<close>

theorem reset_reaches_sender:
  assumes "reachable api w" and "ix < length (st_streams w)" and "sr_reset_notify (st_streams w ! ix)"
    and varint: "\<And>c. c \<le> MAX_ABORT_CODE \<Longrightarrow> api_varint_from_u64 iroh c = Some c"
  shows "\<exists>w'. poll iroh E_notified (Fut_send ix h data written partial send_all chunk_size) w
      = Some (Inr (Join_result (Inl (stream_error At_stream_send At_peer_aborted ''send half was reset''))), w')
    \<and> net_log w' = net_log w @ [Net_stream_reset h (sr_reset_code (st_streams w ! ix)), Net_send_drop h]"
proof -
  have "sr_reset_code (st_streams w ! ix) \<le> MAX_ABORT_CODE" "sr_send_closed (st_streams w ! ix)"
    using stream_ok_nth [OF assms(1,2)] assms(3) by (auto simp: stream_ok_def)
  then show ?thesis
    using assms(2,3)
    by (simp add: poll_def poll_send_def poll_send_reset_def varint finish_block_def drop_send_def SendLease_drop_def
        on_stream_def SendLease_release_def QueueGuard_drop_def set_stream_def log_net_def Let_def)
qed

lemma demo_varint: "c \<le> MAX_ABORT_CODE \<Longrightarrow> api_varint_from_u64 demo_iroh c = Some c"
proof -
  assume "c \<le> MAX_ABORT_CODE"
  moreover have "(push_bit 62 1 - 1 :: u64) < push_bit 62 1" by simp
  ultimately have "c < push_bit 62 1" unfolding MAX_ABORT_CODE_def by (rule order.strict_trans1)
  then show ?thesis by (simp add: demo_iroh_def)
qed

definition demo_reset :: demo_state where
  "demo_reset = snd (stream_reset demo_iroh 0 9 demo_send_started)"

lemma demo_reset_reachable: "reachable demo_api demo_reset"
  unfolding demo_reset_def
  by (rule reachable.step [OF demo_send_started_reachable], rule nif_step.stream, rule stream_step.stream_reset)
     (simp add: live_stream_def demo_send_started_eq StreamResource_new_def)

theorem reset_reaches_sender_witness:
  "\<exists>w'. poll demo_iroh E_notified (Fut_send 0 30 [1, 2, 3] 0 0 True 2) demo_reset
      = Some (Inr (Join_result (Inl (stream_error At_stream_send At_peer_aborted ''send half was reset''))), w')
    \<and> net_log w' = net_log demo_reset @ [Net_stream_reset 30 9, Net_send_drop 30]"
proof -
  have "0 < length (st_streams demo_reset)" "sr_reset_notify (st_streams demo_reset ! 0)"
    "sr_reset_code (st_streams demo_reset ! 0) = 9"
    by (simp_all add: demo_reset_def stream_reset_def validate_abort_code_def demo_varint MAX_ABORT_CODE_def
        demo_send_started_eq StreamResource_request_reset_def StreamResource_new_def Let_def)
  then show ?thesis
    using reset_reaches_sender [OF demo_reset_reachable _ _ demo_varint, of 0 30 "[1, 2, 3]" 0 0 True 2] by auto
qed

lemma request_resource:
  "snd (StreamResource_request_reset iroh code s) = s\<lparr>sr_reset_code := code, sr_send_closed := True,
     sr_reset_notify := True, sr_send := snd (mutex_take (sr_send s))\<rparr>"
  "snd (StreamResource_request_stop iroh code s) = s\<lparr>sr_stop_code := code, sr_recv_closed := True,
     sr_stop_notify := True, sr_recv := snd (mutex_take (sr_recv s))\<rparr>"
  by (simp_all add: StreamResource_request_reset_def StreamResource_request_stop_def case_prod_beta Let_def
      split: option.splits)

lemma stream_abort_streams:
  assumes "ix < length (st_streams w)" and "\<not> sr_released (st_streams w ! ix)" and "code \<le> MAX_ABORT_CODE"
  shows "st_streams (snd (stream_abort iroh ix code w)) = (st_streams w)[ix := stream_closed iroh
    (snd (StreamResource_request_stop iroh code (snd (StreamResource_request_reset iroh code (st_streams w ! ix)))))]"
  using assms leD [OF assms(3)] by (simp add: stream_abort_def StreamResource_close_def stream_closed_def request_resource Let_def)

text \<open>
  C38. An abort loses its code on a half in flight: \<open>stream_abort\<close> stores the caller's code and
  then closes the stream, which overwrites it with 0; a send that is running resets its stream
  with code 0, whatever code the caller gave. A half in its slot is reset with the caller's
  code.
\<close>

theorem abort_code_in_flight:
  assumes "reachable api w" and "ix < length (st_streams w)" and "\<not> sr_released (st_streams w ! ix)"
    and "sr_send_busy (st_streams w ! ix)" and "code \<le> MAX_ABORT_CODE"
    and varint: "\<And>c. c \<le> MAX_ABORT_CODE \<Longrightarrow> api_varint_from_u64 iroh c = Some c"
  shows "\<exists>w'. poll iroh E_notified (Fut_send ix h data written partial send_all chunk_size)
        (snd (stream_abort iroh ix code w))
      = Some (Inr (Join_result (Inl (stream_error At_stream_send At_peer_aborted ''send half was reset''))), w')
    \<and> net_log w' = net_log (snd (stream_abort iroh ix code w)) @ [Net_stream_reset h 0, Net_send_drop h]"
proof -
  let ?w = "snd (stream_abort iroh ix code w)"
  have "ix < length (st_streams ?w)" "sr_reset_notify (st_streams ?w ! ix)" "sr_reset_code (st_streams ?w ! ix) = 0"
    "sr_send_closed (st_streams ?w ! ix)"
    using assms(2,3,5)
    by (simp_all add: stream_abort_streams stream_closed_def request_resource)
  then show ?thesis
    using varint [of 0]
    by (simp add: poll_def poll_send_def poll_send_reset_def finish_block_def drop_send_def SendLease_drop_def
        on_stream_def SendLease_release_def QueueGuard_drop_def set_stream_def log_net_def Let_def)
qed

theorem abort_code_in_flight_witness:
  "\<exists>w'. poll demo_iroh E_notified (Fut_send 0 30 [1, 2, 3] 0 0 True 2) (snd (stream_abort demo_iroh 0 9 demo_send_started))
      = Some (Inr (Join_result (Inl (stream_error At_stream_send At_peer_aborted ''send half was reset''))), w')
    \<and> net_log w' = net_log (snd (stream_abort demo_iroh 0 9 demo_send_started)) @ [Net_stream_reset 30 0, Net_send_drop 30]"
proof -
  have "0 < length (st_streams demo_send_started)" "\<not> sr_released (st_streams demo_send_started ! 0)"
    "sr_send_busy (st_streams demo_send_started ! 0)"
    by (simp_all add: demo_send_started_eq StreamResource_new_def)
  moreover have "9 \<le> MAX_ABORT_CODE" by (simp add: MAX_ABORT_CODE_def)
  ultimately show ?thesis
    using abort_code_in_flight [OF demo_send_started_reachable _ _ _ _ demo_varint, of 0 9] by blast
qed

end
