(* ===== verification/Lease_Race.thy ===== *)
theory Lease_Race
  imports World
begin

text \<open>
  The send half of a stream at the granularity of its atomic operations and of its lock. The other
  theories take a NIF call, a drop and the run of a block between two \<open>await\<close> points as one step;
  this one interleaves the leases, their return, resets and finishing move by move. Exclusive use
  survives every interleaving; the return of a lease and a reset do not always have the effect of
  one after the other.
\<close>

section \<open>Moves\<close>

text \<open>
  Where a thread is: in \<open>take_send\<close> before the load of \<open>send_closed\<close>, the exchange on \<open>send_busy\<close>, the
  lock, or the store that gives the flag back; holding the lease; in \<open>SendLease::drop\<close> before the
  store to \<open>send_busy\<close>, the load of \<open>send_closed\<close> or the lock; in \<open>request_reset\<close> before each of its
  three stores or the lock; in \<open>stream_finish\<close> before its load, its store or its lock; or done.
\<close>

datatype half_pc =
    Take_closed atom
  | Take_busy atom
  | Take_slot atom
  | Take_clear atom
  | Leased handle
  | Return_busy handle
  | Return_check handle
  | Return_put handle
  | Reset_code u64
  | Reset_close u64
  | Reset_notify u64
  | Reset_take u64
  | Finish_busy
  | Finish_close
  | Finish_take
  | Done "atom nif_result"

text \<open>Each function gives the next move of its threads and is undefined on the others.\<close>

definition take_send_move ::
  "half_pc \<Rightarrow> stream_resource \<Rightarrow> (half_pc \<times> net_event list \<times> stream_resource) option" where
  "take_send_move t self =
     (case t of
        Take_closed operation \<Rightarrow>
          (if sr_send_closed self
           then Some (Done (Inl (stream_error operation At_closed ''send half is closed'')), [], self)
           else Some (Take_busy operation, [], self))
      | Take_busy operation \<Rightarrow>
          (case compare_exchange (sr_send_busy self) False True of
             (Inl _, _) \<Rightarrow> Some (Done (Inl (stream_error operation At_busy ''send half is busy'')), [], self)
           | (Inr _, busy) \<Rightarrow> Some (Take_slot operation, [], self\<lparr>sr_send_busy := busy\<rparr>))
      | Take_slot operation \<Rightarrow>
          (let (stream, slot) = mutex_take (sr_send self);
               self = self\<lparr>sr_send := slot\<rparr>
           in case stream of
                Some h \<Rightarrow> Some (Leased h, [], self)
              | None \<Rightarrow> Some (Take_clear operation, [], self))
      | Take_clear operation \<Rightarrow>
          Some (Done (Inl (stream_error operation At_closed ''send half is unavailable'')), [],
                self\<lparr>sr_send_busy := False\<rparr>)
      | _ \<Rightarrow> None)"

definition SendLease_drop_move ::
  "half_pc \<Rightarrow> stream_resource \<Rightarrow> (half_pc \<times> net_event list \<times> stream_resource) option" where
  "SendLease_drop_move t self =
     (case t of
        Return_busy h \<Rightarrow> Some (Return_check h, [], self\<lparr>sr_send_busy := False\<rparr>)
      | Return_check h \<Rightarrow>
          (if \<not> sr_send_closed self then Some (Return_put h, [], self)
           else Some (Done (Inr At_ok), [Net_send_drop h], self))
      | Return_put h \<Rightarrow>
          (case mutex_lock (sr_send self) of
             Some _ \<Rightarrow> Some (Done (Inr At_ok), [], self\<lparr>sr_send := mutex_set (Some h) (sr_send self)\<rparr>)
           | None \<Rightarrow> Some (Done (Inr At_ok), [Net_send_drop h], self))
      | _ \<Rightarrow> None)"

definition request_reset_move ::
  "iroh_api \<Rightarrow> half_pc \<Rightarrow> stream_resource \<Rightarrow> (half_pc \<times> net_event list \<times> stream_resource) option" where
  "request_reset_move iroh t self =
     (case t of
        Reset_code code \<Rightarrow> Some (Reset_close code, [], self\<lparr>sr_reset_code := code\<rparr>)
      | Reset_close code \<Rightarrow> Some (Reset_notify code, [], self\<lparr>sr_send_closed := True\<rparr>)
      | Reset_notify code \<Rightarrow> Some (Reset_take code, [], self\<lparr>sr_reset_notify := True\<rparr>)
      | Reset_take code \<Rightarrow>
          (let (stream, slot) = mutex_take (sr_send self);
               self = self\<lparr>sr_send := slot\<rparr>
           in case stream of
                None \<Rightarrow> Some (Done (Inr At_ok), [], self)
              | Some h \<Rightarrow>
                  (case api_varint_from_u64 iroh code of
                     None \<Rightarrow> Some (Done (Inr At_ok), [Net_send_drop h], self)
                   | Some c \<Rightarrow> Some (Done (Inr At_ok), [Net_stream_reset h c], self)))
      | _ \<Rightarrow> None)"

definition stream_finish_move ::
  "iroh_api \<Rightarrow> half_pc \<Rightarrow> stream_resource \<Rightarrow> (half_pc \<times> net_event list \<times> stream_resource) option" where
  "stream_finish_move iroh t self =
     (case t of
        Finish_busy \<Rightarrow>
          (if sr_send_busy self
           then Some (Done (Inl (stream_error At_stream_finish At_busy ''send half is busy'')), [], self)
           else Some (Finish_close, [], self))
      | Finish_close \<Rightarrow> Some (Finish_take, [], self\<lparr>sr_send_closed := True\<rparr>)
      | Finish_take \<Rightarrow>
          (let (stream, slot) = mutex_take (sr_send self);
               self = self\<lparr>sr_send := slot\<rparr>
           in case stream of
                None \<Rightarrow> Some (Done (Inl (stream_error At_stream_finish At_closed ''send half is closed'')), [], self)
              | Some h \<Rightarrow>
                  if api_finish_ok iroh h then Some (Done (Inr At_ok), [Net_stream_finish h], self)
                  else Some (Done (Inl (stream_error At_stream_finish At_closed ''send half is closed'')),
                             [Net_send_drop h], self))
      | _ \<Rightarrow> None)"

definition half_move ::
  "iroh_api \<Rightarrow> half_pc \<Rightarrow> stream_resource \<Rightarrow> (half_pc \<times> net_event list \<times> stream_resource) option" where
  "half_move iroh t self =
     (case take_send_move t self of
        Some m \<Rightarrow> Some m
      | None \<Rightarrow>
          (case SendLease_drop_move t self of
             Some m \<Rightarrow> Some m
           | None \<Rightarrow>
               (case request_reset_move iroh t self of
                  Some m \<Rightarrow> Some m
                | None \<Rightarrow> stream_finish_move iroh t self)))"

lemmas half_moves = half_move_def take_send_move_def SendLease_drop_move_def request_reset_move_def stream_finish_move_def

text \<open>One thread moves, or the block that holds the lease ends and its lease is dropped.\<close>

inductive lease_step ::
  "iroh_api \<Rightarrow> net_event list \<times> stream_resource \<times> half_pc list
     \<Rightarrow> net_event list \<times> stream_resource \<times> half_pc list \<Rightarrow> bool"
  for iroh where
  move: "i < length ts \<Longrightarrow> half_move iroh (ts ! i) self = Some (t, events, self')
    \<Longrightarrow> lease_step iroh (log, self, ts) (log @ events, self', ts[i := t])"
| release: "i < length ts \<Longrightarrow> ts ! i = Leased h
    \<Longrightarrow> lease_step iroh (log, self, ts) (log, self, ts[i := Return_busy h])"

section \<open>One thread alone\<close>

text \<open>A thread that runs by itself until it is done or holds the lease.\<close>

fun alone ::
  "nat \<Rightarrow> iroh_api \<Rightarrow> half_pc \<Rightarrow> stream_resource \<Rightarrow> half_pc \<times> net_event list \<times> stream_resource" where
  "alone 0 iroh t self = (t, [], self)"
| "alone (Suc n) iroh t self =
     (case half_move iroh t self of
        None \<Rightarrow> (t, [], self)
      | Some (t', events, self') \<Rightarrow>
          (case alone n iroh t' self' of (t'', events', self'') \<Rightarrow> (t'', events @ events', self'')))"

lemma take_send_moves:
  "alone 4 iroh (Take_closed operation) self =
     (case take_send operation self of
        (Inr h, self') \<Rightarrow> (Leased h, [], self')
      | (Inl e, self') \<Rightarrow> (Done (Inl e), [], self'))"
  by (simp add: eval_nat_numeral half_moves take_send_def compare_exchange_def Let_def split: prod.split option.split)

lemma SendLease_release_moves:
  "alone 3 iroh (Return_busy h) self =
     (case SendLease_release h self of (events, self') \<Rightarrow> (Done (Inr At_ok), events, self'))"
  by (simp add: eval_nat_numeral half_moves SendLease_release_def Let_def split: option.split)

lemma request_reset_moves:
  "alone 4 iroh (Reset_code code) self =
     (case StreamResource_request_reset iroh code self of (events, self') \<Rightarrow> (Done (Inr At_ok), events, self'))"
  by (simp add: eval_nat_numeral half_moves StreamResource_request_reset_def Let_def split: prod.split option.split)

section \<open>Exclusive use\<close>

fun flag_owner :: "half_pc \<Rightarrow> bool" where
  "flag_owner (Take_slot _) = True"
| "flag_owner (Take_clear _) = True"
| "flag_owner (Leased _) = True"
| "flag_owner (Return_busy _) = True"
| "flag_owner _ = False"

fun stream_owner :: "half_pc \<Rightarrow> bool" where
  "stream_owner (Leased _) = True"
| "stream_owner (Return_busy _) = True"
| "stream_owner (Return_check _) = True"
| "stream_owner (Return_put _) = True"
| "stream_owner _ = False"

abbreviation held :: "stream_resource \<Rightarrow> int" where
  "held self \<equiv> of_bool (content (sr_send self) \<noteq> None)"

definition lease_inv :: "stream_resource \<times> half_pc list \<Rightarrow> bool" where
  "lease_inv s \<longleftrightarrow>
     (case s of (self, ts) \<Rightarrow>
        total (\<lambda>t. of_bool (flag_owner t)) ts = (of_bool (sr_send_busy self) :: int)
        \<and> total (\<lambda>t. of_bool (stream_owner t)) ts + held self \<le> 1)"

lemma half_move_flag:
  assumes "half_move iroh t self = Some (t', events, self')" and "flag_owner t \<longrightarrow> sr_send_busy self"
  shows "(of_bool (sr_send_busy self') :: int) = of_bool (sr_send_busy self) - of_bool (flag_owner t) + of_bool (flag_owner t')"
  using assms
  by (cases t)
     (auto simp: half_moves compare_exchange_def Let_def split: if_splits option.splits prod.splits)

lemma half_move_stream:
  assumes "half_move iroh t self = Some (t', events, self')"
    and "of_bool (stream_owner t) + held self \<le> 1"
  shows "of_bool (stream_owner t') + held self' \<le> of_bool (stream_owner t) + held self"
  using assms
  by (cases t)
     (auto simp: half_moves compare_exchange_def mutex_take_def mutex_lock_def Let_def split: if_splits option.splits prod.splits)

lemma lease_inv_step:
  assumes "lease_step iroh (log, self, ts) (log', self', ts')" and "lease_inv (self, ts)"
  shows "lease_inv (self', ts')"
  using assms(1)
proof cases
  case (move i t events)
  let ?flags = "total (\<lambda>t. of_bool (flag_owner t) :: int)" and ?streams = "total (\<lambda>t. of_bool (stream_owner t) :: int)"
  have "of_bool (flag_owner (ts ! i)) \<le> ?flags ts" "of_bool (stream_owner (ts ! i)) \<le> ?streams ts"
    using total_ge_nth [of ts "\<lambda>t. of_bool (flag_owner t)" i] total_ge_nth [of ts "\<lambda>t. of_bool (stream_owner t)" i]
      move(3) by simp_all
  with half_move_flag [OF move(4)] half_move_stream [OF move(4)] assms(2) move(2,3) show ?thesis
    by (auto simp: lease_inv_def total_update split: if_splits)
next
  case (release i h)
  then show ?thesis using assms(2) by (simp add: lease_inv_def total_update)
qed

fun half_entry :: "half_pc \<Rightarrow> bool" where
  "half_entry (Take_closed _) = True"
| "half_entry (Reset_code _) = True"
| "half_entry Finish_busy = True"
| "half_entry _ = False"

lemma lease_inv_start:
  assumes "\<not> sr_send_busy self" and "list_all half_entry ts"
  shows "lease_inv (self, ts)"
proof -
  have entry: "\<not> flag_owner t \<and> \<not> stream_owner t" if "half_entry t" for t using that by (cases t) auto
  have "total (\<lambda>t. of_bool (flag_owner t)) ts = (0 :: int)" "total (\<lambda>t. of_bool (stream_owner t)) ts = (0 :: int)"
    using assms(2) entry by (induction ts) auto
  then show ?thesis using assms(1) by (simp add: lease_inv_def)
qed

lemma lease_inv_steps:
  assumes "(lease_step iroh)\<^sup>*\<^sup>* s s'" and "lease_inv (snd s)"
  shows "lease_inv (snd s')"
  using assms
proof (induction rule: rtranclp_induct)
  case (step s s')
  then show ?case using lease_inv_step by (cases s; cases s') auto
qed

lemma total_two:
  assumes "i < j" "j < length xs" "P (xs ! i)" "P (xs ! j)"
  shows "2 \<le> total (\<lambda>x. of_bool (P x) :: int) xs"
proof -
  let ?f = "\<lambda>x. of_bool (P x) :: int"
  have "xs = take i xs @ xs ! i # drop (Suc i) xs" using assms by (simp add: id_take_nth_drop)
  then have "total ?f xs = total ?f (take i xs) + ?f (xs ! i) + total ?f (drop (Suc i) xs)"
    by (metis (no_types, lifting) add.assoc total_Cons total_append)
  moreover have "0 \<le> total ?f (take i xs)" by (rule total_nonneg) simp
  moreover have "?f (drop (Suc i) xs ! (j - Suc i)) \<le> total ?f (drop (Suc i) xs)"
    using assms by (intro total_ge_nth) simp_all
  ultimately show ?thesis using assms by simp
qed

text \<open>
  C17. Exclusive use holds move by move: whatever calls of \<open>take_send\<close>, returns of leases, resets
  and finishes interleave on a send half that was not leased, two threads never both hold the
  stream, a thread that holds it has the busy flag set, and it is never put back while the slot is full.
\<close>

theorem lease_exclusive_interleaved:
  assumes "\<not> sr_send_busy self" and "list_all half_entry ts"
    and "(lease_step iroh)\<^sup>*\<^sup>* (log, self, ts) (log', self', ts')"
    and "i < length ts'" and "stream_owner (ts' ! i)"
  shows "content (sr_send self') = None
    \<and> (flag_owner (ts' ! i) \<longrightarrow> sr_send_busy self')
    \<and> (\<forall>j<length ts'. stream_owner (ts' ! j) \<longrightarrow> j = i)"
proof -
  have inv: "lease_inv (self', ts')"
    using lease_inv_steps [OF assms(3)] lease_inv_start [OF assms(1,2)] by simp
  have le: "of_bool (flag_owner (ts' ! i)) \<le> total (\<lambda>t. of_bool (flag_owner t) :: int) ts'"
      "of_bool (stream_owner (ts' ! i)) \<le> total (\<lambda>t. of_bool (stream_owner t) :: int) ts'"
    using total_ge_nth [of ts' "\<lambda>t. of_bool (flag_owner t)" i] total_ge_nth [of ts' "\<lambda>t. of_bool (stream_owner t)" i]
      assms(4) by simp_all
  have eq: "total (\<lambda>t. of_bool (flag_owner t) :: int) ts' = of_bool (sr_send_busy self')"
      "total (\<lambda>t. of_bool (stream_owner t) :: int) ts' + held self' \<le> 1"
    using inv by (simp_all add: lease_inv_def)
  have "total (\<lambda>t. of_bool (stream_owner t) :: int) ts' \<le> 1"
    using eq(2) by (cases "content (sr_send self')") simp_all
  then have "j = i" if "j < length ts'" "stream_owner (ts' ! j)" for j
    using total_two [of j i ts' stream_owner] total_two [of i j ts' stream_owner] that assms(4,5)
    by (cases i j rule: linorder_cases) simp_all
  moreover have "content (sr_send self') = None" using le(2) eq(2) assms(5) by (cases "content (sr_send self')") simp_all
  moreover have "flag_owner (ts' ! i) \<longrightarrow> sr_send_busy self'" using le(1) eq(1) by (cases "sr_send_busy self'") auto
  ultimately show ?thesis by simp
qed

section \<open>The return of a lease against a reset\<close>

text \<open>
  What the log and the slot can be in a race between the return of the lease on \<open>h\<close> and a reset
  with \<open>code\<close>, which the library takes as \<open>c\<close>.
\<close>

definition race_outcome :: "handle \<Rightarrow> u64 \<Rightarrow> half_pc \<Rightarrow> half_pc \<Rightarrow> net_event list \<Rightarrow> handle option \<Rightarrow> bool" where
  "race_outcome h c d r log slot \<longleftrightarrow>
     (if d = Done (Inr At_ok)
      then (log, slot) \<in> {([], Some h), ([Net_send_drop h], None)}
           \<or> log = [Net_stream_reset h c] \<and> slot = None \<and> r = Done (Inr At_ok)
      else log = [] \<and> slot = None)"

fun race_ok :: "handle \<Rightarrow> u64 \<Rightarrow> u64 \<Rightarrow> net_event list \<times> stream_resource \<times> half_pc list \<Rightarrow> bool" where
  "race_ok h code c (log, self, ts) \<longleftrightarrow>
     (\<exists>d r. ts = [d, r] \<and> \<not> poisoned (sr_send self)
      \<and> d \<in> {Return_busy h, Return_check h, Return_put h, Done (Inr At_ok)}
      \<and> r \<in> {Reset_code code, Reset_close code, Reset_notify code, Reset_take code, Done (Inr At_ok)}
      \<and> race_outcome h c d r log (content (sr_send self)))"

lemma race_return_move:
  assumes "half_move iroh d self = Some (t, events, self')" and "\<not> poisoned (sr_send self)"
    and d: "d \<in> {Return_busy h, Return_check h, Return_put h, Done (Inr At_ok)}"
    and "race_outcome h c d r log (content (sr_send self))"
  shows "\<not> poisoned (sr_send self') \<and> t \<in> {Return_busy h, Return_check h, Return_put h, Done (Inr At_ok)}
    \<and> race_outcome h c t r (log @ events) (content (sr_send self'))"
proof -
  from d consider "d = Return_busy h" | "d = Return_check h" | "d = Return_put h" | "d = Done (Inr At_ok)" by blast
  then show ?thesis
    using assms(1,2,4) by cases (auto simp: half_moves race_outcome_def split: if_splits)
qed

lemma race_reset_move:
  assumes "half_move iroh r self = Some (t, events, self')" and "\<not> poisoned (sr_send self)"
    and r: "r \<in> {Reset_code code, Reset_close code, Reset_notify code, Reset_take code, Done (Inr At_ok)}"
    and "race_outcome h c d r log (content (sr_send self))" and "api_varint_from_u64 iroh code = Some c"
  shows "\<not> poisoned (sr_send self')
    \<and> t \<in> {Reset_code code, Reset_close code, Reset_notify code, Reset_take code, Done (Inr At_ok)}
    \<and> race_outcome h c d t (log @ events) (content (sr_send self'))"
proof -
  from r consider "r = Reset_code code" | "r = Reset_close code" | "r = Reset_notify code"
    | "r = Reset_take code" | "r = Done (Inr At_ok)" by blast
  then show ?thesis
    using assms(1,2,4,5) by cases (auto simp: half_moves race_outcome_def split: if_splits option.splits)
qed

lemma race_ok_step:
  assumes step: "lease_step iroh s s'" and ok: "race_ok h code c s" and c: "api_varint_from_u64 iroh code = Some c"
  shows "race_ok h code c s'"
  using step
proof cases
  case (move i ts self t events self' log)
  with ok obtain d r where dr: "ts = [d, r]" "\<not> poisoned (sr_send self)"
      "d \<in> {Return_busy h, Return_check h, Return_put h, Done (Inr At_ok)}"
      "r \<in> {Reset_code code, Reset_close code, Reset_notify code, Reset_take code, Done (Inr At_ok)}"
      "race_outcome h c d r log (content (sr_send self))"
    by auto
  then consider "i = 0" | "i = 1" using move(3) by fastforce
  then show ?thesis
  proof cases
    case 1
    then show ?thesis using race_return_move [of iroh d self t events self' h c r log] move dr by simp
  next
    case 2
    then show ?thesis using race_reset_move [of iroh r self t events self' code h c d log] move dr c by simp
  qed
next
  case (release i ts h' log self)
  with ok show ?thesis by (cases i) auto
qed

lemma race_ok_steps:
  assumes "(lease_step iroh)\<^sup>*\<^sup>* s s'" and "race_ok h code c s" and "api_varint_from_u64 iroh code = Some c"
  shows "race_ok h code c s'"
  using assms by (induction rule: rtranclp_induct) (auto dest: race_ok_step)

fun lease_schedule ::
  "iroh_api \<Rightarrow> nat list \<Rightarrow> net_event list \<times> stream_resource \<times> half_pc list
     \<Rightarrow> (net_event list \<times> stream_resource \<times> half_pc list) option" where
  "lease_schedule iroh [] s = Some s"
| "lease_schedule iroh (i # is) (log, self, ts) =
     (if i < length ts
      then (case half_move iroh (ts ! i) self of
              None \<Rightarrow> None
            | Some (t, events, self') \<Rightarrow> lease_schedule iroh is (log @ events, self', ts[i := t]))
      else None)"

lemma lease_schedule_steps: "lease_schedule iroh is s = Some s' \<Longrightarrow> (lease_step iroh)\<^sup>*\<^sup>* s s'"
proof (induction iroh "is" s rule: lease_schedule.induct)
  case (2 iroh i "is" log self ts)
  then obtain t events self' where i: "i < length ts" and m: "half_move iroh (ts ! i) self = Some (t, events, self')"
      and rest: "lease_schedule iroh is (log @ events, self', ts[i := t]) = Some s'"
    by (auto split: if_splits option.splits)
  from lease_step.move [OF i m] 2(1) [OF i m refl refl rest] show ?case
    by (rule converse_rtranclp_into_rtranclp)
qed simp

text \<open>The return has seen the half open, the reset then finds the slot empty, and the return fills it.\<close>

lemma lost_reset_run:
  assumes "\<not> poisoned (sr_send self)" and "content (sr_send self) = None" and "\<not> sr_send_closed self"
  shows "\<exists>self'. lease_schedule iroh [0, 0, 1, 1, 1, 1, 0] ([], self, [Return_busy h, Reset_code code])
      = Some ([], self', [Done (Inr At_ok), Done (Inr At_ok)])
    \<and> content (sr_send self') = Some h \<and> sr_send_closed self'"
  using assms by (simp add: half_moves)

text \<open>
  C18. The return of a lease and a reset are not atomic: one after the other they reset the
  stream with the code or drop it, but their moves can interleave so that both calls succeed while
  the stream is back in its slot, neither reset nor dropped, with the half closed. That is the
  only other outcome of a complete run.
\<close>

theorem lease_return_against_reset:
  assumes "\<not> poisoned (sr_send self)" and "content (sr_send self) = None" and "\<not> sr_send_closed self"
    and "api_varint_from_u64 iroh code = Some c"
  shows "fst (SendLease_release h self) @ fst (StreamResource_request_reset iroh code (snd (SendLease_release h self)))
      = [Net_stream_reset h c]
    \<and> fst (StreamResource_request_reset iroh code self)
        @ fst (SendLease_release h (snd (StreamResource_request_reset iroh code self)))
      = [Net_send_drop h]
    \<and> (\<exists>self'. (lease_step iroh)\<^sup>*\<^sup>* ([], self, [Return_busy h, Reset_code code])
          ([], self', [Done (Inr At_ok), Done (Inr At_ok)])
        \<and> content (sr_send self') = Some h \<and> sr_send_closed self')
    \<and> (\<forall>log' self' r r'.
        (lease_step iroh)\<^sup>*\<^sup>* ([], self, [Return_busy h, Reset_code code]) (log', self', [Done r, Done r'])
        \<longrightarrow> (log', content (sr_send self'))
              \<in> {([Net_stream_reset h c], None), ([Net_send_drop h], None), ([], Some h)})"
proof (intro conjI allI impI)
  show "\<exists>self'. (lease_step iroh)\<^sup>*\<^sup>* ([], self, [Return_busy h, Reset_code code])
          ([], self', [Done (Inr At_ok), Done (Inr At_ok)])
        \<and> content (sr_send self') = Some h \<and> sr_send_closed self'"
    using lost_reset_run [OF assms(1-3)] lease_schedule_steps by blast
  fix log' self' r r'
  assume "(lease_step iroh)\<^sup>*\<^sup>* ([], self, [Return_busy h, Reset_code code]) (log', self', [Done r, Done r'])"
  from race_ok_steps [OF this _ assms(4), of h] assms(1,2)
  show "(log', content (sr_send self')) \<in> {([Net_stream_reset h c], None), ([Net_send_drop h], None), ([], Some h)}"
    by (auto simp: race_outcome_def)
qed (use assms in \<open>simp_all add: SendLease_release_def StreamResource_request_reset_def Let_def\<close>)

section \<open>Worked instances\<close>

definition leased_half :: stream_resource where
  "leased_half = (StreamResource_new None None 0 4 1)\<lparr>sr_send_busy := True\<rparr>"

theorem lease_return_against_reset_witness:
  "\<exists>self'. (lease_step demo_iroh)\<^sup>*\<^sup>* ([], leased_half, [Return_busy 30, Reset_code 7])
      ([], self', [Done (Inr At_ok), Done (Inr At_ok)])
    \<and> content (sr_send self') = Some 30 \<and> sr_send_closed self'"
proof -
  have "\<not> poisoned (sr_send leased_half)" "content (sr_send leased_half) = None" "\<not> sr_send_closed leased_half"
      "api_varint_from_u64 demo_iroh 7 = Some 7"
    by (simp_all add: leased_half_def StreamResource_new_def demo_iroh_def)
  from lease_return_against_reset [OF this] show ?thesis by blast
qed

theorem lease_exclusive_interleaved_witness:
  "\<exists>self'. (lease_step demo_iroh)\<^sup>*\<^sup>*
      ([], StreamResource_new (Some 30) None 0 4 1, [Take_closed At_stream_send, Take_closed At_stream_send])
      ([], self', [Leased 30, Done (Inl (stream_error At_stream_send At_busy ''send half is busy''))])
    \<and> content (sr_send self') = None \<and> sr_send_busy self'"
proof -
  let ?s = "([], StreamResource_new (Some 30) None 0 4 1, [Take_closed At_stream_send, Take_closed At_stream_send])"
  obtain self' where run: "lease_schedule demo_iroh [0, 1, 0, 1, 0] ?s
      = Some ([], self', [Leased 30, Done (Inl (stream_error At_stream_send At_busy ''send half is busy''))])"
    by (simp add: half_moves StreamResource_new_def compare_exchange_def)
  have "content (sr_send self') = None \<and> (flag_owner (Leased 30) \<longrightarrow> sr_send_busy self')"
    using lease_exclusive_interleaved [OF _ _ lease_schedule_steps [OF run], of 0]
    by (simp add: StreamResource_new_def)
  with lease_schedule_steps [OF run] show ?thesis by auto
qed

end
