(* ===== verification/Lease_Outcomes.thy ===== *)
theory Lease_Outcomes
  imports Lease_Race
begin

text \<open>
  What calls on one send half can lead to, at the granularity of \<open>Lease_Race\<close>: the stream is
  always in exactly one place, of simultaneous leases exactly one succeeds, and a lease beside the
  return of the stream has one outcome more than the two serial ones.
\<close>

section \<open>The stream is conserved\<close>

fun owns :: "handle \<Rightarrow> half_pc \<Rightarrow> bool" where
  "owns h (Leased h') \<longleftrightarrow> h' = h"
| "owns h (Return_busy h') \<longleftrightarrow> h' = h"
| "owns h (Return_check h') \<longleftrightarrow> h' = h"
| "owns h (Return_put h') \<longleftrightarrow> h' = h"
| "owns h _ \<longleftrightarrow> False"

text \<open>The events with which the crate gives up the stream \<open>h\<close>.\<close>

fun gives_up :: "handle \<Rightarrow> net_event \<Rightarrow> bool" where
  "gives_up h (Net_send_drop h') \<longleftrightarrow> h' = h"
| "gives_up h (Net_stream_reset h' _) \<longleftrightarrow> h' = h"
| "gives_up h (Net_stream_finish h') \<longleftrightarrow> h' = h"
| "gives_up h _ \<longleftrightarrow> False"

fun past_close :: "half_pc \<Rightarrow> bool" where
  "past_close (Reset_notify _) = True"
| "past_close (Reset_take _) = True"
| "past_close Finish_take = True"
| "past_close _ = False"

fun closes :: "half_pc \<Rightarrow> bool" where
  "closes (Reset_code _) = True"
| "closes (Reset_close _) = True"
| "closes (Reset_notify _) = True"
| "closes (Reset_take _) = True"
| "closes Finish_busy = True"
| "closes Finish_close = True"
| "closes Finish_take = True"
| "closes _ = False"

abbreviation in_slot :: "handle \<Rightarrow> stream_resource \<Rightarrow> int" where
  "in_slot h self \<equiv> of_bool (content (sr_send self) = Some h)"

abbreviation owners :: "handle \<Rightarrow> half_pc list \<Rightarrow> int" where
  "owners h ts \<equiv> total (\<lambda>t. of_bool (owns h t)) ts"

abbreviation given_up :: "handle \<Rightarrow> net_event list \<Rightarrow> int" where
  "given_up h log \<equiv> total (\<lambda>e. of_bool (gives_up h e)) log"

definition half_sound :: "handle \<Rightarrow> stream_resource \<Rightarrow> bool" where
  "half_sound h self \<longleftrightarrow> \<not> poisoned (sr_send self) \<and> content (sr_send self) \<in> {None, Some h}"

definition thread_sound :: "handle \<Rightarrow> stream_resource \<Rightarrow> half_pc \<Rightarrow> bool" where
  "thread_sound h self t \<longleftrightarrow> (stream_owner t \<longrightarrow> owns h t) \<and> (past_close t \<longrightarrow> sr_send_closed self)"

lemma half_move_conserves:
  assumes "half_move iroh t self = Some (t', events, self')"
    and "half_sound h self" and "thread_sound h self t"
    and "in_slot h self + of_bool (owns h t) \<le> 1"
  shows "half_sound h self' \<and> thread_sound h self' t'
    \<and> in_slot h self' + of_bool (owns h t') + given_up h events = in_slot h self + of_bool (owns h t)
    \<and> list_all (gives_up h) events \<and> (events \<noteq> [] \<longrightarrow> sr_send_closed self')
    \<and> (sr_send_closed self \<longrightarrow> sr_send_closed self')
    \<and> (\<not> closes t \<longrightarrow> \<not> closes t' \<and> sr_send_closed self' = sr_send_closed self)"
  using assms
  by (cases t)
     (auto simp: half_moves half_sound_def thread_sound_def compare_exchange_def mutex_take_def mutex_lock_def
        mutex_set_def Let_def split: if_splits option.splits prod.splits)

fun conserved :: "handle \<Rightarrow> net_event list \<times> stream_resource \<times> half_pc list \<Rightarrow> bool" where
  "conserved h (log, self, ts) \<longleftrightarrow>
     half_sound h self \<and> list_all (thread_sound h self) ts
     \<and> in_slot h self + owners h ts + given_up h log = 1
     \<and> list_all (gives_up h) log \<and> (log \<noteq> [] \<longrightarrow> sr_send_closed self)"

lemma thread_sound_later:
  "thread_sound h self t \<Longrightarrow> (sr_send_closed self \<longrightarrow> sr_send_closed self') \<Longrightarrow> thread_sound h self' t"
  by (auto simp: thread_sound_def)

lemma given_up_nonneg: "0 \<le> given_up h log"
  by (rule total_nonneg) simp

lemma conserved_step:
  assumes "lease_step iroh s s'" and "conserved h s"
  shows "conserved h s'"
  using assms(1)
proof cases
  case (move i ts self t events self' log)
  have owner: "of_bool (owns h (ts ! i)) \<le> owners h ts"
    using move(3) by (intro total_ge_nth) simp_all
  have inv: "half_sound h self" "list_all (thread_sound h self) ts" "in_slot h self + owners h ts + given_up h log = 1"
      "list_all (gives_up h) log" "log \<noteq> [] \<longrightarrow> sr_send_closed self"
    using assms(2) move(1) by simp_all
  have one: "thread_sound h self (ts ! i)" using inv(2) move(3) by (simp add: list_all_length)
  have "in_slot h self + of_bool (owns h (ts ! i)) \<le> 1"
    using owner inv(3) given_up_nonneg [of h log] by linarith
  note next_state = half_move_conserves [OF move(4) inv(1) one this]
  have "thread_sound h self' (ts[i := t] ! j)" if "j < length ts" for j
    using that next_state thread_sound_later [of h self "ts ! j" self'] inv(2)
    by (cases "j = i") (simp_all add: list_all_length)
  then have "list_all (thread_sound h self') (ts[i := t])" by (simp add: list_all_length)
  then show ?thesis
    using inv next_state move(2,3) by (auto simp: total_update)
next
  case (release i ts h' log self)
  have "list_all (thread_sound h self) (ts[i := Return_busy h'])"
    using assms(2) release by (auto simp: list_all_length nth_list_update thread_sound_def)
  moreover have "owners h (ts[i := Return_busy h']) = owners h ts"
    using release by (intro total_update_same) simp
  ultimately show ?thesis using assms(2) release by simp
qed

lemma conserved_steps:
  assumes "(lease_step iroh)\<^sup>*\<^sup>* s s'" and "conserved h s"
  shows "conserved h s'"
  using assms by (induction rule: rtranclp_induct) (auto dest: conserved_step)

lemma conserved_start:
  assumes "half_sound h self" and "content (sr_send self) = Some h" and "list_all half_entry ts"
  shows "conserved h ([], self, ts)"
proof -
  have entry: "\<not> owns h t \<and> thread_sound h self t" if "half_entry t" for t
    using that by (cases t) (auto simp: thread_sound_def)
  have "owners h ts = 0" using assms(3) entry by (induction ts) auto
  moreover have "list_all (thread_sound h self) ts" using assms(3) entry by (auto simp: list_all_iff)
  ultimately show ?thesis using assms(1,2) by simp
qed

text \<open>Without a reset or a finish the half stays open.\<close>

lemma leases_keep_open:
  assumes "(lease_step iroh)\<^sup>*\<^sup>* s s'" and "conserved h s" and "\<forall>t\<in>set (snd (snd s)). \<not> closes t"
  shows "(\<forall>t\<in>set (snd (snd s')). \<not> closes t) \<and> sr_send_closed (fst (snd s')) = sr_send_closed (fst (snd s))"
  using assms(1)
proof (induction rule: rtranclp_induct)
  case (step y z)
  from step.hyps(2) show ?case
  proof cases
    case (move i ts self t events self' log)
    have inv: "conserved h (log, self, ts)" using conserved_steps [OF step.hyps(1) assms(2)] move(1) by simp
    have "of_bool (owns h (ts ! i)) \<le> owners h ts" using move(3) by (intro total_ge_nth) simp_all
    then have "in_slot h self + of_bool (owns h (ts ! i)) \<le> 1"
      using inv given_up_nonneg [of h log] by simp
    then have "\<not> closes t \<and> sr_send_closed self' = sr_send_closed self"
      using half_move_conserves [OF move(4)] inv move step.IH by (auto simp: list_all_length)
    then show ?thesis using step.IH move by (auto dest!: subsetD [OF set_update_subset_insert])
  next
    case (release i ts h' log self)
    then show ?thesis using step.IH by (auto dest!: subsetD [OF set_update_subset_insert])
  qed
qed (use assms(3) in simp)

fun is_done :: "half_pc \<Rightarrow> bool" where
  "is_done (Done _) = True"
| "is_done _ = False"

lemma quiet_half:
  assumes "list_all is_done ts"
  shows "owners h ts = 0" and "total (\<lambda>t. of_bool (flag_owner t)) ts = (0 :: int)"
  using assms by (induction ts) (auto elim!: is_done.elims)

text \<open>
  C13. The stream is conserved, move by move: whatever calls of \<open>take_send\<close>, returns of leases,
  resets and finishes interleave on an open send half with the stream \<open>h\<close> in its slot, the stream is
  in exactly one place: in the slot, with one thread, or given up by one event (finished, reset or
  dropped), and the crate causes no other event. It is given up only once the half is closed, and
  the half is closed only if some call resets or finishes. When every call has returned and the half
  is open, the stream is back in the slot, the flag is clear and the next \<open>take_send\<close> leases it; if
  the half is closed, the stream was given up or is in the slot.
\<close>

theorem lease_stream_conserved:
  assumes "content (sr_send self) = Some h" and "\<not> poisoned (sr_send self)"
    and "\<not> sr_send_busy self" and "\<not> sr_send_closed self" and "list_all half_entry ts"
    and "(lease_step iroh)\<^sup>*\<^sup>* ([], self, ts) (log', self', ts')"
  shows "in_slot h self' + owners h ts' + given_up h log' = 1
    \<and> content (sr_send self') \<in> {None, Some h}
    \<and> (\<forall>t\<in>set ts'. stream_owner t \<longrightarrow> owns h t)
    \<and> (log' = [] \<or> (\<exists>e. log' = [e] \<and> gives_up h e \<and> sr_send_closed self'))
    \<and> ((\<forall>t\<in>set ts. \<not> closes t) \<longrightarrow> \<not> sr_send_closed self')
    \<and> (list_all is_done ts' \<longrightarrow> \<not> sr_send_busy self'
        \<and> (\<not> sr_send_closed self' \<longrightarrow> fst (take_send operation self') = Inr h))"
proof -
  have sound: "half_sound h self" using assms(1,2) by (simp add: half_sound_def)
  note start = conserved_start [OF sound assms(1,5)]
  have inv: "half_sound h self'" "list_all (thread_sound h self') ts'" "list_all (gives_up h) log'"
      and sum: "in_slot h self' + owners h ts' + given_up h log' = 1" and closed: "log' \<noteq> [] \<longrightarrow> sr_send_closed self'"
    using conserved_steps [OF assms(6) start] by simp_all
  have flags: "total (\<lambda>t. of_bool (flag_owner t)) ts' = (of_bool (sr_send_busy self') :: int)"
    using lease_inv_steps [OF assms(6)] lease_inv_start [OF assms(3,5)] by (simp add: lease_inv_def)
  have "0 \<le> owners h ts'" by (rule total_nonneg) simp
  then have "given_up h log' \<le> 1" using sum by (smt (verit) of_bool_eq)
  moreover have "given_up h log' = int (length log')" using inv(3) by (induction log') auto
  ultimately have log: "log' = [] \<or> (\<exists>e. log' = [e])" by (cases log') auto
  have quiet: "\<not> sr_send_busy self' \<and> (\<not> sr_send_closed self' \<longrightarrow> fst (take_send operation self') = Inr h)"
    if all_done: "list_all is_done ts'"
  proof -
    have busy: "\<not> sr_send_busy self'" using flags quiet_half(2) [OF all_done] by (cases "sr_send_busy self'") simp_all
    have "content (sr_send self') = Some h" if "\<not> sr_send_closed self'"
      using that closed sum quiet_half(1) [OF all_done] by (auto split: if_splits)
    then show ?thesis
      using busy inv(1)
      by (auto simp: take_send_def compare_exchange_def mutex_take_def mutex_lock_def half_sound_def Let_def)
  qed
  have "\<not> sr_send_closed self'" if "\<forall>t\<in>set ts. \<not> closes t"
    using leases_keep_open [OF assms(6) start] that assms(4) by simp
  then show ?thesis
    using sum inv log closed quiet by (auto simp: half_sound_def thread_sound_def list_all_iff)
qed

theorem lease_stream_conserved_witness:
  "\<exists>self'. (lease_step demo_iroh)\<^sup>*\<^sup>*
      ([], StreamResource_new (Some 30) None 0 4 1, [Take_closed At_stream_send, Reset_code 7])
      ([Net_send_drop 30], self', [Done (Inr At_ok), Done (Inr At_ok)])
    \<and> content (sr_send self') = None \<and> sr_send_closed self' \<and> \<not> sr_send_busy self'"
proof -
  let ?new = "StreamResource_new (Some 30) None 0 4 1" and ?start = "[Take_closed At_stream_send, Reset_code 7]"
  let ?final = "[Done (Inr At_ok), Done (Inr At_ok)]"
  obtain self1 where taken: "lease_schedule demo_iroh [0, 0, 0] ([], ?new, ?start) = Some ([], self1, [Leased 30, Reset_code 7])"
      and open1: "\<not> poisoned (sr_send self1)" "content (sr_send self1) = None"
    by (simp add: half_moves StreamResource_new_def compare_exchange_def)
  obtain self' where returned: "lease_schedule demo_iroh [1, 1, 1, 1, 0, 0] ([], self1, [Return_busy 30, Reset_code 7])
      = Some ([Net_send_drop 30], self', ?final)"
    using open1 by (simp add: half_moves)
  have "lease_step demo_iroh ([], self1, [Leased 30, Reset_code 7]) ([], self1, [Return_busy 30, Reset_code 7])"
    using lease_step.release [of 0 "[Leased 30, Reset_code 7]" 30 demo_iroh "[]" self1] by simp
  then have run: "(lease_step demo_iroh)\<^sup>*\<^sup>* ([], ?new, ?start) ([Net_send_drop 30], self', ?final)"
    using lease_schedule_steps [OF taken] lease_schedule_steps [OF returned] by (meson rtranclp.rtrancl_into_rtrancl rtranclp_trans)
  then show ?thesis
    using lease_stream_conserved [OF _ _ _ _ _ run, of 30] by (auto simp: StreamResource_new_def)
qed

section \<open>Leases against leases and against a return\<close>

definition busy_answer :: "atom \<Rightarrow> half_pc" where
  "busy_answer operation = Done (Inl (stream_error operation At_busy ''send half is busy''))"

definition unavailable_answer :: "atom \<Rightarrow> half_pc" where
  "unavailable_answer operation = Done (Inl (stream_error operation At_closed ''send half is unavailable''))"

text \<open>What a call of \<open>take_send\<close> can be at before anyone returns the stream \<open>h\<close>.\<close>

definition contender :: "handle \<Rightarrow> half_pc \<Rightarrow> half_pc \<Rightarrow> bool" where
  "contender h t0 t \<longleftrightarrow>
     (\<exists>operation. t0 = Take_closed operation
        \<and> t \<in> {Take_closed operation, Take_busy operation, Take_slot operation, Leased h, busy_answer operation})"

definition contended ::
  "handle \<Rightarrow> half_pc list \<Rightarrow> net_event list \<times> stream_resource \<times> half_pc list \<Rightarrow> bool" where
  "contended h ts0 s \<longleftrightarrow>
     (case s of (log, self, ts) \<Rightarrow>
        conserved h s \<and> lease_inv (self, ts) \<and> log = [] \<and> \<not> sr_send_closed self
        \<and> list_all2 (contender h) ts0 ts \<and> (list_ex is_done ts \<longrightarrow> sr_send_busy self))"

lemma flag_owner_unique:
  assumes "lease_inv (self, ts)" and "i < length ts" "j < length ts" "flag_owner (ts ! i)" "flag_owner (ts ! j)"
  shows "i = j"
proof -
  have "total (\<lambda>t. of_bool (flag_owner t)) ts \<le> (1 :: int)" using assms(1) by (simp add: lease_inv_def)
  then show ?thesis
    using total_two [of i j ts flag_owner] total_two [of j i ts flag_owner] assms(2-5)
    by (cases i j rule: linorder_cases) simp_all
qed

lemma owner_exists:
  assumes "owners h ts = 1" shows "\<exists>i<length ts. owns h (ts ! i)"
proof (rule ccontr)
  assume "\<not> ?thesis"
  then have "total (\<lambda>t. of_bool (owns h t) :: int) ts = total (\<lambda>t. 0) ts"
    by (intro total_cong) (auto simp: in_set_conv_nth)
  then show False using assms by (simp add: total_def)
qed

lemma contender_owner: "contender h t0 t \<Longrightarrow> owns h t \<longleftrightarrow> t = Leased h"
  by (auto simp: contender_def busy_answer_def)

text \<open>The call that won the flag finds the stream in the slot.\<close>

lemma contended_slot:
  assumes "contended h ts0 (log, self, ts)" and "i < length ts" and "ts ! i = Take_slot operation"
  shows "content (sr_send self) = Some h"
proof (rule ccontr)
  assume none: "content (sr_send self) \<noteq> Some h"
  then have "owners h ts = 1" using assms(1) by (auto simp: contended_def)
  then obtain j where j: "j < length ts" "owns h (ts ! j)" using owner_exists by blast
  then have "ts ! j = Leased h"
    using assms(1) contender_owner by (auto simp: contended_def list_all2_conv_all_nth)
  then have "i = j"
    using assms j(1) by (intro flag_owner_unique [of self ts]) (auto simp: contended_def)
  with \<open>ts ! j = Leased h\<close> assms(3) show False by simp
qed

lemma contender_move:
  assumes "contender h t0 t" and "half_move iroh t self = Some (t', events, self')"
    and "\<not> sr_send_closed self" and "\<not> poisoned (sr_send self)"
    and "\<And>operation. t = Take_slot operation \<Longrightarrow> content (sr_send self) = Some h"
  shows "contender h t0 t' \<and> events = [] \<and> \<not> sr_send_closed self'
    \<and> (sr_send_busy self \<or> is_done t' \<longrightarrow> sr_send_busy self')"
  using assms
  by (auto simp: contender_def busy_answer_def half_moves compare_exchange_def mutex_take_def mutex_lock_def
      mutex_set_def Let_def split: if_splits option.splits)

lemma contended_move:
  assumes inv: "contended h ts0 (log, self, ts)" and i: "i < length ts"
    and m: "half_move iroh (ts ! i) self = Some (t, events, self')"
  shows "contended h ts0 (log @ events, self', ts[i := t])"
proof -
  have step: "lease_step iroh (log, self, ts) (log @ events, self', ts[i := t])"
    using lease_step.move [OF i m] .
  have all: "list_all2 (contender h) ts0 ts" "\<not> sr_send_closed self" "\<not> poisoned (sr_send self)" "log = []"
      "list_ex is_done ts \<longrightarrow> sr_send_busy self"
    using inv by (simp_all add: contended_def half_sound_def)
  have "contender h (ts0 ! i) (ts ! i)" using all(1) i by (simp add: list_all2_conv_all_nth)
  from contender_move [OF this m all(2,3)] contended_slot [OF inv i]
  have t: "contender h (ts0 ! i) t" "events = []" "\<not> sr_send_closed self'"
      "sr_send_busy self \<or> is_done t \<longrightarrow> sr_send_busy self'"
    by blast+
  have "contender h (ts0 ! j) (ts[i := t] ! j)" if "j < length ts" for j
    using all(1) t(1) that by (cases "j = i") (simp_all add: list_all2_conv_all_nth)
  then have "list_all2 (contender h) ts0 (ts[i := t])"
    using all(1) by (simp add: list_all2_conv_all_nth)
  moreover have "list_ex is_done (ts[i := t]) \<longrightarrow> sr_send_busy self'"
    using all(5) t(4) by (auto simp: list_ex_iff dest!: subsetD [OF set_update_subset_insert])
  ultimately show ?thesis
    using inv t all(4) conserved_step [OF step, of h] lease_inv_step [OF step] by (simp add: contended_def)
qed

lemma contended_schedule:
  "lease_schedule iroh is s = Some s' \<Longrightarrow> contended h ts0 s \<Longrightarrow> contended h ts0 s'"
proof (induction iroh "is" s rule: lease_schedule.induct)
  case (2 iroh i "is" log self ts)
  then obtain t events self' where i: "i < length ts" and m: "half_move iroh (ts ! i) self = Some (t, events, self')"
      and rest: "lease_schedule iroh is (log @ events, self', ts[i := t]) = Some s'"
    by (auto split: if_splits option.splits)
  show ?case using 2(1) [OF i m refl refl rest contended_move [OF 2(3) i m]] .
qed simp

text \<open>
  C19. Of any number of simultaneous leases exactly one succeeds: when calls of \<open>take_send\<close> interleave
  on an open half with the stream in its slot, in whatever order their loads, exchanges and locks
  come, then once all have answered exactly one holds the stream and every other was told \<open>busy\<close>.
\<close>

theorem lease_one_winner:
  assumes "content (sr_send self) = Some h" and "\<not> poisoned (sr_send self)"
    and "\<not> sr_send_busy self" and "\<not> sr_send_closed self"
    and "list_all (\<lambda>t. \<exists>operation. t = Take_closed operation) ts" and "ts \<noteq> []"
    and run: "lease_schedule iroh is ([], self, ts) = Some (log', self', ts')"
    and answered: "list_all (\<lambda>t. is_done t \<or> (\<exists>h. t = Leased h)) ts'"
  shows "\<exists>i<length ts. ts' ! i = Leased h
    \<and> (\<forall>j<length ts. j \<noteq> i \<longrightarrow> (\<exists>operation. ts ! j = Take_closed operation
        \<and> ts' ! j = Done (Inl (stream_error operation At_busy ''send half is busy''))))"
proof -
  have entry: "list_all half_entry ts" using assms(5) by (auto simp: list_all_iff)
  have sound: "half_sound h self" using assms(1,2) by (simp add: half_sound_def)
  have "list_all2 (contender h) ts ts" using assms(5) by (auto simp: list_all2_conv_all_nth list_all_length contender_def)
  moreover have "\<not> list_ex is_done ts" using assms(5) by (auto simp: list_all_iff list_ex_iff)
  ultimately have "contended h ts ([], self, ts)"
    using conserved_start [OF sound assms(1) entry] lease_inv_start [OF assms(3) entry] assms(4) by (simp add: contended_def)
  from contended_schedule [OF run this]
  have inv: "lease_inv (self', ts')" "list_all2 (contender h) ts ts'"
      "list_ex is_done ts' \<longrightarrow> sr_send_busy self'"
    by (simp_all add: contended_def)
  have len: "length ts' = length ts" using inv(2) by (simp add: list_all2_lengthD)
  have shape: "ts' ! j = Leased h \<or> (\<exists>operation. ts ! j = Take_closed operation \<and> ts' ! j = busy_answer operation)"
    if "j < length ts" for j
  proof -
    have "contender h (ts ! j) (ts' ! j)" "is_done (ts' ! j) \<or> (\<exists>h. ts' ! j = Leased h)"
      using that inv(2) answered len by (simp_all add: list_all2_conv_all_nth list_all_length)
    then show ?thesis by (auto simp: contender_def)
  qed
  have "\<exists>i<length ts. ts' ! i = Leased h"
  proof (rule ccontr)
    assume none: "\<not> ?thesis"
    then have answers: "\<exists>operation. ts' ! j = busy_answer operation" if "j < length ts" for j using shape that by blast
    then have "list_all is_done ts'" by (fastforce simp: list_all_length len busy_answer_def)
    moreover from this have "list_ex is_done ts'" using len \<open>ts \<noteq> []\<close> by (cases ts') auto
    ultimately show False
      using inv(1,3) quiet_half(2) [of ts'] by (simp add: lease_inv_def)
  qed
  then obtain i where i: "i < length ts" "ts' ! i = Leased h" by blast
  have "j = i" if "j < length ts" "ts' ! j = Leased h" for j
    using flag_owner_unique [OF inv(1), of j i] that i len by simp
  then show ?thesis using i shape by (auto simp: busy_answer_def)
qed

theorem lease_one_winner_witness:
  "\<exists>self'. lease_schedule demo_iroh [0, 1, 2, 1, 0, 1, 2]
      ([], StreamResource_new (Some 30) None 0 4 1,
       [Take_closed At_stream_send, Take_closed At_stream_send, Take_closed At_stream_send])
      = Some ([], self', [busy_answer At_stream_send, Leased 30, busy_answer At_stream_send])"
proof -
  let ?ts = "[Take_closed At_stream_send, Take_closed At_stream_send, Take_closed At_stream_send]"
  obtain self' ts' where run: "lease_schedule demo_iroh [0, 1, 2, 1, 0, 1, 2] ([], StreamResource_new (Some 30) None 0 4 1, ?ts)
      = Some ([], self', ts')" and ts': "ts' = [busy_answer At_stream_send, Leased 30, busy_answer At_stream_send]"
    by (simp add: half_moves StreamResource_new_def compare_exchange_def busy_answer_def)
  have "\<exists>i<length ?ts. ts' ! i = Leased 30"
    using lease_one_winner [OF _ _ _ _ _ _ run, of 30] by (auto simp: StreamResource_new_def ts' busy_answer_def)
  then show ?thesis using run ts' by blast
qed

text \<open>A lease beside the return of the stream: where the two can be.\<close>

definition returning :: "handle \<Rightarrow> half_pc \<Rightarrow> bool" where
  "returning h t \<longleftrightarrow> t \<in> {Return_busy h, Return_check h, Return_put h, Done (Inr At_ok)}"

definition lessee :: "handle \<Rightarrow> atom \<Rightarrow> half_pc \<Rightarrow> bool" where
  "lessee h operation t \<longleftrightarrow>
     t \<in> {Take_closed operation, Take_busy operation, Take_slot operation, Take_clear operation, Leased h,
          busy_answer operation, unavailable_answer operation} \<or> returning h t"

lemma returning_move:
  assumes "returning h t" and "half_move iroh t self = Some (t', events, self')"
  shows "returning h t'"
  using assms by (auto simp: returning_def half_moves split: if_splits option.splits)

lemma lessee_move:
  assumes "lessee h operation t" and "half_move iroh t self = Some (t', events, self')"
    and "\<not> sr_send_closed self" and "half_sound h self"
  shows "lessee h operation t'"
proof (cases "returning h t")
  case True
  then show ?thesis using returning_move [OF True assms(2)] by (simp add: lessee_def)
next
  case False
  then show ?thesis
    using assms
    by (auto simp: lessee_def busy_answer_def unavailable_answer_def half_moves half_sound_def compare_exchange_def
        mutex_take_def mutex_lock_def Let_def split: if_splits option.splits)
qed
definition return_race ::
  "handle \<Rightarrow> atom \<Rightarrow> net_event list \<times> stream_resource \<times> half_pc list \<Rightarrow> bool" where
  "return_race h operation s \<longleftrightarrow>
     (case s of (log, self, ts) \<Rightarrow>
        conserved h s \<and> lease_inv (self, ts) \<and> \<not> sr_send_closed self
        \<and> (\<exists>d t. ts = [d, t] \<and> returning h d \<and> lessee h operation t))"

lemma lessee_closes: "lessee h operation t \<Longrightarrow> \<not> closes t"
  by (auto simp: lessee_def returning_def busy_answer_def unavailable_answer_def)

lemma return_race_step:
  assumes step: "lease_step iroh s s'" and inv: "return_race h operation s"
  shows "return_race h operation s'"
proof -
  obtain log self d t where s: "s = (log, self, [d, t])" and c: "conserved h s" and l: "lease_inv (self, [d, t])"
      and "open": "\<not> sr_send_closed self" and d: "returning h d" and t: "lessee h operation t"
    using inv by (auto simp: return_race_def)
  obtain log' self' ts' where s': "s' = (log', self', ts')" by (cases s')
  have sound: "half_sound h self" using c s by simp
  have "lessee h operation d" using d by (simp add: lessee_def)
  then have "\<not> sr_send_closed self'"
    using leases_keep_open [OF r_into_rtranclp [of "lease_step iroh", OF step] c] lessee_closes t "open" s s' by auto
  moreover have "conserved h s'" "lease_inv (self', ts')"
    using conserved_step [OF step c] lease_inv_step [of iroh log self "[d, t]" log' self' ts'] step l s s' by simp_all
  moreover have "\<exists>d t. ts' = [d, t] \<and> returning h d \<and> lessee h operation t"
    using step [unfolded s s']
  proof cases
    case (move i u events)
    then consider "i = 0" | "i = 1" by fastforce
    then show ?thesis
      using move d t returning_move [of h d iroh self u events self']
        lessee_move [of h operation t iroh self u events self'] "open" sound
      by cases auto
  next
    case (release i h')
    then consider "i = 0" | "i = 1" by fastforce
    then show ?thesis
      using release d t by cases (auto simp: returning_def lessee_def busy_answer_def unavailable_answer_def)
  qed
  ultimately show ?thesis unfolding return_race_def s' prod.case by blast
qed

lemma return_race_steps:
  "(lease_step iroh)\<^sup>*\<^sup>* s s' \<Longrightarrow> return_race h operation s \<Longrightarrow> return_race h operation s'"
  by (induction rule: rtranclp_induct) (auto dest: return_race_step)

lemma unavailable_run:
  assumes "\<not> poisoned (sr_send self)" and "content (sr_send self) = None" and "\<not> sr_send_closed self"
  shows "\<exists>self'. lease_schedule iroh [0, 1, 1, 1, 1, 0, 0] ([], self, [Return_busy h, Take_closed operation])
      = Some ([], self', [Done (Inr At_ok), unavailable_answer operation])
    \<and> content (sr_send self') = Some h \<and> \<not> sr_send_closed self' \<and> \<not> sr_send_busy self'"
  using assms by (simp add: half_moves compare_exchange_def unavailable_answer_def)

text \<open>
  C20. The return of a lease is not atomic for other callers: \<open>SendLease::drop\<close> clears the busy flag
  before it puts the stream back. One after the other, a lease is refused as busy or succeeds; when
  the moves interleave, \<open>take_send\<close> can also be answered \<open>closed\<close> (\<open>send half is unavailable\<close>),
  although the half is open and its stream is in the slot afterwards. There is no
  further outcome, and none loses the stream: a refused lease leaves it in the slot and the half
  free, a successful one has it.
\<close>

theorem lease_take_against_return:
  assumes "\<not> poisoned (sr_send self)" and "content (sr_send self) = None" and "\<not> sr_send_closed self"
    and "sr_send_busy self"
  shows "fst (take_send operation self) = Inl (stream_error operation At_busy ''send half is busy'')
    \<and> fst (take_send operation (snd (SendLease_release h self))) = Inr h
    \<and> (\<exists>self'. (lease_step iroh)\<^sup>*\<^sup>* ([], self, [Return_busy h, Take_closed operation])
          ([], self', [Done (Inr At_ok), Done (Inl (stream_error operation At_closed ''send half is unavailable''))])
        \<and> content (sr_send self') = Some h \<and> \<not> sr_send_closed self' \<and> \<not> sr_send_busy self')
    \<and> (\<forall>log' self' r t.
        (lease_step iroh)\<^sup>*\<^sup>* ([], self, [Return_busy h, Take_closed operation]) (log', self', [Done r, t])
        \<and> (is_done t \<or> (\<exists>h'. t = Leased h'))
        \<longrightarrow> log' = [] \<and> \<not> sr_send_closed self'
            \<and> (t = Leased h \<and> content (sr_send self') = None \<and> sr_send_busy self'
               \<or> t \<in> {Done (Inr At_ok), Done (Inl (stream_error operation At_busy ''send half is busy'')),
                       Done (Inl (stream_error operation At_closed ''send half is unavailable''))}
                 \<and> content (sr_send self') = Some h \<and> \<not> sr_send_busy self'))"
proof (intro conjI allI impI)
  show "\<exists>self'. (lease_step iroh)\<^sup>*\<^sup>* ([], self, [Return_busy h, Take_closed operation])
          ([], self', [Done (Inr At_ok), Done (Inl (stream_error operation At_closed ''send half is unavailable''))])
        \<and> content (sr_send self') = Some h \<and> \<not> sr_send_closed self' \<and> \<not> sr_send_busy self'"
    using unavailable_run [OF assms(1-3)] lease_schedule_steps unfolding unavailable_answer_def by blast
  fix log' self' r t
  assume run: "(lease_step iroh)\<^sup>*\<^sup>* ([], self, [Return_busy h, Take_closed operation]) (log', self', [Done r, t])
      \<and> (is_done t \<or> (\<exists>h'. t = Leased h'))"
  have "return_race h operation ([], self, [Return_busy h, Take_closed operation])"
    using assms by (simp add: return_race_def half_sound_def thread_sound_def lease_inv_def returning_def lessee_def)
  from return_race_steps [OF conjunct1 [OF run] this]
  have inv: "conserved h (log', self', [Done r, t])" "lease_inv (self', [Done r, t])" "\<not> sr_send_closed self'"
      "lessee h operation t"
    by (auto simp: return_race_def)
  then show log: "log' = []" and "\<not> sr_send_closed self'" by auto
  consider "t = Leased h"
    | "t \<in> {Done (Inr At_ok), busy_answer operation, unavailable_answer operation}"
    using inv(4) run by (auto simp: lessee_def returning_def)
  then show "t = Leased h \<and> content (sr_send self') = None \<and> sr_send_busy self'
      \<or> t \<in> {Done (Inr At_ok), Done (Inl (stream_error operation At_busy ''send half is busy'')),
              Done (Inl (stream_error operation At_closed ''send half is unavailable''))}
        \<and> content (sr_send self') = Some h \<and> \<not> sr_send_busy self'"
    using inv(1,2) log
    by cases (auto simp: lease_inv_def half_sound_def busy_answer_def unavailable_answer_def split: if_splits)
qed (use assms in \<open>simp_all add: take_send_def SendLease_release_def compare_exchange_def Let_def\<close>)

theorem lease_take_against_return_witness:
  "\<exists>self'. (lease_step demo_iroh)\<^sup>*\<^sup>* ([], leased_half, [Return_busy 30, Take_closed At_stream_send])
      ([], self', [Done (Inr At_ok), Done (Inl (stream_error At_stream_send At_closed ''send half is unavailable''))])
    \<and> content (sr_send self') = Some 30 \<and> \<not> sr_send_closed self'"
proof -
  have "\<not> poisoned (sr_send leased_half)" "content (sr_send leased_half) = None" "\<not> sr_send_closed leased_half"
      "sr_send_busy leased_half"
    by (simp_all add: leased_half_def StreamResource_new_def)
  from lease_take_against_return [OF this] show ?thesis by blast
qed

end
