(* ===== verification/Queue_Peak.thy ===== *)
theory Queue_Peak
  imports World "HOL-Library.Multiset"
begin

text \<open>
  The queue counters at the granularity of their atomic operations: several threads add to the
  shared counter, raise the shared peak in a \<open>compare_exchange_weak\<close> loop and take their bytes back.
  Their interleaving has the effect of the calls one after the other, and the loop ends.
\<close>

section \<open>The loop\<close>

text \<open>
  Where the thread that queues \<open>amount\<close> bytes is: before its \<open>fetch_add\<close>, before the load of the
  peak with the value it wants the peak to reach, at the head of the loop with the peak it has
  seen last, past the loop with its guard alive, or after the drop of the guard.
\<close>

datatype guard_pc =
    Entering usize
  | Before_load usize usize
  | At_loop usize usize usize
  | Guarded usize
  | Dropped usize

text \<open>
  One atomic operation of one thread on the counter and the peak. \<open>spurious\<close>: a weak exchange
  fails although the value is the expected one.
\<close>

fun guard_move :: "bool \<Rightarrow> usize \<times> usize \<Rightarrow> guard_pc \<Rightarrow> ((usize \<times> usize) \<times> guard_pc) option" where
  "guard_move spurious (queued, cell) (Entering amount) =
     Some ((queued + amount, cell), Before_load amount (queued + amount))"
| "guard_move spurious (queued, cell) (Before_load amount current) =
     Some ((queued, cell), At_loop amount current cell)"
| "guard_move spurious (queued, cell) (At_loop amount current peak) =
     (if current > peak
      then (case (if spurious then (Inl cell, cell) else compare_exchange cell peak current) of
              (Inr _, cell') \<Rightarrow> Some ((queued, cell'), Guarded amount)
            | (Inl observed, cell') \<Rightarrow> Some ((queued, cell'), At_loop amount current observed))
      else Some ((queued, cell), Guarded amount))"
| "guard_move spurious (queued, cell) (Guarded amount) = Some ((queued - amount, cell), Dropped amount)"
| "guard_move spurious shared (Dropped amount) = None"

inductive guard_step ::
  "bool \<Rightarrow> (usize \<times> usize) \<times> guard_pc list \<Rightarrow> (usize \<times> usize) \<times> guard_pc list \<Rightarrow> bool"
  for spurious :: bool where
  move: "i < length ts \<Longrightarrow> spurious \<or> \<not> fails \<Longrightarrow> guard_move fails shared (ts ! i) = Some (shared', t)
    \<Longrightarrow> guard_step spurious (shared, ts) (shared', ts[i := t])"

fun in_loop :: "guard_pc \<Rightarrow> bool" where
  "in_loop (Before_load _ _) = True"
| "in_loop (At_loop _ _ _) = True"
| "in_loop _ = False"

section \<open>The calls one after the other\<close>

datatype guard_call = Guard_new usize | Guard_drop usize

fun guard_call_run :: "guard_call \<Rightarrow> ('a, 'b, 'z) nif_state_scheme \<Rightarrow> ('a, 'b, 'z) nif_state_scheme" where
  "guard_call_run (Guard_new amount) w = QueueGuard_new amount w"
| "guard_call_run (Guard_drop amount) w = QueueGuard_drop amount w"

fun counter_after :: "usize \<Rightarrow> guard_call list \<Rightarrow> usize" where
  "counter_after q [] = q"
| "counter_after q (Guard_new n # cs) = counter_after (q + n) cs"
| "counter_after q (Guard_drop n # cs) = counter_after (q - n) cs"

fun counter_values :: "usize \<Rightarrow> guard_call list \<Rightarrow> usize list" where
  "counter_values q [] = []"
| "counter_values q (Guard_new n # cs) = (q + n) # counter_values (q + n) cs"
| "counter_values q (Guard_drop n # cs) = counter_values (q - n) cs"

lemma counter_after_append: "counter_after q (cs @ ds) = counter_after (counter_after q cs) ds"
  by (induction q cs rule: counter_after.induct) simp_all

lemma counter_values_append:
  "counter_values q (cs @ ds) = counter_values q cs @ counter_values (counter_after q cs) ds"
  by (induction q cs rule: counter_after.induct) simp_all

lemma guard_call_fields:
  "st_queued_bytes (QueueGuard_new n w) = st_queued_bytes w + n"
  "st_peak_queued_bytes (QueueGuard_new n w) = max (st_queued_bytes w + n) (st_peak_queued_bytes w)"
  "st_queued_bytes (QueueGuard_drop n w) = st_queued_bytes w - n"
  "st_peak_queued_bytes (QueueGuard_drop n w) = st_peak_queued_bytes w"
  by (auto simp: QueueGuard_new_def QueueGuard_drop_def max_def Let_def not_less intro: antisym)

lemma queued_after_calls: "st_queued_bytes (fold guard_call_run cs w) = counter_after (st_queued_bytes w) cs"
  by (induction "st_queued_bytes w" cs arbitrary: w rule: counter_after.induct)
    (simp_all add: guard_call_fields)

lemma peak_after_calls:
  "st_peak_queued_bytes (fold guard_call_run cs w)
     = Max (insert (st_peak_queued_bytes w) (set (counter_values (st_queued_bytes w) cs)))"
proof (induction "st_queued_bytes w" cs arbitrary: w rule: counter_values.induct)
  case (2 n cs)
  have "Max (insert (max a b) S) = Max (insert b (insert a S))" if "finite S" for a b :: usize and S
    using that by (cases "S = {}") (simp_all add: max.left_commute max.commute)
  then show ?case by (simp add: 2(1)[of "QueueGuard_new n w"] guard_call_fields)
next
  case (3 n cs)
  then show ?case by (simp add: 3(1)[of "QueueGuard_drop n w"] guard_call_fields)
qed simp

section \<open>The invariant of the interleaving\<close>

fun guard_amount :: "guard_pc \<Rightarrow> usize" where
  "guard_amount (Entering amount) = amount"
| "guard_amount (Before_load amount _) = amount"
| "guard_amount (At_loop amount _ _) = amount"
| "guard_amount (Guarded amount) = amount"
| "guard_amount (Dropped amount) = amount"

text \<open>The calls a thread has made to the counter so far.\<close>

fun guard_calls :: "guard_pc \<Rightarrow> guard_call multiset" where
  "guard_calls (Entering amount) = {#}"
| "guard_calls (Dropped amount) = {#Guard_new amount, Guard_drop amount#}"
| "guard_calls t = {#Guard_new (guard_amount t)#}"

fun guard_wants :: "guard_pc \<Rightarrow> usize set" where
  "guard_wants (Before_load _ current) = {current}"
| "guard_wants (At_loop _ current _) = {current}"
| "guard_wants _ = {}"

fun guard_seen :: "usize \<Rightarrow> guard_pc \<Rightarrow> bool" where
  "guard_seen cell (At_loop _ _ peak) = (peak \<le> cell)"
| "guard_seen cell _ = True"

text \<open>\<open>calls\<close> lists the calls in the order of their atomic additions and subtractions.\<close>

definition guard_inv ::
  "usize \<times> usize \<Rightarrow> usize list \<Rightarrow> guard_call list \<Rightarrow> (usize \<times> usize) \<times> guard_pc list \<Rightarrow> bool" where
  "guard_inv start amounts calls s \<longleftrightarrow>
     (case (start, s) of ((queued0, peak0), ((queued, cell), ts)) \<Rightarrow>
        map guard_amount ts = amounts
        \<and> mset calls = sum_list (map guard_calls ts)
        \<and> queued = counter_after queued0 calls
        \<and> set (counter_values queued0 calls) \<subseteq> {..cell} \<union> \<Union> (guard_wants ` set ts)
        \<and> \<Union> (guard_wants ` set ts) \<subseteq> set (counter_values queued0 calls)
        \<and> peak0 \<le> cell \<and> cell \<in> insert peak0 (set (counter_values queued0 calls))
        \<and> (\<forall>t\<in>set ts. guard_seen cell t))"

lemma guard_seen_mono: "guard_seen cell t \<Longrightarrow> cell \<le> cell' \<Longrightarrow> guard_seen cell' t"
  by (cases t) auto

lemma sum_list_map_update:
  "i < length ts \<Longrightarrow> sum_list (map f (ts[i := t])) + f (ts ! i) = sum_list (map f ts) + (f t :: 'a :: comm_monoid_add)"
proof (induction ts arbitrary: i)
  case (Cons x xs)
  then show ?case by (cases i) (simp_all add: ac_simps)
qed simp

lemma guard_move_amount:
  "guard_move fails shared t = Some (shared', t') \<Longrightarrow> guard_amount t' = guard_amount t"
  by (cases "(fails, shared, t)" rule: guard_move.cases) (auto split: if_splits sum.splits prod.splits)

text \<open>The call a move makes to the counter, if any.\<close>

fun guard_event :: "guard_pc \<Rightarrow> guard_call list" where
  "guard_event (Entering amount) = [Guard_new amount]"
| "guard_event (Guarded amount) = [Guard_drop amount]"
| "guard_event _ = []"

lemma guard_move_calls:
  "guard_move fails shared t = Some (shared', t') \<Longrightarrow> guard_calls t' = guard_calls t + mset (guard_event t)"
  by (cases "(fails, shared, t)" rule: guard_move.cases) (auto split: if_splits sum.splits prod.splits)

lemma guard_move_queued:
  "guard_move fails (queued, cell) t = Some ((queued', cell'), t') \<Longrightarrow> queued' = counter_after queued (guard_event t)"
  by (cases "(fails, (queued, cell), t)" rule: guard_move.cases) (auto split: if_splits sum.splits prod.splits)

lemma guard_move_values:
  "guard_move fails (queued, cell) t = Some ((queued', cell'), t') \<Longrightarrow> guard_seen cell t \<Longrightarrow>
     cell \<le> cell' \<and> cell' \<in> insert cell (guard_wants t) \<and> guard_seen cell' t'
     \<and> guard_wants t' \<subseteq> guard_wants t \<union> set (counter_values queued (guard_event t))
     \<and> guard_wants t \<union> set (counter_values queued (guard_event t)) \<subseteq> {..cell'} \<union> guard_wants t'"
  by (cases "(fails, (queued, cell), t)" rule: guard_move.cases)
    (auto simp: compare_exchange_def split: if_splits sum.splits prod.splits)

lemma UN_update_upper: "\<Union> (f ` set (ts[i := t])) \<subseteq> \<Union> (f ` set ts) \<union> f t"
  using set_update_subset_insert[of ts i t] by auto

lemma UN_update_lower:
  assumes "i < length ts"
  shows "\<Union> (f ` set ts) \<subseteq> f (ts ! i) \<union> \<Union> (f ` set (ts[i := t]))" and "f t \<subseteq> \<Union> (f ` set (ts[i := t]))"
proof -
  have "set ts \<subseteq> insert (ts ! i) (set (ts[i := t]))"
    using assms by (auto simp: in_set_conv_nth nth_list_update) metis
  then show "\<Union> (f ` set ts) \<subseteq> f (ts ! i) \<union> \<Union> (f ` set (ts[i := t]))" by auto
  show "f t \<subseteq> \<Union> (f ` set (ts[i := t]))" using assms set_update_memI by fast
qed

lemma guard_inv_move:
  assumes inv: "guard_inv start amounts calls (shared, ts)" and i: "i < length ts"
    and move: "guard_move fails shared (ts ! i) = Some (shared', t)"
  shows "guard_inv start amounts (calls @ guard_event (ts ! i)) (shared', ts[i := t])"
proof -
  obtain queued0 peak0 queued cell queued' cell' where parts:
    "start = (queued0, peak0)" "shared = (queued, cell)" "shared' = (queued', cell')"
    by (metis surj_pair)
  let ?ev = "guard_event (ts ! i)" and ?W = "\<Union> (guard_wants ` set ts)" and ?W' = "\<Union> (guard_wants ` set (ts[i := t]))"
  let ?V = "set (counter_values queued0 calls)" and ?E = "set (counter_values queued ?ev)"
  from inv have old: "map guard_amount ts = amounts" "mset calls = sum_list (map guard_calls ts)"
    "queued = counter_after queued0 calls" "?V \<subseteq> {..cell} \<union> ?W" "?W \<subseteq> ?V" "peak0 \<le> cell"
    "cell \<in> insert peak0 ?V" "\<forall>t\<in>set ts. guard_seen cell t"
    by (auto simp: guard_inv_def parts)
  have i_in: "ts ! i \<in> set ts" using i by simp
  note m = guard_move_values[OF move[unfolded parts]]
  have vals: "cell \<le> cell'" "cell' \<in> insert cell (guard_wants (ts ! i))" "guard_seen cell' t"
      "guard_wants t \<subseteq> guard_wants (ts ! i) \<union> ?E" "guard_wants (ts ! i) \<union> ?E \<subseteq> {..cell'} \<union> guard_wants t"
    using m old(8) i_in by blast+
  have mset_i: "mset (calls @ ?ev) = sum_list (map guard_calls (ts[i := t]))"
    using sum_list_map_update[OF i, of guard_calls t] old(2)
    by (simp add: guard_move_calls[OF move] ac_simps)
  have "map guard_amount (ts[i := t]) = amounts"
    using old(1) i by (simp add: map_update guard_move_amount[OF move] flip: nth_map) 
  moreover have "set (counter_values queued0 (calls @ ?ev)) = ?V \<union> ?E"
    by (simp add: counter_values_append old(3))
  moreover have "?V \<union> ?E \<subseteq> {..cell'} \<union> ?W'"
    using UN_update_lower[OF i, of guard_wants t] vals(1,5) old(4) by fastforce
  moreover have "?W' \<subseteq> ?V \<union> ?E"
    using UN_update_upper[of guard_wants ts i t] vals(4) old(5) i_in by blast
  moreover have "cell' \<in> insert peak0 (?V \<union> ?E)" using vals(2) old(5,7) i_in by blast
  moreover have "\<forall>u\<in>set (ts[i := t]). guard_seen cell' u"
    using old(8) vals(1,3) guard_seen_mono set_update_subset_insert[of ts i t] by blast
  ultimately show ?thesis
    using mset_i vals(1) old(6) guard_move_queued[OF move[unfolded parts]]
    by (simp add: guard_inv_def parts counter_after_append old(3))
qed

lemma guard_inv_start: "guard_inv start (amounts :: usize list) [] (start, map Entering amounts)"
proof -
  have "sum_list (map (guard_calls \<circ> Entering) amounts) = {#}" by (induction amounts) simp_all
  then show ?thesis by (auto simp: guard_inv_def split: prod.splits intro!: map_idI)
qed

lemma guard_inv_steps:
  "(guard_step spurious)\<^sup>*\<^sup>* (start, map Entering amounts) s \<Longrightarrow> \<exists>calls. guard_inv start amounts calls s"
proof (induction rule: rtranclp_induct)
  case base
  show ?case using guard_inv_start by blast
next
  case (step s s')
  from step.hyps(2) step.IH show ?case by cases (blast intro: guard_inv_move)
qed

lemma quiet_peak:
  assumes inv: "guard_inv (queued0, peak0) amounts calls ((queued, cell), ts)" and quiet: "\<not> list_ex in_loop ts"
  shows "cell = Max (insert peak0 (set (counter_values queued0 calls)))"
proof -
  have "guard_wants t = {}" if "\<not> in_loop t" for t using that by (cases t) auto
  then have "\<Union> (guard_wants ` set ts) = {}" using quiet by (auto simp: list_ex_iff)
  with inv show ?thesis by (auto simp: guard_inv_def intro!: Max_eqI[symmetric])
qed

text \<open>
  C21. However the atomic operations of several threads interleave, and whatever weak exchanges
  fail, the queue counters are, once no thread is inside the loop, what the calls of
  \<open>QueueGuard::new\<close> and of the guards' drop give when they are made one after the other: one
  call of each thread that has entered, one drop for each whose guard is gone.
\<close>

theorem queue_counters_linearize:
  assumes "(guard_step spurious)\<^sup>*\<^sup>* ((st_queued_bytes w, st_peak_queued_bytes w), map Entering amounts) ((queued, cell), ts)"
    and "\<not> list_ex in_loop ts"
  shows "\<exists>calls. mset calls = sum_list (map guard_calls ts)
    \<and> st_queued_bytes (fold guard_call_run calls w) = queued
    \<and> st_peak_queued_bytes (fold guard_call_run calls w) = cell"
proof -
  from guard_inv_steps[OF assms(1)] obtain calls where
    inv: "guard_inv (st_queued_bytes w, st_peak_queued_bytes w) amounts calls ((queued, cell), ts)" by blast
  from quiet_peak[OF inv assms(2)] inv show ?thesis
    by (intro exI[of _ calls]) (simp add: guard_inv_def queued_after_calls peak_after_calls)
qed

section \<open>The loop ends\<close>

fun guard_rank :: "nat \<Rightarrow> usize \<Rightarrow> guard_pc \<Rightarrow> nat" where
  "guard_rank n cell (Entering _) = n + 4"
| "guard_rank n cell (Before_load _ _) = n + 3"
| "guard_rank n cell (At_loop _ _ peak) = n + 1 + (if peak = cell then 0 else 1)"
| "guard_rank n cell (Guarded _) = 1"
| "guard_rank n cell (Dropped _) = 0"

lemma guard_move_rank:
  "guard_move False (queued, cell) t = Some ((queued', cell'), t') \<Longrightarrow> 0 < n \<Longrightarrow>
     guard_rank n cell' t' + (if cell' = cell then 0 else n) < guard_rank n cell' t"
  by (cases "(False, (queued, cell), t)" rule: guard_move.cases)
    (auto simp: compare_exchange_def split: if_splits)

lemma guard_rank_stale: "guard_rank n cell' t \<le> guard_rank n cell t + (if cell' = cell then 0 else 1)"
  by (cases t) auto

lemma guard_ranks_stale:
  "sum_list (map (guard_rank n cell') ts)
     \<le> sum_list (map (guard_rank n cell) ts) + (if cell' = cell then 0 else length ts)"
proof (induction ts)
  case (Cons t ts)
  then show ?case using guard_rank_stale[of n cell' t cell] by (auto split: if_splits)
qed simp

fun guards_rank :: "(usize \<times> usize) \<times> guard_pc list \<Rightarrow> nat" where
  "guards_rank ((queued, cell), ts) = sum_list (map (guard_rank (length ts) cell) ts)"

lemma guard_step_rank:
  assumes "guard_step False s s'"
  shows "guards_rank s' < guards_rank s"
  using assms
proof cases
  case (move i ts fails shared shared' t)
  obtain queued cell queued' cell' where sh: "shared = (queued, cell)" "shared' = (queued', cell')"
    by (metis surj_pair)
  let ?n = "length ts"
  from move have "guard_move False (queued, cell) (ts ! i) = Some ((queued', cell'), t)" by (simp add: sh)
  moreover have "0 < ?n" using move(3) by (cases ts) simp_all
  ultimately have "guard_rank ?n cell' t + (if cell' = cell then 0 else ?n) < guard_rank ?n cell' (ts ! i)"
    by (rule guard_move_rank)
  with sum_list_map_update[OF move(3), of "guard_rank ?n cell'" t] guard_ranks_stale[of ?n cell' ts cell]
  show ?thesis using move(1,2) sh by (auto split: if_splits)
qed

lemma guard_steps_rank: "(guard_step False ^^ k) s s' \<Longrightarrow> k + guards_rank s' \<le> guards_rank s"
proof (induction k arbitrary: s')
  case (Suc k)
  then obtain u where "(guard_step False ^^ k) s u" "guard_step False u s'" by auto
  with Suc.IH[of u] guard_step_rank[of u s'] show ?case by simp
qed simp

fun guard_dropped :: "guard_pc \<Rightarrow> bool" where
  "guard_dropped (Dropped _) = True"
| "guard_dropped _ = False"

lemma guard_step_progress:
  assumes "\<not> list_all guard_dropped ts"
  shows "\<exists>s'. guard_step False (shared, ts) s'"
proof -
  from assms obtain i where i: "i < length ts" "\<not> guard_dropped (ts ! i)" by (auto simp: list_all_length)
  then have "\<exists>r. guard_move False shared (ts ! i) = Some r"
    by (cases "(False, shared, ts ! i)" rule: guard_move.cases)
      (auto split: prod.splits sum.splits)
  then obtain shared' t where "guard_move False shared (ts ! i) = Some (shared', t)" by auto
  with i(1) show ?thesis by (blast intro: guard_step.move)
qed

text \<open>
  C22. The loop of \<open>QueueGuard::new\<close> ends: when no weak exchange fails without cause, \<open>n\<close> threads
  that queue bytes and drop their guards make at most \<open>n * (n + 4)\<close> atomic operations between them,
  in whatever order they run, and a thread that is not done can always move.
\<close>

theorem queue_peak_loop_ends:
  assumes "(guard_step False ^^ k) (start, map Entering amounts) (shared, ts)"
  shows "k \<le> length amounts * (length amounts + 4)
    \<and> (list_all guard_dropped ts \<or> (\<exists>s'. guard_step False (shared, ts) s'))"
proof
  have "guards_rank (start, map Entering amounts) = length amounts * (length amounts + 4)"
    by (cases start) (simp add: comp_def sum_list_triv)
  with guard_steps_rank[OF assms] show "k \<le> length amounts * (length amounts + 4)" by simp
  show "list_all guard_dropped ts \<or> (\<exists>s'. guard_step False (shared, ts) s')"
    using guard_step_progress by blast
qed

section \<open>Two threads whose exchanges collide\<close>

text \<open>
  Two threads queue 3 and 5 bytes; both load the peak 0, the second raises it to 8 first, the
  exchange of the first fails, it sees 8 and leaves the loop.
\<close>

fun guard_schedule ::
  "nat list \<Rightarrow> (usize \<times> usize) \<times> guard_pc list \<Rightarrow> ((usize \<times> usize) \<times> guard_pc list) option" where
  "guard_schedule [] s = Some s"
| "guard_schedule (i # is) (shared, ts) =
     (if i < length ts
      then (case guard_move False shared (ts ! i) of
              None \<Rightarrow> None
            | Some (shared', t) \<Rightarrow> guard_schedule is (shared', ts[i := t]))
      else None)"

lemma guard_schedule_steps:
  "guard_schedule is s = Some s' \<Longrightarrow> (guard_step False ^^ length is) s s'"
proof (induction "is" s rule: guard_schedule.induct)
  case (2 i "is" shared ts)
  then obtain shared' t where i: "i < length ts" and m: "guard_move False shared (ts ! i) = Some (shared', t)"
      and rest: "guard_schedule is (shared', ts[i := t]) = Some s'"
    by (auto split: if_splits option.splits)
  from guard_step.move[OF i _ m, of False] 2(1)[OF i m refl rest]
  have "(guard_step False ^^ Suc (length is)) (shared, ts) s'" by (blast intro: relpowp_Suc_I2)
  then show ?case by simp
qed simp

lemma two_threads_run:
  "guard_schedule [0, 1, 0, 1, 1, 0, 0, 0] ((0, 0), map Entering [3, 5]) = Some ((5, 8), [Dropped 3, Guarded 5])"
  by (simp add: compare_exchange_def)

theorem queue_counters_linearize_witness:
  "\<exists>calls. mset calls = {#Guard_new 5, Guard_new 3, Guard_drop 3#}
    \<and> st_queued_bytes (fold guard_call_run calls (initial {} :: (unit, unit) nif_state)) = 5
    \<and> st_peak_queued_bytes (fold guard_call_run calls (initial {} :: (unit, unit) nif_state)) = 8"
proof -
  have "(guard_step False)\<^sup>*\<^sup>* ((st_queued_bytes (initial {} :: (unit, unit) nif_state),
      st_peak_queued_bytes (initial {} :: (unit, unit) nif_state)), map Entering [3, 5]) ((5, 8), [Dropped 3, Guarded 5])"
    using relpowp_imp_rtranclp[OF guard_schedule_steps[OF two_threads_run]] by (simp add: initial_def)
  from queue_counters_linearize[OF this] show ?thesis by simp
qed

theorem queue_peak_loop_ends_witness:
  "8 \<le> length [3, 5 :: usize] * (length [3, 5 :: usize] + 4)
    \<and> (\<exists>s'. guard_step False ((5, 8), [Dropped 3, Guarded 5]) s')"
  using queue_peak_loop_ends[OF guard_schedule_steps[OF two_threads_run]] by simp

end
