(* ===== verification/Tickets.thy ===== *)
theory Tickets
  imports Identity
begin

text \<open>
  Tickets out and in: what the parsers of \<^verbatim>\<open>native/iroh_beam_nif/src/identity.rs\<close> make of the tickets
  its constructors print and encode. The codec belongs to Iroh; that it decodes what it has
  encoded, and that an address has the parts it was made of, are hypotheses.
\<close>

lemma guarded_call_simps [simp]:
  "encode_guarded operation (guarded_call False r) = r" "guarded (guarded_call False r) e = r"
  by (simp_all add: guarded_call_def encode_guarded_def guarded_def)

text \<open>The answer of a parser that knows the ticket, under its size limit.\<close>

definition within :: "nat \<Rightarrow> nat \<Rightarrow> 'a \<Rightarrow> 'a nif_result" where
  "within limit n v =
     (if n \<le> limit then Inr v else Inl (invalid At_endpoint_ticket ''endpoint ticket is too large''))"

lemma build_addr_id:
  "build_addr api endpoint_id relay_urls ip_addrs = Inr addr \<Longrightarrow>
     \<exists>i ts. id_from_bytes api endpoint_id = Inr i \<and> addr = addr_from_parts api i ts"
  by (auto simp: build_addr_def bind_result_Inr_iff split: if_splits)

text \<open>
  C23. Tickets come back: if the codec of the library decodes what it has encoded, a ticket made
  of an address in either form is parsed to the identifier, relay URLs and IP addresses that the
  address normalizes to, and its text converts to its bytes, exactly when it is within the size limits
  of the parsers. The constructors do not check these limits: a larger ticket is made and then refused.
\<close>

theorem ticket_roundtrip:
  assumes "\<And>t. ticket_of_str api (ticket_to_string api t) = Some t"
    and "\<And>t. ticket_decode_bytes api (ticket_encode_bytes api t) = Some t"
    and "\<And>a. ticket_addr api (ticket_new api a) = a"
    and "\<And>i ts. addr_id api (addr_from_parts api i ts) = i"
    and "endpoint_ticket_from_addr_text api False endpoint_id relay_urls ip_addrs = Inr printed"
    and "endpoint_ticket_from_addr_bytes api False True endpoint_id relay_urls ip_addrs = Inr encoded"
  shows "\<exists>p. endpoint_ticket_parse_text api False printed = within MAX_TICKET_TEXT_BYTES (length printed) p
    \<and> endpoint_ticket_parse_bytes api False encoded = within MAX_TICKET_BYTES (length encoded) p
    \<and> endpoint_ticket_text_to_bytes api False True printed = within MAX_TICKET_TEXT_BYTES (length printed) encoded
    \<and> pt_text p = printed \<and> endpoint_id_from_bytes api False endpoint_id = Inr (pt_endpoint_id p)
    \<and> endpoint_addr_normalize api False endpoint_id relay_urls ip_addrs
        = Inr \<lparr>na_relay_urls = pt_relay_urls p, na_ip_addrs = pt_ip_addrs p\<rparr>"
proof -
  from assms(5) obtain addr where addr: "build_addr api endpoint_id relay_urls ip_addrs = Inr addr"
      and printed: "printed = ticket_to_string api (ticket_new api addr)"
    by (auto simp: endpoint_ticket_from_addr_text_def bind_result_Inr_iff)
  have encoded: "encoded = ticket_encode_bytes api (ticket_new api addr)"
    using assms(6) addr by (simp add: endpoint_ticket_from_addr_bytes_def allocate_binary_def Let_def)
  from build_addr_id [OF addr] obtain i ts where i: "id_from_bytes api endpoint_id = Inr i" "addr = addr_from_parts api i ts"
    by blast
  let ?p = "parsed_ticket api (ticket_new api addr)"
  have "endpoint_ticket_parse_text api False printed = within MAX_TICKET_TEXT_BYTES (length printed) ?p"
    by (simp add: endpoint_ticket_parse_text_def within_def printed assms(1) ok_or_def)
  moreover have "endpoint_ticket_parse_bytes api False encoded = within MAX_TICKET_BYTES (length encoded) ?p"
    by (simp add: endpoint_ticket_parse_bytes_def within_def encoded assms(2) ok_or_def)
  moreover have "endpoint_ticket_text_to_bytes api False True printed = within MAX_TICKET_TEXT_BYTES (length printed) encoded"
    by (simp add: endpoint_ticket_text_to_bytes_def within_def printed encoded assms(1) ok_or_def allocate_binary_def)
  moreover have "endpoint_id_from_bytes api False endpoint_id = Inr (pt_endpoint_id ?p)"
    by (simp add: endpoint_id_from_bytes_def parsed_ticket_def Let_def i assms(3,4))
  moreover have "endpoint_addr_normalize api False endpoint_id relay_urls ip_addrs
      = Inr \<lparr>na_relay_urls = pt_relay_urls ?p, na_ip_addrs = pt_ip_addrs ?p\<rparr>"
    by (simp add: endpoint_addr_normalize_def addr parsed_ticket_def Let_def assms(3) normalize_addr_def)
  ultimately show ?thesis by (intro exI [of _ ?p]) (simp add: parsed_ticket_def printed Let_def)
qed

section \<open>A worked ticket\<close>

text \<open>A library whose tickets are identifiers without addresses.\<close>

definition id_api :: "(string, bytes, bytes, bytes, bytes) iroh_identity_api" where
  "id_api =
     \<lparr>url_from_str = Some, url_scheme = (\<lambda>_. ''https''), url_host_str = Some,
      url_username = (\<lambda>_. []), url_password = (\<lambda>_. None), url_query = (\<lambda>_. None),
      url_fragment = (\<lambda>_. None), url_to_string = (\<lambda>u. u),
      id_of_bytes = Some, id_of_str = (\<lambda>s. Some (as_bytes s)),
      id_to_string = bytes_to_text, id_as_bytes = (\<lambda>i. i),
      addr_from_parts = (\<lambda>i _. i), addr_id = (\<lambda>i. i), addr_relay_urls = (\<lambda>_. []), addr_ip_addrs = (\<lambda>_. []),
      addr_is_empty = (\<lambda>_. True), ticket_new = (\<lambda>a. a), ticket_addr = (\<lambda>a. a),
      ticket_to_string = bytes_to_text, ticket_of_str = (\<lambda>s. Some (as_bytes s)),
      ticket_encode_bytes = (\<lambda>t. t), ticket_decode_bytes = Some,
      key_of_bytes = (\<lambda>bs. bs), key_to_bytes = (\<lambda>k. k), key_public = (\<lambda>k. k)\<rparr>"

lemma as_bytes_to_text: "as_bytes (bytes_to_text bs) = bs"
proof -
  have "of_char (char_of (unat b)) = b" for b :: u8
  proof -
    have "(of_char (char_of (unat b)) :: u8) = of_nat (of_char (char_of (unat b)))" by (rule of_nat_of_char [symmetric])
    also have "\<dots> = b" using unsigned_less [of b, where ?'a = nat] by (simp add: of_char_of)
    finally show ?thesis .
  qed
  then show ?thesis by (induction bs) (simp_all add: as_bytes_def bytes_to_text_def)
qed

lemma demo_text: "bytes_to_text (replicate 32 97) = replicate 32 CHR ''a''"
  by code_simp

theorem ticket_roundtrip_witness:
  "\<exists>p. endpoint_ticket_parse_text id_api False (replicate 32 CHR ''a'') = Inr p
    \<and> pt_text p = replicate 32 CHR ''a'' \<and> pt_relay_urls p = []"
proof -
  have "endpoint_ticket_from_addr_text id_api False (replicate 32 97) [] [] = Inr (replicate 32 CHR ''a'')"
      "endpoint_ticket_from_addr_bytes id_api False True (replicate 32 97) [] [] = Inr (replicate 32 97)"
    using demo_text
    by (simp_all add: id_api_def endpoint_ticket_from_addr_text_def endpoint_ticket_from_addr_bytes_def build_addr_def
        id_from_bytes_def KEY_SIZE_def MAX_ADDRS_def ok_or_def allocate_binary_def)
  from ticket_roundtrip [OF _ _ _ _ this] show ?thesis
    by (auto simp: id_api_def as_bytes_to_text within_def MAX_TICKET_TEXT_BYTES_def endpoint_addr_normalize_def
        build_addr_def id_from_bytes_def KEY_SIZE_def MAX_ADDRS_def ok_or_def normalize_addr_def)
qed

end
