(* ===== verification/Rust_Fs.thy ===== *)
theory Rust_Fs
  imports Rust_Net
begin

text \<open>
  Paths and files as the Rust standard library presents them on Unix: the component view of a
  path, and programs over the calls of \<open>std::fs\<close> that the crate makes. A program is a tree of
  calls; its meaning is given once as an inductive step, in which any call may also fail, and
  once as a function for a file system that serves every call it can.
\<close>

section \<open>Paths\<close>

datatype component = RootDir | CurDir | ParentDir | Normal string

type_synonym path = "component list"

fun split_slash :: "string \<Rightarrow> string list" where
  "split_slash [] = [[]]"
| "split_slash (c # cs) =
     (if c = CHR ''/'' then [] # split_slash cs
      else case split_slash cs of [] \<Rightarrow> [[c]] | p # ps \<Rightarrow> (c # p) # ps)"

fun path_parts :: "string list \<Rightarrow> path" where
  "path_parts [] = []"
| "path_parts (p # ps) =
     (if p = [] \<or> p = ''.'' then path_parts ps
      else (if p = ''..'' then ParentDir else Normal p) # path_parts ps)"

text \<open>\<open>Path::components\<close>: repeated separators and inner \<open>.\<close> components vanish, a leading one stays.\<close>

definition path_components :: "string \<Rightarrow> path" where
  "path_components s =
     (case split_slash s of
        [] \<Rightarrow> []
      | p # ps \<Rightarrow>
          if s \<noteq> [] \<and> hd s = CHR ''/'' then RootDir # path_parts ps
          else if p = ''.'' then CurDir # path_parts ps
          else path_parts (p # ps))"

definition path_parent :: "path \<Rightarrow> path option" where
  "path_parent p = (if p = [] \<or> last p = RootDir then None else Some (butlast p))"

definition path_file_name :: "path \<Rightarrow> string option" where
  "path_file_name p = (if p = [] then None else case last p of Normal n \<Rightarrow> Some n | _ \<Rightarrow> None)"

section \<open>Files and calls\<close>

type_synonym inode = nat
type_synonym u32 = "32 word"

datatype entry = Entry_file inode | Entry_dir

text \<open>
  \<open>fs_next\<close> is an inode number that has not been used, \<open>fs_counter\<close> the value of the static
  \<open>TEMP_COUNTER\<close> in each operating system process.
\<close>

record fs =
  fs_names :: "path \<rightharpoonup> entry"
  fs_content :: "inode \<Rightarrow> bytes"
  fs_mode :: "inode \<Rightarrow> nat"
  fs_next :: inode
  fs_counter :: "u32 \<Rightarrow> u64"

record metadata =
  md_is_file :: bool
  md_len :: nat

datatype link_result = Link_ok | Link_exists | Link_failed

datatype ('k, 'a) prog =
    Return 'a
  | Exists path "bool \<Rightarrow> ('k, 'a) prog"
  | Metadata path "metadata option \<Rightarrow> ('k, 'a) prog"
  | Read path "bytes option \<Rightarrow> ('k, 'a) prog"
  | Create_dir_all path "bool \<Rightarrow> ('k, 'a) prog"
  | Generate "'k \<Rightarrow> ('k, 'a) prog"
  | Counter_fetch_add "u64 \<Rightarrow> ('k, 'a) prog"
  | Process_id "u32 \<Rightarrow> ('k, 'a) prog"
  | Create_new path nat "inode option \<Rightarrow> ('k, 'a) prog"
  | Write_all inode bytes "bool \<Rightarrow> ('k, 'a) prog"
  | Sync_all inode "bool \<Rightarrow> ('k, 'a) prog"
  | Remove_file path "bool \<Rightarrow> ('k, 'a) prog"
  | Hard_link path path "link_result \<Rightarrow> ('k, 'a) prog"

primrec bind_prog :: "('k, 'a) prog \<Rightarrow> ('a \<Rightarrow> ('k, 'b) prog) \<Rightarrow> ('k, 'b) prog" where
  "bind_prog (Return v) f = f v"
| "bind_prog (Exists p k) f = Exists p (\<lambda>b. bind_prog (k b) f)"
| "bind_prog (Metadata p k) f = Metadata p (\<lambda>m. bind_prog (k m) f)"
| "bind_prog (Read p k) f = Read p (\<lambda>r. bind_prog (k r) f)"
| "bind_prog (Create_dir_all p k) f = Create_dir_all p (\<lambda>b. bind_prog (k b) f)"
| "bind_prog (Generate k) f = Generate (\<lambda>x. bind_prog (k x) f)"
| "bind_prog (Counter_fetch_add k) f = Counter_fetch_add (\<lambda>n. bind_prog (k n) f)"
| "bind_prog (Process_id k) f = Process_id (\<lambda>n. bind_prog (k n) f)"
| "bind_prog (Create_new p m k) f = Create_new p m (\<lambda>i. bind_prog (k i) f)"
| "bind_prog (Write_all i bs k) f = Write_all i bs (\<lambda>b. bind_prog (k b) f)"
| "bind_prog (Sync_all i k) f = Sync_all i (\<lambda>b. bind_prog (k b) f)"
| "bind_prog (Remove_file p k) f = Remove_file p (\<lambda>b. bind_prog (k b) f)"
| "bind_prog (Hard_link p q k) f = Hard_link p q (\<lambda>l. bind_prog (k l) f)"

text \<open>The effects of the calls when they succeed.\<close>

definition fs_metadata :: "path \<Rightarrow> fs \<Rightarrow> metadata option" where
  "fs_metadata p s =
     (case fs_names s p of
        None \<Rightarrow> None
      | Some Entry_dir \<Rightarrow> Some \<lparr>md_is_file = False, md_len = 0\<rparr>
      | Some (Entry_file i) \<Rightarrow> Some \<lparr>md_is_file = True, md_len = length (fs_content s i)\<rparr>)"

definition fs_read :: "path \<Rightarrow> fs \<Rightarrow> bytes option" where
  "fs_read p s = (case fs_names s p of Some (Entry_file i) \<Rightarrow> Some (fs_content s i) | _ \<Rightarrow> None)"

definition ancestors :: "path \<Rightarrow> path set" where
  "ancestors p = (\<lambda>n. take n p) ` {..length p}"

definition fs_mkdirs :: "path \<Rightarrow> fs \<Rightarrow> fs option" where
  "fs_mkdirs p s =
     (if \<exists>q\<in>ancestors p. \<exists>i. fs_names s q = Some (Entry_file i) then None
      else Some (s\<lparr>fs_names := (\<lambda>q. if q \<in> ancestors p then Some Entry_dir else fs_names s q)\<rparr>))"

definition fs_create :: "path \<Rightarrow> nat \<Rightarrow> fs \<Rightarrow> (inode \<times> fs) option" where
  "fs_create p mode s =
     (if fs_names s p \<noteq> None then None
      else Some (fs_next s, s\<lparr>fs_names := (fs_names s)(p \<mapsto> Entry_file (fs_next s)),
              fs_content := (fs_content s)(fs_next s := []), fs_mode := (fs_mode s)(fs_next s := mode),
              fs_next := Suc (fs_next s)\<rparr>))"

definition fs_append :: "inode \<Rightarrow> bytes \<Rightarrow> fs \<Rightarrow> fs" where
  "fs_append i bs s = s\<lparr>fs_content := (fs_content s)(i := fs_content s i @ bs)\<rparr>"

definition fs_remove :: "path \<Rightarrow> fs \<Rightarrow> fs option" where
  "fs_remove p s =
     (case fs_names s p of
        Some (Entry_file i) \<Rightarrow> Some (s\<lparr>fs_names := (fs_names s)(p := None)\<rparr>)
      | _ \<Rightarrow> None)"

definition fs_link :: "path \<Rightarrow> path \<Rightarrow> fs \<Rightarrow> link_result \<times> fs" where
  "fs_link p q s =
     (case fs_names s p of
        Some (Entry_file i) \<Rightarrow>
          if fs_names s q \<noteq> None then (Link_exists, s)
          else (Link_ok, s\<lparr>fs_names := (fs_names s)(q \<mapsto> Entry_file i)\<rparr>)
      | _ \<Rightarrow> (Link_failed, s))"

definition fs_tick :: "u32 \<Rightarrow> fs \<Rightarrow> fs" where
  "fs_tick pid s = s\<lparr>fs_counter := (fs_counter s)(pid := fs_counter s pid + 1)\<rparr>"

text \<open>
  One call of a thread in process \<open>pid\<close>. Every call may fail without effect; a failed write may
  leave any prefix of its data behind.
\<close>

inductive call_step :: "u32 \<Rightarrow> fs \<Rightarrow> ('k, 'a) prog \<Rightarrow> fs \<Rightarrow> ('k, 'a) prog \<Rightarrow> bool" for pid where
  exists: "call_step pid s (Exists p k) s (k (fs_names s p \<noteq> None))"
| exists_err: "call_step pid s (Exists p k) s (k False)"
| metadata: "call_step pid s (Metadata p k) s (k (fs_metadata p s))"
| metadata_err: "call_step pid s (Metadata p k) s (k None)"
| read: "call_step pid s (Read p k) s (k (fs_read p s))"
| read_err: "call_step pid s (Read p k) s (k None)"
| mkdirs: "fs_mkdirs p s = Some s' \<Longrightarrow> call_step pid s (Create_dir_all p k) s' (k True)"
| mkdirs_err: "call_step pid s (Create_dir_all p k) s (k False)"
| generate: "call_step pid s (Generate k) s (k key)"
| fetch_add: "call_step pid s (Counter_fetch_add k) (fs_tick pid s) (k (fs_counter s pid))"
| process_id: "call_step pid s (Process_id k) s (k pid)"
| create: "fs_create p mode s = Some (i, s') \<Longrightarrow> call_step pid s (Create_new p mode k) s' (k (Some i))"
| create_err: "call_step pid s (Create_new p mode k) s (k None)"
| write_all: "call_step pid s (Write_all i bs k) (fs_append i bs s) (k True)"
| write_err: "call_step pid s (Write_all i bs k) (fs_append i (take n bs) s) (k False)"
| sync: "call_step pid s (Sync_all i k) s (k b)"
| remove: "fs_remove p s = Some s' \<Longrightarrow> call_step pid s (Remove_file p k) s' (k True)"
| remove_err: "call_step pid s (Remove_file p k) s (k False)"
| link: "fs_link p q s = (r, s') \<Longrightarrow> call_step pid s (Hard_link p q k) s' (k r)"
| link_err: "call_step pid s (Hard_link p q k) s (k Link_failed)"

text \<open>A run in a file system without faults, alone; \<open>gen\<close> is the key that is generated.\<close>

primrec run_prog :: "u32 \<Rightarrow> 'k \<Rightarrow> ('k, 'a) prog \<Rightarrow> fs \<Rightarrow> 'a \<times> fs" where
  "run_prog pid gen (Return v) s = (v, s)"
| "run_prog pid gen (Exists p k) s = run_prog pid gen (k (fs_names s p \<noteq> None)) s"
| "run_prog pid gen (Metadata p k) s = run_prog pid gen (k (fs_metadata p s)) s"
| "run_prog pid gen (Read p k) s = run_prog pid gen (k (fs_read p s)) s"
| "run_prog pid gen (Create_dir_all p k) s =
     (case fs_mkdirs p s of None \<Rightarrow> run_prog pid gen (k False) s | Some s' \<Rightarrow> run_prog pid gen (k True) s')"
| "run_prog pid gen (Generate k) s = run_prog pid gen (k gen) s"
| "run_prog pid gen (Counter_fetch_add k) s = run_prog pid gen (k (fs_counter s pid)) (fs_tick pid s)"
| "run_prog pid gen (Process_id k) s = run_prog pid gen (k pid) s"
| "run_prog pid gen (Create_new p mode k) s =
     (case fs_create p mode s of
        None \<Rightarrow> run_prog pid gen (k None) s
      | Some (i, s') \<Rightarrow> run_prog pid gen (k (Some i)) s')"
| "run_prog pid gen (Write_all i bs k) s = run_prog pid gen (k True) (fs_append i bs s)"
| "run_prog pid gen (Sync_all i k) s = run_prog pid gen (k True) s"
| "run_prog pid gen (Remove_file p k) s =
     (case fs_remove p s of None \<Rightarrow> run_prog pid gen (k False) s | Some s' \<Rightarrow> run_prog pid gen (k True) s')"
| "run_prog pid gen (Hard_link p q k) s =
     (case fs_link p q s of (r, s') \<Rightarrow> run_prog pid gen (k r) s')"

lemma run_prog_bind:
  "run_prog pid gen (bind_prog m f) s = (case run_prog pid gen m s of (v, s') \<Rightarrow> run_prog pid gen (f v) s')"
  by (induction m arbitrary: s) (auto split: option.splits prod.splits)

text \<open>The run is one of the behaviours that the steps allow.\<close>

inductive call_steps :: "u32 \<Rightarrow> fs \<Rightarrow> ('k, 'a) prog \<Rightarrow> fs \<Rightarrow> ('k, 'a) prog \<Rightarrow> bool" for pid where
  none: "call_steps pid s p s p"
| more: "call_step pid s p s' p' \<Longrightarrow> call_steps pid s' p' s'' p'' \<Longrightarrow> call_steps pid s p s'' p''"

lemma run_prog_steps: "run_prog pid gen p s = (v, s') \<Longrightarrow> call_steps pid s p s' (Return v)"
proof (induction p arbitrary: s)
  case (Return x)
  then show ?case by (simp add: call_steps.none)
next
  case (Generate k)
  then show ?case by (auto intro: call_steps.more [OF call_step.generate [where key = gen]])
next
  case (Sync_all i k)
  then show ?case by (auto intro: call_steps.more [OF call_step.sync [where b = True]])
qed (auto split: option.splits prod.splits intro: call_steps.more call_step.intros)

end
