(* ===== verification/Identity_File.thy ===== *)
theory Identity_File
  imports Identity Rust_Fs
begin

text \<open>
  The identity file of \<^verbatim>\<open>native/iroh_beam_nif/src/identity.rs\<close>: \<open>read_key\<close>, \<open>temp_path\<close>,
  \<open>create_temp\<close>, \<open>create_identity\<close> and \<open>identity_load_or_create\<close>, as programs over file system
  calls. The secret key is written to a temporary file and published under its name by a hard
  link, so that several threads and processes may race for the same path.
\<close>

section \<open>The programs\<close>

definition read_key ::
  "('url, 'id, 'addr, 'ticket, 'key, 'z) iroh_identity_api_scheme \<Rightarrow> path \<Rightarrow> ('key, 'key nif_result) prog" where
  "read_key api path =
     Metadata path (\<lambda>metadata. case metadata of
       None \<Rightarrow> Return (Inl (io_error ''identity file could not be read''))
     | Some metadata \<Rightarrow>
         if \<not> md_is_file metadata \<or> md_len metadata \<noteq> KEY_SIZE
         then Return (Inl (invalid At_identity_load ''identity file has an invalid format''))
         else Read path (\<lambda>bs. case bs of
                None \<Rightarrow> Return (Inl (io_error ''identity file could not be read''))
              | Some bs \<Rightarrow>
                  if length bs \<noteq> KEY_SIZE
                  then Return (Inl (invalid At_identity_load ''identity file has an invalid format''))
                  else Return (Inr (key_of_bytes api bs))))"

definition temp_name :: "string \<Rightarrow> u32 \<Rightarrow> u64 \<Rightarrow> string" where
  "temp_name name pid sequence =
     ''.'' @ name @ ''.'' @ show_radix 10 (unat pid) @ ''.'' @ show_radix 10 (unat sequence) @ ''.tmp''"

text \<open>The file name comes from a \<open>String\<close>, so \<open>to_str\<close> succeeds on it.\<close>

definition temp_path :: "path \<Rightarrow> ('key, path nif_result) prog" where
  "temp_path path =
     (case path_parent path of
        None \<Rightarrow> Return (Inl (invalid At_identity_load ''identity path has no parent directory''))
      | Some parent \<Rightarrow>
          (case path_file_name path of
             None \<Rightarrow> Return (Inl (invalid At_identity_load ''identity path is invalid''))
           | Some name \<Rightarrow>
               Counter_fetch_add (\<lambda>sequence. Process_id (\<lambda>pid.
                 Return (Inr (parent @ [Normal (temp_name name pid sequence)]))))))"

text \<open>The Unix variant, with mode \<open>0o600\<close>.\<close>

definition create_temp :: "path \<Rightarrow> ('key, inode option) prog" where
  "create_temp path = Create_new path 384 Return"

definition create_identity ::
  "('url, 'id, 'addr, 'ticket, 'key, 'z) iroh_identity_api_scheme \<Rightarrow> path \<Rightarrow> ('key, 'key nif_result) prog" where
  "create_identity api path =
     (case path_parent path of
        None \<Rightarrow> Return (Inl (invalid At_identity_load ''identity path has no parent directory''))
      | Some parent \<Rightarrow>
          Create_dir_all parent (\<lambda>created. if \<not> created
            then Return (Inl (io_error ''identity directory could not be created''))
            else Generate (\<lambda>key. bind_prog (temp_path path) (\<lambda>temp. case temp of
              Inl e \<Rightarrow> Return (Inl e)
            | Inr temp \<Rightarrow>
                bind_prog (create_temp temp) (\<lambda>file. case file of
                  None \<Rightarrow> Return (Inl (io_error ''identity temporary file failed''))
                | Some file \<Rightarrow>
                    let bytes = key_to_bytes api key
                    in bind_prog
                         (Write_all file bytes (\<lambda>written. if written then Sync_all file Return else Return False))
                         (\<lambda>write_result. if \<not> write_result
                            then Remove_file temp (\<lambda>_.
                                   Return (Inl (io_error ''identity temporary file could not be written'')))
                            else Hard_link temp path (\<lambda>publication. Remove_file temp (\<lambda>_.
                                   case publication of
                                     Link_ok \<Rightarrow> Return (Inr key)
                                   | Link_exists \<Rightarrow> read_key api path
                                   | Link_failed \<Rightarrow>
                                       Return (Inl (io_error ''identity file could not be published''))))))))))"

definition identity_load_or_create ::
  "('url, 'id, 'addr, 'ticket, 'key, 'z) iroh_identity_api_scheme \<Rightarrow> string \<Rightarrow> ('key, 'key nif_result) prog" where
  "identity_load_or_create api text =
     (if text = [] \<or> length text > 32 * 1024
      then Return (Inl (invalid At_identity_load ''identity path is invalid''))
      else let path = path_components text
           in Exists path (\<lambda>found. if found then read_key api path else create_identity api path))"

text \<open>
  The call runs under \<open>encode_guarded\<close>: a panic anywhere inside it is caught and answered with
  the internal error of the operation. What had been done to the file system stays done, a
  temporary file included.
\<close>

definition identity_load_panicked :: "('key, 'key nif_result) prog" where
  "identity_load_panicked = Return (encode_guarded At_identity_load Panicked)"

lemma temp_name_longer: "length name < length (temp_name name pid sequence)"
  by (simp add: temp_name_def)

lemma path_parent_file_name:
  "path_parent p = Some parent \<Longrightarrow> path_file_name p = Some name \<Longrightarrow> p = parent @ [Normal name]"
  by (auto simp: path_parent_def path_file_name_def split: if_splits component.splits)
     (metis append_butlast_last_id)

lemma temp_path_other:
  "path_parent p = Some parent \<Longrightarrow> path_file_name p = Some name
     \<Longrightarrow> parent @ [Normal (temp_name name pid sequence)] \<noteq> p"
  using path_parent_file_name [of p parent name] temp_name_longer [of name pid sequence] by auto

section \<open>What a thread may do next\<close>

text \<open>
  The state of a thread, as far as the others must respect it: the temporary file it has
  created (name, inode, what it has written, whether the inode is published), and the key that
  it knows to be in the identity file.
\<close>

record 'key holding =
  hd_temp :: "(path \<times> inode \<times> bytes \<times> bool) option"
  hd_key :: "'key option"

text \<open>
  The discipline of a program for the path \<open>p\<close>: it creates one temporary file at a time, away
  from \<open>p\<close>, writes only to it and only before publishing it, publishes it only when it holds a
  whole key, and returns only a key it knows to be in the file.
\<close>

inductive disciplined ::
  "(bytes \<Rightarrow> 'key) \<Rightarrow> path \<Rightarrow> 'key holding \<Rightarrow> ('key, 'key nif_result) prog \<Rightarrow> bool" for of_bytes p where
  error: "disciplined of_bytes p h (Return (Inl e))"
| key: "hd_key h = Some key \<Longrightarrow> disciplined of_bytes p h (Return (Inr key))"
| exists: "(\<And>b. disciplined of_bytes p h (k b)) \<Longrightarrow> disciplined of_bytes p h (Exists q k)"
| metadata: "(\<And>m. disciplined of_bytes p h (k m)) \<Longrightarrow> disciplined of_bytes p h (Metadata q k)"
| read:
    "disciplined of_bytes p h (k None)
       \<Longrightarrow> (\<And>bs. length bs \<noteq> KEY_SIZE \<Longrightarrow> disciplined of_bytes p h (k (Some bs)))
       \<Longrightarrow> (\<And>bs. length bs = KEY_SIZE \<Longrightarrow> disciplined of_bytes p (h\<lparr>hd_key := Some (of_bytes bs)\<rparr>) (k (Some bs)))
       \<Longrightarrow> disciplined of_bytes p h (Read p k)"
| mkdirs: "p \<notin> ancestors q \<Longrightarrow> (\<And>b. disciplined of_bytes p h (k b)) \<Longrightarrow> disciplined of_bytes p h (Create_dir_all q k)"
| generate: "(\<And>key. disciplined of_bytes p h (k key)) \<Longrightarrow> disciplined of_bytes p h (Generate k)"
| counter: "(\<And>n. disciplined of_bytes p h (k n)) \<Longrightarrow> disciplined of_bytes p h (Counter_fetch_add k)"
| process: "(\<And>n. disciplined of_bytes p h (k n)) \<Longrightarrow> disciplined of_bytes p h (Process_id k)"
| create:
    "q \<noteq> p \<Longrightarrow> hd_temp h = None \<Longrightarrow> disciplined of_bytes p h (k None)
       \<Longrightarrow> (\<And>i. disciplined of_bytes p (h\<lparr>hd_temp := Some (q, i, [], False)\<rparr>) (k (Some i)))
       \<Longrightarrow> disciplined of_bytes p h (Create_new q 384 k)"
| write_all:
    "hd_temp h = Some (q, i, bs, False)
       \<Longrightarrow> disciplined of_bytes p (h\<lparr>hd_temp := Some (q, i, bs @ data, False)\<rparr>) (k True)
       \<Longrightarrow> (\<And>n. disciplined of_bytes p (h\<lparr>hd_temp := Some (q, i, bs @ take n data, False)\<rparr>) (k False))
       \<Longrightarrow> disciplined of_bytes p h (Write_all i data k)"
| sync: "(\<And>b. disciplined of_bytes p h (k b)) \<Longrightarrow> disciplined of_bytes p h (Sync_all i k)"
| remove:
    "hd_temp h = Some (q, i, bs, pub) \<Longrightarrow> (\<And>b. disciplined of_bytes p (h\<lparr>hd_temp := None\<rparr>) (k b))
       \<Longrightarrow> disciplined of_bytes p h (Remove_file q k)"
| link:
    "hd_temp h = Some (q, i, bs, False) \<Longrightarrow> length bs = KEY_SIZE
       \<Longrightarrow> disciplined of_bytes p (h\<lparr>hd_temp := Some (q, i, bs, True), hd_key := Some (of_bytes bs)\<rparr>) (k Link_ok)
       \<Longrightarrow> disciplined of_bytes p h (k Link_exists) \<Longrightarrow> disciplined of_bytes p h (k Link_failed)
       \<Longrightarrow> disciplined of_bytes p h (Hard_link q p k)"

text \<open>What the documentation of \<open>SecretKey\<close> promises: 32 bytes that give the key again.\<close>

definition keys_ok :: "('url, 'id, 'addr, 'ticket, 'key, 'z) iroh_identity_api_scheme \<Rightarrow> bool" where
  "keys_ok api \<longleftrightarrow>
     (\<forall>key. length (key_to_bytes api key) = KEY_SIZE \<and> key_of_bytes api (key_to_bytes api key) = key)"

lemma read_key_disciplined: "disciplined (key_of_bytes api) p h (read_key api p)"
  unfolding read_key_def
  by (auto intro!: disciplined.intros split: option.splits)

lemma parent_not_self: "path_parent p = Some parent \<Longrightarrow> p \<notin> ancestors parent"
proof -
  assume "path_parent p = Some parent"
  then have "length parent < length p"
    by (auto simp: path_parent_def split: if_splits)
  then show ?thesis by (auto simp: ancestors_def)
qed

lemma publish_disciplined:
  assumes "keys_ok api" and temp: "hd_temp h = Some (t, i, key_to_bytes api key, False)"
  shows "disciplined (key_of_bytes api) p h (Hard_link t p (\<lambda>publication. Remove_file t (\<lambda>_.
    case publication of
      Link_ok \<Rightarrow> Return (Inr key)
    | Link_exists \<Rightarrow> read_key api p
    | Link_failed \<Rightarrow> Return (Inl e))))"
proof (rule disciplined.link [OF temp])
  let ?h = "h\<lparr>hd_temp := Some (t, i, key_to_bytes api key, True), hd_key := Some (key_of_bytes api (key_to_bytes api key))\<rparr>"
  have "hd_temp ?h = Some (t, i, key_to_bytes api key, True)" by simp
  then show "disciplined (key_of_bytes api) p ?h (Remove_file t (\<lambda>_. case Link_ok of
      Link_ok \<Rightarrow> Return (Inr key) | Link_exists \<Rightarrow> read_key api p | Link_failed \<Rightarrow> Return (Inl e)))"
    by (rule disciplined.remove) (use assms(1) in \<open>auto simp: keys_ok_def intro: disciplined.key\<close>)
qed (use assms in \<open>auto simp: keys_ok_def intro: disciplined.remove [OF temp] disciplined.error read_key_disciplined\<close>)

lemma store_disciplined:
  assumes "keys_ok api" and temp: "hd_temp h = Some (t, i, [], False)"
  shows "disciplined (key_of_bytes api) p h
    (bind_prog (Write_all i (key_to_bytes api key) (\<lambda>written. if written then Sync_all i Return else Return False))
      (\<lambda>write_result. if \<not> write_result then Remove_file t (\<lambda>_. Return (Inl e))
        else Hard_link t p (\<lambda>publication. Remove_file t (\<lambda>_. case publication of
               Link_ok \<Rightarrow> Return (Inr key) | Link_exists \<Rightarrow> read_key api p | Link_failed \<Rightarrow> Return (Inl e')))))"
proof -
  have fail: "disciplined (key_of_bytes api) p (h\<lparr>hd_temp := Some (t, i, bs, False)\<rparr>) (Remove_file t (\<lambda>_. Return (Inl e)))" for bs
    by (rule disciplined.remove [of _ t i bs False]) (auto intro: disciplined.error)
  have "disciplined (key_of_bytes api) p (h\<lparr>hd_temp := Some (t, i, key_to_bytes api key, False)\<rparr>)
      (Hard_link t p (\<lambda>publication. Remove_file t (\<lambda>_. case publication of
         Link_ok \<Rightarrow> Return (Inr key) | Link_exists \<Rightarrow> read_key api p | Link_failed \<Rightarrow> Return (Inl e'))))"
    by (rule publish_disciplined [OF assms(1), where i = i]) simp
  then show ?thesis
    by (auto intro!: disciplined.write_all [OF temp] disciplined.sync fail)
qed

lemma create_identity_disciplined:
  assumes "keys_ok api" and "hd_temp h = None"
  shows "disciplined (key_of_bytes api) p h (create_identity api p)"
proof (cases "path_parent p")
  case None
  then show ?thesis by (simp add: create_identity_def disciplined.error)
next
  case (Some parent)
  have create: "disciplined (key_of_bytes api) p h (bind_prog (create_temp t) (\<lambda>file. case file of
      None \<Rightarrow> Return (Inl e) | Some file \<Rightarrow> tail file))"
    if "t \<noteq> p" "\<And>i. disciplined (key_of_bytes api) p (h\<lparr>hd_temp := Some (t, i, [], False)\<rparr>) (tail i)" for t tail e
    using that assms(2) by (auto simp: create_temp_def intro!: disciplined.create disciplined.error)
  show ?thesis
  proof (cases "path_file_name p")
    case None
    then show ?thesis
      using Some parent_not_self [OF Some]
      by (auto simp: create_identity_def temp_path_def intro!: disciplined.mkdirs disciplined.generate disciplined.error)
  next
    case (Some name)
    note temp = temp_path_other [OF \<open>path_parent p = Some parent\<close> Some]
    show ?thesis
      unfolding create_identity_def temp_path_def \<open>path_parent p = Some parent\<close> Some Let_def
      using parent_not_self [OF \<open>path_parent p = Some parent\<close>]
      by (simp, intro disciplined.mkdirs disciplined.generate)
         (auto intro!: disciplined.error disciplined.generate disciplined.counter disciplined.process
            create temp store_disciplined [OF assms(1), where e' = "io_error _", simplified])
  qed
qed


section \<open>One call among others\<close>

definition fs_ok :: "fs \<Rightarrow> bool" where
  "fs_ok s \<longleftrightarrow> (\<forall>q i. fs_names s q = Some (Entry_file i) \<longrightarrow> i < fs_next s)"

definition temp_held :: "path \<Rightarrow> 'key holding \<Rightarrow> fs \<Rightarrow> bool" where
  "temp_held p h s \<longleftrightarrow>
     (\<forall>q i bs pub. hd_temp h = Some (q, i, bs, pub) \<longrightarrow>
        q \<noteq> p \<and> fs_names s q = Some (Entry_file i) \<and> fs_content s i = bs \<and> fs_mode s i = 384
        \<and> (\<not> pub \<longrightarrow> fs_names s p \<noteq> Some (Entry_file i)))"

definition key_known :: "(bytes \<Rightarrow> 'key) \<Rightarrow> path \<Rightarrow> 'key holding \<Rightarrow> fs \<Rightarrow> bool" where
  "key_known of_bytes p h s \<longleftrightarrow>
     (\<forall>key. hd_key h = Some key \<longrightarrow>
        (\<exists>i. fs_names s p = Some (Entry_file i) \<and> of_bytes (fs_content s i) = key))"

definition separate :: "'key holding \<Rightarrow> 'key holding \<Rightarrow> bool" where
  "separate h g \<longleftrightarrow>
     (\<forall>q i bs pub q' i' bs' pub'. hd_temp h = Some (q, i, bs, pub) \<longrightarrow> hd_temp g = Some (q', i', bs', pub')
        \<longrightarrow> q \<noteq> q' \<and> i \<noteq> i')"

lemma holding_key [simp]:
  "temp_held p (h\<lparr>hd_key := x\<rparr>) s = temp_held p h s" "separate (h\<lparr>hd_key := x\<rparr>) g = separate h g"
  by (simp_all add: temp_held_def separate_def)

lemma separate_Some:
  "hd_temp h = Some (q, i, bs, pub) \<Longrightarrow>
     separate h g \<longleftrightarrow> (\<forall>q' i' bs' pub'. hd_temp g = Some (q', i', bs', pub') \<longrightarrow> q \<noteq> q' \<and> i \<noteq> i')"
  by (simp add: separate_def)

text \<open>A file that is there stays as it is; one that appears holds a whole key, for its owner only.\<close>

definition file_kept :: "path \<Rightarrow> fs \<Rightarrow> fs \<Rightarrow> bool" where
  "file_kept p s s' \<longleftrightarrow>
     (if fs_names s p = None
      then fs_names s' p = None
        \<or> (\<exists>i. fs_names s' p = Some (Entry_file i) \<and> length (fs_content s' i) = KEY_SIZE \<and> fs_mode s' i = 384)
      else fs_names s' p = fs_names s p
        \<and> (\<forall>i. fs_names s p = Some (Entry_file i) \<longrightarrow> fs_content s' i = fs_content s i \<and> fs_mode s' i = fs_mode s i))"

lemma file_kept_refl [simp]: "file_kept p s s"
  by (simp add: file_kept_def)

lemma file_kept_trans: "file_kept p s t \<Longrightarrow> file_kept p t u \<Longrightarrow> file_kept p s u"
  by (auto simp: file_kept_def split: if_splits)

lemma file_kept_known: "file_kept p s s' \<Longrightarrow> key_known of_bytes p h s \<Longrightarrow> key_known of_bytes p h s'"
  by (fastforce simp: file_kept_def key_known_def split: if_splits)

definition call_ok ::
  "(bytes \<Rightarrow> 'key) \<Rightarrow> path \<Rightarrow> 'key holding \<Rightarrow> fs \<Rightarrow> fs \<Rightarrow> ('key, 'key nif_result) prog \<Rightarrow> bool" where
  "call_ok of_bytes p h s s' prog' \<longleftrightarrow>
     fs_ok s' \<and> file_kept p s s'
     \<and> (\<exists>h'. disciplined of_bytes p h' prog' \<and> temp_held p h' s' \<and> key_known of_bytes p h' s'
          \<and> (\<forall>g. temp_held p g s \<longrightarrow> separate h g \<longrightarrow> temp_held p g s' \<and> separate h' g))"

inductive_cases disciplined_casesE:
  "disciplined of_bytes p h (Return r)"
  "disciplined of_bytes p h (Exists q k)"
  "disciplined of_bytes p h (Metadata q k)"
  "disciplined of_bytes p h (Read q k)"
  "disciplined of_bytes p h (Create_dir_all q k)"
  "disciplined of_bytes p h (Generate k)"
  "disciplined of_bytes p h (Counter_fetch_add k)"
  "disciplined of_bytes p h (Process_id k)"
  "disciplined of_bytes p h (Create_new q mode k)"
  "disciplined of_bytes p h (Write_all i bs k)"
  "disciplined of_bytes p h (Sync_all i k)"
  "disciplined of_bytes p h (Remove_file q k)"
  "disciplined of_bytes p h (Hard_link q q' k)"

lemma call_ok_same:
  assumes "disciplined of_bytes p h prog'" and "fs_ok s" and "temp_held p h s" and "key_known of_bytes p h s"
  shows "call_ok of_bytes p h s s prog'"
  using assms by (auto simp: call_ok_def)

lemma call_ok_read:
  assumes "disciplined of_bytes p h (Read q k)" and "fs_ok s" and "temp_held p h s" and "key_known of_bytes p h s"
  shows "call_ok of_bytes p h s s (k (fs_read q s))"
proof (cases "\<exists>i. fs_names s q = Some (Entry_file i) \<and> length (fs_content s i) = KEY_SIZE")
  case True
  then obtain i where i: "fs_names s q = Some (Entry_file i)" "length (fs_content s i) = KEY_SIZE" by blast
  then have "disciplined of_bytes p (h\<lparr>hd_key := Some (of_bytes (fs_content s i))\<rparr>) (k (fs_read q s))" "q = p"
    using assms(1) by (auto simp: fs_read_def elim: disciplined_casesE)
  moreover from this have "key_known of_bytes p (h\<lparr>hd_key := Some (of_bytes (fs_content s i))\<rparr>) s"
    using i by (simp add: key_known_def)
  ultimately show ?thesis
    using assms(2,3) unfolding call_ok_def
    by (intro conjI exI [of _ "h\<lparr>hd_key := Some (of_bytes (fs_content s i))\<rparr>"]) simp_all
next
  case False
  then have "disciplined of_bytes p h (k (fs_read q s))"
    using assms(1) by (auto simp: fs_read_def elim!: disciplined_casesE split: option.splits entry.splits)
  then show ?thesis using assms(2-4) by (rule call_ok_same)
qed

lemma call_ok_mkdirs:
  assumes "disciplined of_bytes p h (Create_dir_all q k)" and "fs_ok s" and "temp_held p h s"
    and "key_known of_bytes p h s" and "fs_mkdirs q s = Some s'"
  shows "call_ok of_bytes p h s s' (k True)"
proof -
  have q: "p \<notin> ancestors q" "disciplined of_bytes p h (k True)"
    using assms(1) by (auto elim: disciplined_casesE)
  have s': "fs_names s' = (\<lambda>x. if x \<in> ancestors q then Some Entry_dir else fs_names s x)"
      "fs_content s' = fs_content s" "fs_mode s' = fs_mode s" "fs_next s' = fs_next s"
      "\<And>x i. x \<in> ancestors q \<Longrightarrow> fs_names s x \<noteq> Some (Entry_file i)"
    using assms(5) by (auto simp: fs_mkdirs_def split: if_splits)
  have temp: "temp_held p g s'" if "temp_held p g s" for g :: "'a holding"
    using that s'(5) q(1) unfolding temp_held_def s'(1-3) by auto
  have "fs_ok s'" "file_kept p s s'"
    using assms(2) q(1) by (auto simp: fs_ok_def file_kept_def s'(1-4))
  then show ?thesis
    using q(2) temp assms(3) file_kept_known [of p s s' of_bytes h] assms(4) unfolding call_ok_def by blast
qed

lemma call_ok_create:
  assumes "disciplined of_bytes p h (Create_new q mode k)" and "fs_ok s" and "temp_held p h s"
    and "key_known of_bytes p h s" and "fs_create q mode s = Some (i, s')"
  shows "call_ok of_bytes p h s s' (k (Some i))"
proof -
  let ?h = "h\<lparr>hd_temp := Some (q, i, [], False)\<rparr>"
  have q: "q \<noteq> p" "mode = 384" "disciplined of_bytes p ?h (k (Some i))"
    using assms(1) by (auto elim: disciplined_casesE)
  have s': "fs_names s q = None" "i = fs_next s" "fs_names s' = (fs_names s)(q \<mapsto> Entry_file i)"
      "fs_content s' = (fs_content s)(i := [])" "fs_mode s' = (fs_mode s)(i := mode)" "fs_next s' = Suc i"
    using assms(5) by (auto simp: fs_create_def split: if_splits)
  have new: "fs_names s x \<noteq> Some (Entry_file i)" for x
    using assms(2) s'(2) by (auto simp: fs_ok_def)
  have ok: "fs_ok s'" "file_kept p s s'"
    using assms(2) q(1) new s'(2) by (auto simp: fs_ok_def file_kept_def s'(3-6) less_Suc_eq)
  moreover have "temp_held p ?h s'"
    using q(1,2) new by (auto simp: temp_held_def s'(3-6))
  moreover have "key_known of_bytes p ?h s'"
    using file_kept_known [OF ok(2) assms(4)] by (simp add: key_known_def)
  moreover have "temp_held p g s' \<and> separate ?h g" if "temp_held p g s" for g :: "'a holding"
    using that new s'(1) q(1) unfolding temp_held_def separate_def s'(3-6)
    by (auto split: if_splits)
  ultimately show ?thesis using q(3) unfolding call_ok_def by blast
qed

lemma call_ok_write:
  assumes "hd_temp h = Some (q, i, bs, False)" and "fs_ok s" and "temp_held p h s" and "key_known of_bytes p h s"
    and "disciplined of_bytes p (h\<lparr>hd_temp := Some (q, i, bs @ data, False)\<rparr>) prog'"
  shows "call_ok of_bytes p h s (fs_append i data s) prog'"
proof -
  let ?s = "fs_append i data s" and ?h = "h\<lparr>hd_temp := Some (q, i, bs @ data, False)\<rparr>"
  have mine: "q \<noteq> p" "fs_names s q = Some (Entry_file i)" "fs_content s i = bs" "fs_mode s i = 384"
      "fs_names s p \<noteq> Some (Entry_file i)"
    using assms(1,3) by (auto simp: temp_held_def)
  have ok: "fs_ok ?s" "file_kept p s ?s"
    using assms(2) mine(5) by (auto simp: fs_ok_def file_kept_def fs_append_def)
  moreover have "temp_held p ?h ?s"
    using mine by (auto simp: temp_held_def fs_append_def)
  moreover have "key_known of_bytes p ?h ?s"
    using file_kept_known [OF ok(2) assms(4)] by (simp add: key_known_def)
  moreover have "temp_held p g ?s \<and> separate ?h g" if "temp_held p g s" "separate h g" for g :: "'a holding"
  proof -
    have "i \<noteq> i'" if "hd_temp g = Some (q', i', bs', pub')" for q' i' bs' pub'
      using \<open>separate h g\<close> that separate_Some [OF assms(1)] by blast
    then show ?thesis
      using that separate_Some [OF assms(1), of g] separate_Some [of ?h q i _ False g]
      unfolding temp_held_def fs_append_def by simp metis
  qed
  ultimately show ?thesis using assms(5) unfolding call_ok_def by blast
qed


lemma call_ok_remove:
  assumes "disciplined of_bytes p h (Remove_file q k)" and "fs_ok s" and "temp_held p h s" and "key_known of_bytes p h s"
  shows "call_ok of_bytes p h s s (k False)"
    and "fs_remove q s = Some s' \<Longrightarrow> call_ok of_bytes p h s s' (k True)"
proof -
  obtain i bs pub where temp: "hd_temp h = Some (q, i, bs, pub)"
      and k: "\<And>b. disciplined of_bytes p (h\<lparr>hd_temp := None\<rparr>) (k b)"
    using assms(1) by (auto elim: disciplined_casesE)
  let ?h = "h\<lparr>hd_temp := None\<rparr>"
  have none: "temp_held p ?h t" "separate ?h g" for t g
    by (simp_all add: temp_held_def separate_def)
  have known: "key_known of_bytes p ?h t = key_known of_bytes p h t" for t
    by (simp add: key_known_def)
  show "call_ok of_bytes p h s s (k False)"
    using k none known assms(2,4) unfolding call_ok_def by (metis file_kept_refl)
  assume "fs_remove q s = Some s'"
  then have s': "s' = s\<lparr>fs_names := (fs_names s)(q := None)\<rparr>"
    by (auto simp: fs_remove_def split: option.splits entry.splits)
  have "q \<noteq> p" using assms(3) temp by (simp add: temp_held_def)
  then have ok: "fs_ok s'" "file_kept p s s'"
    using assms(2) by (auto simp: fs_ok_def file_kept_def s')
  have others: "temp_held p g s'" if "temp_held p g s" "separate h g" for g :: "'a holding"
    using that separate_Some [OF temp, of g] \<open>q \<noteq> p\<close> unfolding temp_held_def s' by simp metis
  show "call_ok of_bytes p h s s' (k True)"
    using k none known others ok file_kept_known [OF ok(2) assms(4)] unfolding call_ok_def by metis
qed

lemma call_ok_link:
  assumes "disciplined of_bytes p h (Hard_link q r k)" and "fs_ok s" and "temp_held p h s" and "key_known of_bytes p h s"
    and "fs_link q r s = (res, s')"
  shows "call_ok of_bytes p h s s' (k res)"
proof -
  obtain i bs where temp: "hd_temp h = Some (q, i, bs, False)" "length bs = KEY_SIZE" "r = p"
      and ok: "disciplined of_bytes p (h\<lparr>hd_temp := Some (q, i, bs, True), hd_key := Some (of_bytes bs)\<rparr>) (k Link_ok)"
      and other: "disciplined of_bytes p h (k Link_exists)" "disciplined of_bytes p h (k Link_failed)"
    using assms(1) by (auto elim: disciplined_casesE)
  have mine: "q \<noteq> p" "fs_names s q = Some (Entry_file i)" "fs_content s i = bs" "fs_mode s i = 384"
    using assms(3) temp(1) by (auto simp: temp_held_def)
  show ?thesis
  proof (cases "fs_names s p = None")
    case False
    then have "s' = s" "res = Link_exists"
      using assms(5) mine(2) temp(3) by (simp_all add: fs_link_def)
    then show ?thesis using call_ok_same [OF other(1) assms(2-4)] by simp
  next
    case True
    let ?h = "h\<lparr>hd_temp := Some (q, i, bs, True), hd_key := Some (of_bytes bs)\<rparr>"
    have s': "s' = s\<lparr>fs_names := (fs_names s)(p \<mapsto> Entry_file i)\<rparr>" "res = Link_ok"
      using True assms(5) mine(2) temp(3) by (simp_all add: fs_link_def)
    have "fs_ok s'" "file_kept p s s'"
      using assms(2) mine temp(2) True by (auto simp: fs_ok_def file_kept_def s'(1))
    moreover have "temp_held p ?h s'" "key_known of_bytes p ?h s'"
      using mine by (auto simp: temp_held_def key_known_def s'(1))
    moreover have "temp_held p g s' \<and> separate ?h g" if "temp_held p g s" "separate h g" for g :: "'a holding"
      using that separate_Some [OF temp(1), of g] separate_Some [of ?h q i bs True g] unfolding temp_held_def s'(1)
      by simp metis
    ultimately show ?thesis using ok s'(2) unfolding call_ok_def by blast
  qed
qed

lemma call_step_ok:
  assumes "call_step pid s prog s' prog'" and "disciplined of_bytes p h prog" and "fs_ok s"
    and "temp_held p h s" and "key_known of_bytes p h s"
  shows "call_ok of_bytes p h s s' prog'"
  using assms
proof (induction rule: call_step.induct)
  case (read s q k)
  then show ?case by (rule call_ok_read)
next
  case (mkdirs q s s' k)
  then show ?case by (blast intro: call_ok_mkdirs)
next
  case (create q mode s i s' k)
  then show ?case by (blast intro: call_ok_create)
next
  case (fetch_add s k)
  have "temp_held p g (fs_tick pid s) = temp_held p g s" "key_known of_bytes p g (fs_tick pid s) = key_known of_bytes p g s"
    "fs_ok (fs_tick pid s) = fs_ok s" "file_kept p s (fs_tick pid s)" for g :: "'a holding"
    by (simp_all add: temp_held_def key_known_def fs_ok_def file_kept_def fs_tick_def)
  then show ?case
    using fetch_add unfolding call_ok_def by (auto elim!: disciplined_casesE)
next
  case (write_all s i bs k)
  then show ?case by (auto elim!: disciplined_casesE intro: call_ok_write)
next
  case (write_err s i bs k n)
  then show ?case by (auto elim!: disciplined_casesE intro: call_ok_write)
next
  case (remove q s s' k)
  then show ?case by (blast intro: call_ok_remove(2))
next
  case (remove_err s q k)
  then show ?case by (blast intro: call_ok_remove(1))
next
  case (link q r s res s' k)
  then show ?case by (blast intro: call_ok_link)
qed (auto elim!: disciplined_casesE intro!: call_ok_same)

section \<open>Threads that race for one path\<close>

text \<open>
  Any number of calls of \<open>identity_load_or_create\<close> on one path, from any number of operating
  system processes, their file system calls interleaved; a thread that is killed makes no
  further call, and one that has not returned may panic at any point.
\<close>

type_synonym 'key thread = "u32 \<times> ('key, 'key nif_result) prog"

inductive racing ::
  "('url, 'id, 'addr, 'ticket, 'key) iroh_identity_api \<Rightarrow> string \<Rightarrow> fs \<Rightarrow> fs \<Rightarrow> 'key thread list \<Rightarrow> bool"
  for api location s0 where
  start: "racing api location s0 s0 []"
| enter: "racing api location s0 s ts \<Longrightarrow> racing api location s0 s (ts @ [(pid, identity_load_or_create api location)])"
| call: "racing api location s0 s ts \<Longrightarrow> i < length ts \<Longrightarrow> ts ! i = (pid, prog) \<Longrightarrow> call_step pid s prog s' prog'
    \<Longrightarrow> racing api location s0 s' (ts[i := (pid, prog')])"
| panic: "racing api location s0 s ts \<Longrightarrow> i < length ts \<Longrightarrow> ts ! i = (pid, prog) \<Longrightarrow> (\<And>r. prog \<noteq> Return r)
    \<Longrightarrow> racing api location s0 s (ts[i := (pid, identity_load_panicked)])"

definition threads_ok :: "(bytes \<Rightarrow> 'key) \<Rightarrow> path \<Rightarrow> fs \<Rightarrow> 'key thread list \<Rightarrow> 'key holding list \<Rightarrow> bool" where
  "threads_ok of_bytes p s ts hs \<longleftrightarrow>
     length hs = length ts
     \<and> (\<forall>i<length ts. disciplined of_bytes p (hs ! i) (snd (ts ! i)) \<and> temp_held p (hs ! i) s
          \<and> key_known of_bytes p (hs ! i) s)
     \<and> (\<forall>i<length ts. \<forall>j<length ts. i \<noteq> j \<longrightarrow> separate (hs ! i) (hs ! j))"

lemma load_or_create_disciplined:
  assumes "keys_ok api"
  shows "disciplined (key_of_bytes api) (path_components text) \<lparr>hd_temp = None, hd_key = None\<rparr>
    (identity_load_or_create api text)"
  using assms by (auto simp: identity_load_or_create_def Let_def
      intro!: disciplined.error disciplined.exists read_key_disciplined create_identity_disciplined)

lemma separate_sym: "separate h g \<Longrightarrow> separate g h"
  unfolding separate_def by metis

lemma threads_ok_enter:
  assumes "threads_ok of_bytes p s ts hs" and "disciplined of_bytes p \<lparr>hd_temp = None, hd_key = None\<rparr> prog"
  shows "threads_ok of_bytes p s (ts @ [(pid, prog)]) (hs @ [\<lparr>hd_temp = None, hd_key = None\<rparr>])"
proof -
  have new: "temp_held p \<lparr>hd_temp = None, hd_key = None\<rparr> s" "key_known of_bytes p \<lparr>hd_temp = None, hd_key = None\<rparr> s"
    "separate \<lparr>hd_temp = None, hd_key = None\<rparr> g" "separate g \<lparr>hd_temp = None, hd_key = None\<rparr>" for g :: "'a holding"
    by (simp_all add: temp_held_def key_known_def separate_def)
  show ?thesis
    using assms unfolding threads_ok_def by (simp add: nth_append All_less_Suc new)
qed

lemma threads_ok_call:
  assumes "threads_ok of_bytes p s ts hs" and "i < length ts" and "call_ok of_bytes p (hs ! i) s s' prog'"
  shows "\<exists>hs'. threads_ok of_bytes p s' (ts[i := (pid, prog')]) hs'"
proof -
  obtain h' where h': "disciplined of_bytes p h' prog'" "temp_held p h' s'" "key_known of_bytes p h' s'"
      and others: "\<And>g. temp_held p g s \<Longrightarrow> separate (hs ! i) g \<Longrightarrow> temp_held p g s' \<and> separate h' g"
      and kept: "file_kept p s s'"
    using assms(3) unfolding call_ok_def by blast
  have other: "temp_held p (hs ! j) s'" "key_known of_bytes p (hs ! j) s'" "separate h' (hs ! j)" "separate (hs ! j) h'"
      "disciplined of_bytes p (hs ! j) (snd (ts ! j))"
    if "j < length ts" "j \<noteq> i" for j
    using that assms(1,2) others [of "hs ! j"] file_kept_known [OF kept, of of_bytes "hs ! j"] separate_sym
    unfolding threads_ok_def by blast+
  have "threads_ok of_bytes p s' (ts[i := (pid, prog')]) (hs[i := h'])"
    unfolding threads_ok_def
  proof (intro conjI allI impI)
    show "length (hs[i := h']) = length (ts[i := (pid, prog')])"
      using assms(1) by (simp add: threads_ok_def)
    fix j assume j: "j < length (ts[i := (pid, prog')])"
    show "disciplined of_bytes p (hs[i := h'] ! j) (snd (ts[i := (pid, prog')] ! j))"
      "temp_held p (hs[i := h'] ! j) s'" "key_known of_bytes p (hs[i := h'] ! j) s'"
      using j h' other [of j] assms(1,2) by (auto simp: nth_list_update threads_ok_def)
    fix k assume "k < length (ts[i := (pid, prog')])" "j \<noteq> k"
    then show "separate (hs[i := h'] ! j) (hs[i := h'] ! k)"
      using j other [of j] other [of k] assms(1,2) by (auto simp: nth_list_update threads_ok_def)
  qed
  then show ?thesis by blast
qed

lemma racing_ok:
  assumes "racing api text s0 s ts" and "keys_ok api" and "fs_ok s0"
  shows "fs_ok s \<and> file_kept (path_components text) s0 s
    \<and> (\<exists>hs. threads_ok (key_of_bytes api) (path_components text) s ts hs)"
  using assms
proof (induction rule: racing.induct)
  case start
  then show ?case by (auto simp: threads_ok_def)
next
  case (enter s ts pid)
  then obtain hs where hs: "threads_ok (key_of_bytes api) (path_components text) s ts hs" by blast
  then show ?case using enter threads_ok_enter [OF hs load_or_create_disciplined [OF enter.prems(1)]] by blast
next
  case (call s ts i pid prog s' prog')
  let ?p = "path_components text" and ?of = "key_of_bytes api"
  obtain hs where hs: "threads_ok ?of ?p s ts hs" and s: "fs_ok s" "file_kept ?p s0 s"
    using call by blast
  have "call_ok ?of ?p (hs ! i) s s' prog'"
    using call_step_ok [OF call.hyps(4), of ?of ?p "hs ! i"] hs call.hyps(2,3) s(1) by (auto simp: threads_ok_def)
  then show ?case
    using threads_ok_call [OF hs call.hyps(2)] file_kept_trans [OF s(2)] unfolding call_ok_def by blast
next
  case (panic s ts i pid prog)
  let ?p = "path_components text" and ?of = "key_of_bytes api"
  obtain hs where hs: "threads_ok ?of ?p s ts hs" and s: "fs_ok s" "file_kept ?p s0 s"
    using panic by blast
  have "disciplined ?of ?p (hs ! i) identity_load_panicked"
    by (simp add: identity_load_panicked_def encode_guarded_def disciplined.error)
  then have "call_ok ?of ?p (hs ! i) s s identity_load_panicked"
    using hs s(1) panic.hyps(2) by (intro call_ok_same) (auto simp: threads_ok_def)
  then show ?case
    using threads_ok_call [OF hs panic.hyps(2)] s unfolding call_ok_def by blast
qed


section \<open>A concrete library and file system\<close>

text \<open>Keys of one byte, stored as 32 copies of it; a file system with no files.\<close>

definition demo_key_api :: "(string, bytes, demo_addr, demo_addr, u8) iroh_identity_api" where
  "demo_key_api =
     \<lparr>url_from_str = url_from_str demo_api, url_scheme = url_scheme demo_api, url_host_str = url_host_str demo_api,
      url_username = url_username demo_api, url_password = url_password demo_api, url_query = url_query demo_api,
      url_fragment = url_fragment demo_api, url_to_string = url_to_string demo_api, id_of_bytes = id_of_bytes demo_api,
      id_of_str = id_of_str demo_api, id_to_string = id_to_string demo_api, id_as_bytes = id_as_bytes demo_api,
      addr_from_parts = addr_from_parts demo_api, addr_id = addr_id demo_api, addr_relay_urls = addr_relay_urls demo_api,
      addr_ip_addrs = addr_ip_addrs demo_api, addr_is_empty = addr_is_empty demo_api, ticket_new = ticket_new demo_api,
      ticket_addr = ticket_addr demo_api, ticket_to_string = ticket_to_string demo_api,
      ticket_of_str = ticket_of_str demo_api, ticket_encode_bytes = ticket_encode_bytes demo_api,
      ticket_decode_bytes = ticket_decode_bytes demo_api, key_of_bytes = hd, key_to_bytes = replicate 32,
      key_public = (\<lambda>k. [k])\<rparr>"

definition empty_fs :: fs where
  "empty_fs = \<lparr>fs_names = Map.empty, fs_content = (\<lambda>_. []), fs_mode = (\<lambda>_. 0), fs_next = 0, fs_counter = (\<lambda>_. 0)\<rparr>"

lemma demo_keys_ok: "keys_ok demo_key_api"
  by (simp add: keys_ok_def demo_key_api_def KEY_SIZE_def numeral_eq_Suc)

lemma empty_fs_ok: "fs_ok empty_fs"
  by (simp add: fs_ok_def empty_fs_def)

lemma racing_calls:
  "call_steps pid s prog s' prog' \<Longrightarrow> racing api location s0 s ts \<Longrightarrow> i < length ts \<Longrightarrow> ts ! i = (pid, prog)
     \<Longrightarrow> racing api location s0 s' (ts[i := (pid, prog')])"
proof (induction arbitrary: ts rule: call_steps.induct)
  case (none s p)
  then show ?case by (metis list_update_id)
next
  case (more s p s' p' s'' p'')
  then show ?case using racing.call [OF more.prems, of s' p'] by fastforce
qed

section \<open>Loading and creating\<close>

lemma run_read_key:
  "run_prog pid gen (read_key api p) s =
     ((case fs_names s p of
         None \<Rightarrow> Inl (io_error ''identity file could not be read'')
       | Some (Entry_file i) \<Rightarrow>
           if length (fs_content s i) = KEY_SIZE then Inr (key_of_bytes api (fs_content s i))
           else Inl (invalid At_identity_load ''identity file has an invalid format'')
       | Some Entry_dir \<Rightarrow> Inl (invalid At_identity_load ''identity file has an invalid format'')), s)"
  by (simp add: read_key_def fs_metadata_def fs_read_def split: option.splits entry.splits)

lemma ancestors_shorter: "length p < length q \<Longrightarrow> q \<notin> ancestors p"
  by (auto simp: ancestors_def)

lemma run_create_identity:
  assumes "keys_ok api" and p: "p = parent @ [Normal name]"
    and "fs_names s p = None" and free: "\<And>q i. q \<in> ancestors parent \<Longrightarrow> fs_names s q \<noteq> Some (Entry_file i)"
    and "fs_names s (parent @ [Normal (temp_name name pid (fs_counter s pid))]) = None"
  shows "run_prog pid gen (create_identity api p) s = (Inr gen,
    s\<lparr>fs_names := (\<lambda>q. if q = p then Some (Entry_file (fs_next s))
          else if q \<in> ancestors parent then Some Entry_dir else fs_names s q),
      fs_content := (fs_content s)(fs_next s := key_to_bytes api gen),
      fs_mode := (fs_mode s)(fs_next s := 384), fs_next := Suc (fs_next s),
      fs_counter := (fs_counter s)(pid := fs_counter s pid + 1)\<rparr>)"
proof -
  let ?t = "parent @ [Normal (temp_name name pid (fs_counter s pid))]"
  have path: "path_parent p = Some parent" "path_file_name p = Some name"
    by (simp_all add: p path_parent_def path_file_name_def)
  have "?t \<noteq> p" by (rule temp_path_other [OF path])
  moreover have "?t \<notin> ancestors parent" "p \<notin> ancestors parent"
    by (simp_all add: p ancestors_shorter)
  moreover have "fs_mkdirs parent s = Some (s\<lparr>fs_names := (\<lambda>q. if q \<in> ancestors parent then Some Entry_dir else fs_names s q)\<rparr>)"
    using free by (auto simp: fs_mkdirs_def)
  ultimately show ?thesis
    using assms(3,5)
    by (simp add: create_identity_def path temp_path_def create_temp_def run_prog_bind fs_create_def fs_append_def fs_link_def
        fs_remove_def fs_tick_def Let_def) (auto simp: fun_eq_iff)
qed


text \<open>
  C10. Racing creators agree: however the file system calls of any number of threads and processes
  that load or create one identity interleave, and whatever calls fail or threads panic or die, every
  call that succeeds returns the same key, and it is the key stored in the file.
\<close>

theorem identity_agreement:
  assumes "racing api location s0 s ts" and "keys_ok api" and "fs_ok s0"
    and "(pid, Return (Inr key)) \<in> set ts" and "(pid', Return (Inr key')) \<in> set ts"
  shows "key = key' \<and> (\<exists>i. fs_names s (path_components location) = Some (Entry_file i)
    \<and> key_of_bytes api (fs_content s i) = key)"
proof -
  obtain hs where hs: "threads_ok (key_of_bytes api) (path_components location) s ts hs"
    using racing_ok [OF assms(1-3)] by blast
  have "\<exists>i. fs_names s (path_components location) = Some (Entry_file i) \<and> key_of_bytes api (fs_content s i) = k"
    if mem: "(n, Return (Inr k)) \<in> set ts" for n k
  proof -
    obtain j where j: "j < length ts" "ts ! j = (n, Return (Inr k))"
      using mem unfolding in_set_conv_nth by blast
    then have "disciplined (key_of_bytes api) (path_components location) (hs ! j) (Return (Inr k))"
        "key_known (key_of_bytes api) (path_components location) (hs ! j) s"
      using hs by (fastforce simp: threads_ok_def)+
    then show ?thesis by (auto simp: key_known_def elim: disciplined_casesE)
  qed
  from this [OF assms(4)] this [OF assms(5)] show ?thesis by auto
qed

lemma run_create_lost:
  assumes p: "p = parent @ [Normal name]" and "fs_names s p = Some (Entry_file i)" and "i < fs_next s"
    and "length (fs_content s i) = KEY_SIZE" and free: "\<And>q j. q \<in> ancestors parent \<Longrightarrow> fs_names s q \<noteq> Some (Entry_file j)"
    and "fs_names s (parent @ [Normal (temp_name name pid (fs_counter s pid))]) = None"
  shows "fst (run_prog pid gen (create_identity api p) s) = Inr (key_of_bytes api (fs_content s i))"
proof -
  let ?t = "parent @ [Normal (temp_name name pid (fs_counter s pid))]"
  have path: "path_parent p = Some parent" "path_file_name p = Some name"
    by (simp_all add: p path_parent_def path_file_name_def)
  have "?t \<noteq> p" by (rule temp_path_other [OF path])
  moreover have "?t \<notin> ancestors parent" "p \<notin> ancestors parent"
    by (simp_all add: p ancestors_shorter)
  moreover have "fs_mkdirs parent s = Some (s\<lparr>fs_names := (\<lambda>q. if q \<in> ancestors parent then Some Entry_dir else fs_names s q)\<rparr>)"
    using free by (auto simp: fs_mkdirs_def)
  ultimately show ?thesis
    using assms(2-4,6)
    by (auto simp: create_identity_def path temp_path_def create_temp_def run_prog_bind fs_create_def fs_append_def fs_link_def
        fs_remove_def fs_tick_def run_read_key Let_def)
qed

lemma demo_race:
  "\<exists>s. racing demo_key_api ''k'' empty_fs s [(1, Return (Inr 7)), (2, Return (Inr 7))]"
proof -
  let ?prog = "identity_load_or_create demo_key_api ''k''" and ?p = "[Normal ''k'']"
  let ?late = "create_identity demo_key_api ?p"
  have path: "path_components ''k'' = ?p" by (simp add: path_components_def)
  have prog: "?prog = Exists ?p (\<lambda>found. if found then read_key demo_key_api ?p else ?late)"
    by (simp add: identity_load_or_create_def path Let_def)
  have "racing demo_key_api ''k'' empty_fs empty_fs [(1, ?prog), (2, ?prog)]"
    using racing.enter [OF racing.enter [OF racing.start]] by fastforce
  moreover have "call_step 2 empty_fs ?prog empty_fs ?late"
    unfolding prog using call_step.exists_err [of 2 empty_fs ?p "\<lambda>found. if found then read_key demo_key_api ?p else ?late"]
    by simp
  ultimately have both: "racing demo_key_api ''k'' empty_fs empty_fs [(1, ?prog), (2, ?late)]"
    using racing.call [of demo_key_api "''k''" empty_fs empty_fs "[(1, ?prog), (2, ?prog)]" 1 2 ?prog empty_fs ?late] by simp
  define s1 where "s1 = snd (run_prog 1 7 ?prog empty_fs)"
  have run: "run_prog 1 7 ?late empty_fs = (Inr 7,
      empty_fs\<lparr>fs_names := (\<lambda>q. if q = ?p then Some (Entry_file 0) else if q = [] then Some Entry_dir else None),
        fs_content := (\<lambda>_. [])(0 := replicate 32 7), fs_mode := (\<lambda>_. 0)(0 := 384), fs_next := 1,
        fs_counter := (\<lambda>_. 0)(1 := 1)\<rparr>)"
    using run_create_identity [OF demo_keys_ok, of ?p "[]" "''k''" empty_fs 1 7]
    by (simp add: empty_fs_def ancestors_def demo_key_api_def fun_eq_iff)
  have "run_prog 1 7 ?prog empty_fs = run_prog 1 7 ?late empty_fs"
    by (simp add: prog empty_fs_def)
  then have first: "run_prog 1 7 ?prog empty_fs = (Inr 7, s1)"
    using run by (simp add: s1_def)
  have s1: "fs_names s1 = (\<lambda>q. if q = ?p then Some (Entry_file 0) else if q = [] then Some Entry_dir else None)"
      "fs_content s1 0 = replicate 32 7" "fs_next s1 = 1"
    using run \<open>run_prog 1 7 ?prog empty_fs = run_prog 1 7 ?late empty_fs\<close> by (simp_all add: s1_def)
  have other: "temp_name ''k'' 2 (fs_counter s1 2) \<noteq> ''k''"
    using temp_name_longer [of "''k''" 2 "fs_counter s1 2"] by auto
  have "key_of_bytes demo_key_api (replicate 32 7) = 7"
    by (simp add: demo_key_api_def numeral_eq_Suc)
  then have "fst (run_prog 2 9 ?late s1) = Inr 7"
    using run_create_lost [of ?p "[]" "''k''" s1 0 2 9 demo_key_api] other
    by (simp add: s1 ancestors_def KEY_SIZE_def)
  then obtain s2 where second: "run_prog 2 9 ?late s1 = (Inr 7, s2)" by (metis prod.collapse)
  have "racing demo_key_api ''k'' empty_fs s1 [(1, Return (Inr 7)), (2, ?late)]"
    using racing_calls [OF run_prog_steps [OF first] both, of 0] by simp
  then have "racing demo_key_api ''k'' empty_fs s2 [(1, Return (Inr 7)), (2, Return (Inr 7))]"
    using racing_calls [OF run_prog_steps [OF second], of demo_key_api "''k''" empty_fs "[(1, Return (Inr 7)), (2, ?late)]" 1] by simp
  then show ?thesis by blast
qed

theorem identity_agreement_witness:
  "\<exists>s. racing demo_key_api ''k'' empty_fs s [(1, Return (Inr 7)), (2, Return (Inr 7))]
    \<and> (\<exists>i. fs_names s [Normal ''k''] = Some (Entry_file i) \<and> key_of_bytes demo_key_api (fs_content s i) = 7)"
proof -
  obtain s where s: "racing demo_key_api ''k'' empty_fs s [(1, Return (Inr 7)), (2, Return (Inr 7))]"
    using demo_race by blast
  have "path_components ''k'' = [Normal ''k'']" by (simp add: path_components_def)
  then show ?thesis
    using s identity_agreement [OF s demo_keys_ok empty_fs_ok, of 1 7 2 7] by auto
qed

text \<open>
  C33. The identity file appears whole and is never touched again: at every moment of a race, and
  so after a crash at any moment, the file is as it was before; or it was absent before and now
  holds exactly a key, readable and writable by its owner only.
\<close>

theorem identity_file_atomic:
  assumes "racing api location s0 s ts" and "keys_ok api" and "fs_ok s0"
  shows "if fs_names s0 (path_components location) = None
    then fs_names s (path_components location) = None
      \<or> (\<exists>i. fs_names s (path_components location) = Some (Entry_file i)
           \<and> length (fs_content s i) = 32 \<and> fs_mode s i = 384)
    else fs_names s (path_components location) = fs_names s0 (path_components location)
      \<and> (\<forall>i. fs_names s0 (path_components location) = Some (Entry_file i)
           \<longrightarrow> fs_content s i = fs_content s0 i \<and> fs_mode s i = fs_mode s0 i)"
  using racing_ok [OF assms] by (simp add: file_kept_def KEY_SIZE_def split: if_splits)

theorem identity_file_atomic_witness:
  "\<exists>s. racing demo_key_api ''k'' empty_fs s [(1, Return (Inr 7)), (2, Return (Inr 7))]
    \<and> (fs_names s (path_components ''k'') = None
      \<or> (\<exists>i. fs_names s (path_components ''k'') = Some (Entry_file i) \<and> length (fs_content s i) = 32 \<and> fs_mode s i = 384))"
proof -
  obtain s where s: "racing demo_key_api ''k'' empty_fs s [(1, Return (Inr 7)), (2, Return (Inr 7))]"
    using demo_race by blast
  moreover have "fs_names empty_fs (path_components ''k'') = None" by (simp add: empty_fs_def)
  ultimately show ?thesis
    using identity_file_atomic [OF s demo_keys_ok empty_fs_ok] by auto
qed


text \<open>
  C34. Creating and loading again give one key: on a fresh path the first call stores the generated
  key and returns it, leaves no temporary file and no other name changed but the missing parent
  directories, and a second call, in whatever process, returns the same key and changes nothing.
\<close>

theorem identity_roundtrip:
  assumes "keys_ok api" and "location \<noteq> []" and "length location \<le> 32 * 1024"
    and path: "path_components location = parent @ [Normal name]"
    and "fs_names s (parent @ [Normal name]) = None"
    and "\<And>q i. q \<in> ancestors parent \<Longrightarrow> fs_names s q \<noteq> Some (Entry_file i)"
    and "fs_names s (parent @ [Normal (temp_name name pid (fs_counter s pid))]) = None"
  shows "\<exists>s'. run_prog pid key (identity_load_or_create api location) s = (Inr key, s')
    \<and> run_prog pid' key' (identity_load_or_create api location) s' = (Inr key, s')
    \<and> (\<forall>q. q \<noteq> parent @ [Normal name] \<and> q \<notin> ancestors parent \<longrightarrow> fs_names s' q = fs_names s q)"
proof -
  note run = run_create_identity [OF assms(1) refl assms(5-7), of key]
  have "run_prog pid key (identity_load_or_create api location) s = run_prog pid key (create_identity api (parent @ [Normal name])) s"
    using assms(2,3,5) by (simp add: identity_load_or_create_def path Let_def)
  moreover have "run_prog pid' key' (identity_load_or_create api location) t = (Inr key, t)"
    if "t = snd (run_prog pid key (create_identity api (parent @ [Normal name])) s)" for t
    using assms(1-3) run that by (simp add: identity_load_or_create_def path run_read_key keys_ok_def Let_def)
  ultimately show ?thesis
    using run by (intro exI [of _ "snd (run_prog pid key (create_identity api (parent @ [Normal name])) s)"]) simp
qed

theorem identity_roundtrip_witness:
  "\<exists>s'. run_prog 1 7 (identity_load_or_create demo_key_api ''k'') empty_fs = (Inr 7, s')
    \<and> run_prog 2 9 (identity_load_or_create demo_key_api ''k'') s' = (Inr 7, s')"
proof -
  have "path_components ''k'' = [] @ [Normal ''k'']" by (simp add: path_components_def)
  from identity_roundtrip [OF demo_keys_ok _ _ this, of empty_fs 1 7 2 9] show ?thesis
    by (auto simp: empty_fs_def)
qed

text \<open>
  C35. An existing file decides: when something exists under the path, the call changes nothing and
  returns the stored key exactly when it is a file of 32 bytes, and otherwise reports an invalid
  format; an empty or oversized path is refused before any file system call.
\<close>

theorem identity_load_existing:
  assumes "location = [] \<or> length location > 32 * 1024 \<or> fs_names s (path_components location) \<noteq> None"
  shows "run_prog pid key (identity_load_or_create api location) s =
    (if location = [] \<or> length location > 32 * 1024
     then Inl (invalid At_identity_load ''identity path is invalid'')
     else case fs_names s (path_components location) of
            Some (Entry_file i) \<Rightarrow>
              if length (fs_content s i) = 32 then Inr (key_of_bytes api (fs_content s i))
              else Inl (invalid At_identity_load ''identity file has an invalid format'')
          | _ \<Rightarrow> Inl (invalid At_identity_load ''identity file has an invalid format''), s)"
  using assms
  by (auto simp: identity_load_or_create_def run_read_key KEY_SIZE_def Let_def split: option.splits entry.splits)

theorem identity_load_existing_witness:
  "run_prog 1 7 (identity_load_or_create demo_key_api []) empty_fs
    = (Inl (invalid At_identity_load ''identity path is invalid''), empty_fs)
   \<and> run_prog 1 7 (identity_load_or_create demo_key_api ''k'') (empty_fs\<lparr>fs_names := [[Normal ''k''] \<mapsto> Entry_dir]\<rparr>)
    = (Inl (invalid At_identity_load ''identity file has an invalid format''), empty_fs\<lparr>fs_names := [[Normal ''k''] \<mapsto> Entry_dir]\<rparr>)"
proof -
  have "path_components ''k'' = [Normal ''k'']" by (simp add: path_components_def)
  then show ?thesis
    using identity_load_existing [of "[]" empty_fs 1 7 demo_key_api]
      identity_load_existing [of "''k''" "empty_fs\<lparr>fs_names := [[Normal ''k''] \<mapsto> Entry_dir]\<rparr>" 1 7 demo_key_api]
    by simp
qed

end
