(* ===== verification/Spec2Isabelle.thy ===== *)
theory Spec2Isabelle
  imports Delivery Operation_Contract Message_Types Admission Ledger Census Registry Blocks Halves Lease_Outcomes Queue_Peak Tickets Identity_File
begin

text \<open>
  Verification of the native library of \<^verbatim>\<open>iroh_beam\<close>: the Rust crate
  \<^verbatim>\<open>native/iroh_beam_nif\<close>, which gives Erlang processes authenticated QUIC endpoints, connections,
  streams and datagrams on top of Iroh.

  \<^bold>\<open>The program.\<close> An Erlang process calls a NIF. A NIF that may wait starts an \<^emph>\<open>operation\<close>: it spawns
  an asynchronous block and a supervisor task, and returns a resource through which the operation
  can be cancelled. The supervisor waits for the block or the cancellation, decides the race by a
  compare-and-exchange on the operation's state cell and sends one message to the caller. Endpoints,
  connections and streams are resources with reference counts, atomics and mutexes; each monitors
  the process that owns it and is closed when that process exits or when nothing refers to it.

  \<^item> \<^verbatim>\<open>lib.rs\<close>: atoms, errors, the panic guard, versions, \<open>OperationResource\<close>, the smoke operation.
  \<^item> \<^verbatim>\<open>endpoint.rs\<close>: option validation, the builder, the identity registry, \<open>EndpointResource\<close>, the bind
    protocol, and \<open>start_endpoint_operation\<close>, which runs all other operations.
  \<^item> \<^verbatim>\<open>connection.rs\<close>: \<open>ConnectionResource\<close>, dialling, accepting under permits and allowlists.
  \<^item> \<^verbatim>\<open>stream.rs\<close>: \<open>StreamResource\<close>, leases of the two halves, the send and receive blocks, datagrams,
    queue accounting.
  \<^item> \<^verbatim>\<open>identity.rs\<close>: keys, addresses, tickets, and the identity file.

  \<^bold>\<open>The model.\<close> Each Rust function is a function on explicit state with its name (methods as
  \<open>Type_method\<close>); an early return or error is \<open>Inl\<close> of a \<open>NativeError\<close>; machine integers are words.
  Structs are records. Resources live in tables, a resource being an index into its table, and are
  never removed from them; \<open>er_dropped\<close>, \<open>cr_dropped\<close>, \<open>sr_dropped\<close> record that the destructor has run.

  \<^item> \<open>Prelude\<close>: words, results, atomics and mutexes with poisoning, sums over tables.
  \<^item> \<open>Rust_Net\<close>, \<open>Rust_Str\<close>, \<open>Rust_Fs\<close>: what the crate uses of the standard library: socket addresses
    and their text, UTF-8, paths and file system calls.
  \<^item> \<open>Native\<close>, \<open>Profile\<close>, \<open>Relay_Url\<close>, \<open>Endpoint_Config\<close>, \<open>Identity\<close>: the parts without state.
  \<^item> \<open>Futures\<close>: the asynchronous blocks after closure conversion, one constructor per \<open>await\<close> point, and
    the events with which Iroh resumes them.
  \<^item> \<open>Contracts\<close>: the locales \<open>permit_pool\<close>, \<open>busy_flag\<close>, \<open>one_shot\<close>, interpreted where their providers are
    defined: the accept permits and connection places of an endpoint (\<open>Endpoint\<close>), the datagram
    flags of a connection (\<open>Connection\<close>), cancelling and completing an operation (\<open>Operation\<close>).
  \<^item> \<open>Operation\<close>, \<open>Endpoint\<close>, \<open>Connection\<close>, \<open>Stream_Half\<close>, \<open>Stream_Io\<close>: the resources, the NIFs and the
    resumptions (\<open>poll_\<dots>\<close>) of the blocks. The state grows from \<open>rt_state\<close> over \<open>ep_state\<close> and
    \<open>conn_state\<close> to \<open>nif_state\<close>.
  \<^item> \<open>World\<close>: the whole library as the transition system \<open>nif_step\<close> with its reachable states. A NIF call,
    a drop, a monitor callback, the run of a block between two \<open>await\<close> points and each move of a
    supervisor are one step. What Iroh answers is free in every step; \<open>write_all\<close> is the loop over
    partial writes that it is documented to be, each inside the rest of the chunk.
  \<^item> \<open>Identity_File\<close>: the load-or-create protocol as call trees over file system calls, run by any number
    of threads and processes whose calls interleave and may fail, panic or stop.
  \<^item> \<open>Lease_Race\<close>, \<open>Queue_Peak\<close>: the send half and the queue counters at the granularity of single atomic
    operations and lock acquisitions. Run alone, the moves of a call are the definition \<open>World\<close> uses.

  \<^bold>\<open>The theorems.\<close> The invariants are proved on small abstract machines that the library refines, so
  that each of them is about a few rules rather than about every NIF.

  \<^item> \<open>Operation_Protocol\<close> and \<open>World_Refinement\<close>: \<open>op_step\<close>, the operations without their blocks; every
    \<open>nif_step\<close> is a sequence of its steps. \<open>Delivery\<close> concludes: one message per operation, silence
    and termination after a cancellation, the activity counter.
  \<^item> \<open>Operation_Contract\<close>: \<open>call_step\<close>, what a caller may rely on, as the specification of the library.
  \<^item> \<open>Task_Rules\<close>: a locale for properties of single operations, interpreted by \<open>Message_Types\<close> (messages
    have the type of their operation) and \<open>Blocks\<close> (a send never panics).
  \<^item> \<open>Holdings\<close>, \<open>Ledger\<close>: \<open>hold_step\<close>, what blocks hold (permits, leases, flags, queued bytes); nothing is
    leaked or used twice. \<open>References\<close>: every index a block or message refers to exists.
  \<^item> \<open>Census\<close>: \<open>census_step\<close>, the counters of connections and streams. \<open>Registry\<close>: \<open>registry_step\<close>, the
    identity registry. \<open>Halves\<close>: \<open>half_step\<close>, the life of a stream half, a call being one step.
  \<^item> \<open>Admission\<close>: from the allowlist of an accept to the connection in its message, across the whole library.
  \<^item> \<open>Send_Loop\<close>: the bytes a send hands to the transport, in order and all of them.
  \<^item> \<open>Endpoint_Config\<close>: which options are accepted, what an endpoint built from the crate's calls has, and
    that Iroh's verdicts on the bind addresses alone decide whether there is one.
  \<^item> \<open>Tickets\<close>: tickets parse back to what they were made of, within the parsers' size limits.
  \<^item> \<open>Identity_File\<close>: all callers agree on one key, and the file is published whole.
  \<^item> \<open>Lease_Race\<close>: exclusive use holds at the level of atomic operations; returning a lease and a reset
    can interleave so that the reset is lost. \<open>Lease_Outcomes\<close>: at that level the stream is always in
    exactly one place, exactly one of several leases wins, and a lease beside a return can be told
    \<open>closed\<close> on an open half. \<open>Queue_Peak\<close>: the counters are linearizable, the loop that raises the
    peak ends.

  \<open>Demo\<close> and the \<^emph>\<open>witness\<close> theorems run the definitions on concrete inputs.

  \<^bold>\<open>Bounds.\<close> No definition of the program uses fuel: blocks are resumed step by step and all recursion terminates
  (\<open>alone\<close> in \<open>Lease_Race\<close> counts the moves of one call, of which there are at most four). The
  theorems about exact counters are about machine words and say what they wrap to; those that
  read them as numbers assume fewer than \<open>2 ^ 64\<close> resources. The send loop is proved for data
  of less than \<open>2 ^ 63\<close> bytes, which Rust guarantees for every slice.

  \<^bold>\<open>Iroh and the runtime.\<close> Iroh, its codecs and cryptography, and \<open>RelayUrl\<close> are parameters: records of
  functions (\<open>iroh_api\<close>, \<open>iroh_identity_api\<close>, \<open>relay_url_api\<close>) or free answers. Laws of theirs are
  hypotheses of the theorems that need them: \<open>VarInt::from_u64\<close> accepts the QUIC range, a
  secret key of 32 bytes is recovered from its bytes, the ticket codec decodes what it encodes, a
  builder call replaces the setting it names (\<open>builder_documented\<close>). That \<open>write\<close> and \<open>read_chunk\<close> keep
  to the sizes they were given is not checked by the crate and not assumed. Tokio is modelled by what the crate relies on: a
  spawned block runs until it is aborted, \<open>select!\<close> takes either ready branch, a \<open>Notify\<close> stores one permit.

  \<^bold>\<open>Not modelled.\<close> The interleaving inside a NIF call other than in \<open>Lease_Race\<close>, \<open>Queue_Peak\<close> and
  \<open>Identity_File\<close>: in \<open>World\<close> it is one step, so a theorem about reachable states of \<open>World\<close> speaks of
  the moments between calls, and the receive half and the closing of a resource are not interleaved
  at all. Memory orderings
  weaker than sequential consistency. Symbolic links and the non-Unix \<open>create_temp\<close>. The encoding of
  terms. Resource registration and the unit tests of the crate. The Elixir and Erlang layers above
  the crate, and the build, release and test infrastructure, are outside it.

  \<^bold>\<open>Plan.\<close> The interleaving of the receive half and of closing a stream with its leases, move by move;
  the life of a connection and its streams after the owner exits; key import and export.
\<close>

end
